(* ===== verification/Xblast_Prelude.thy ===== *)
theory Xblast_Prelude
  imports Main "HOL-Library.Word" "HOL-Library.Monad_Syntax"
begin

unbundle bit_operations_syntax

text \<open>
  Shared vocabulary of the development. The firmware is 32-bit C: unsigned char, short
  and int are words of 8, 16 and 32 bits, whose arithmetic wraps. A C array is a list (or,
  for the one-megabyte BIOS buffer, a function together with its size), and an access out of
  its bounds is undefined behaviour, written None in the option monad. Theorems that a
  routine returns Some are therefore memory-safety theorems.
\<close>

type_synonym u8 = "8 word"
type_synonym u16 = "16 word"
type_synonym u32 = "32 word"

named_theorems c_array_simps \<open>reads and writes of C arrays inside their bounds\<close>
named_theorems word_bounds \<open>bounds on the natural-number value of machine words\<close>

definition arr_get :: "'a list \<Rightarrow> nat \<Rightarrow> 'a option" where
  "arr_get xs i = (if i < length xs then Some (xs ! i) else None)"

definition arr_set :: "'a list \<Rightarrow> nat \<Rightarrow> 'a \<Rightarrow> 'a list option" where
  "arr_set xs i v = (if i < length xs then Some (xs[i := v]) else None)"

lemma arr_get_Some [c_array_simps]: "i < length xs \<Longrightarrow> arr_get xs i = Some (xs ! i)"
  by (simp add: arr_get_def)

lemma arr_set_Some [c_array_simps]: "i < length xs \<Longrightarrow> arr_set xs i v = Some (xs[i := v])"
  by (simp add: arr_set_def)

lemma arr_set_length: "arr_set xs i v = Some ys \<Longrightarrow> length ys = length xs"
  by (auto simp: arr_set_def split: if_splits)

subsection \<open>Little-endian fields of packed structures\<close>

definition u16_bytes :: "u16 \<Rightarrow> u8 list" where
  "u16_bytes w = [ucast w, ucast (drop_bit 8 w)]"

definition bytes_u16 :: "u8 \<Rightarrow> u8 \<Rightarrow> u16" where
  "bytes_u16 lo hi = ucast lo OR push_bit 8 (ucast hi)"

lemma bytes_u16_of_u16_bytes [simp]:
  "bytes_u16 (ucast w) (ucast (drop_bit 8 w)) = w"
  unfolding bytes_u16_def
  by (rule bit_word_eqI) (auto simp: bit_simps)

lemma length_u16_bytes [simp]: "length (u16_bytes w) = 2"
  by (simp add: u16_bytes_def)

definition u32_bytes :: "u32 \<Rightarrow> u8 list" where
  "u32_bytes w = [ucast w, ucast (drop_bit 8 w), ucast (drop_bit 16 w), ucast (drop_bit 24 w)]"

definition bytes_u32 :: "u8 list \<Rightarrow> u32" where
  "bytes_u32 bs = ucast (bs ! 0) OR push_bit 8 (ucast (bs ! 1)) OR
     push_bit 16 (ucast (bs ! 2)) OR push_bit 24 (ucast (bs ! 3))"

definition chunk :: "nat \<Rightarrow> nat \<Rightarrow> 'a list \<Rightarrow> 'a list" where
  "chunk start len bs = take len (drop start bs)"

lemma length_u32_bytes [simp]: "length (u32_bytes w) = 4"
  by (simp add: u32_bytes_def)

lemma bytes_u32_of_u32_bytes [simp]: "bytes_u32 (u32_bytes w) = w"
proof (rule bit_word_eqI)
  fix n assume "n < LENGTH(32)"
  then consider "n < 8" | "8 \<le> n \<and> n < 16" | "16 \<le> n \<and> n < 24" | "24 \<le> n \<and> n < 32"
    by fastforce
  then show "bit (bytes_u32 (u32_bytes w)) n = bit w n"
    by cases (auto simp: bytes_u32_def u32_bytes_def bit_simps)
qed

lemma not_bit_u8: "8 \<le> n \<Longrightarrow> \<not> bit (b :: u8) n"
  using bit_imp_le_length [of b n] by auto

lemma u32_bytes_of_bytes_u32:
  assumes "length bs = 4" shows "u32_bytes (bytes_u32 bs) = bs"
proof -
  obtain a b c d where bs: "bs = [a, b, c, d]"
    using assms by (auto simp: numeral_eq_Suc length_Suc_conv)
  show ?thesis
    unfolding bs u32_bytes_def bytes_u32_def
    by (auto simp: bit_simps not_bit_u8 intro!: bit_word_eqI)
qed

lemma length_chunk [simp]: "length (chunk i n xs) = min n (length xs - i)"
  by (simp add: chunk_def)

lemma chunk_append_skip: "length xs \<le> i \<Longrightarrow> chunk i n (xs @ ys) = chunk (i - length xs) n ys"
  by (simp add: chunk_def)

lemma chunk_append_take: "n = length xs \<Longrightarrow> chunk 0 n (xs @ ys) = xs"
  by (simp add: chunk_def)

lemma chunk_Cons_skip: "0 < i \<Longrightarrow> chunk i n (x # xs) = chunk (i - 1) n xs"
  by (cases i) (simp_all add: chunk_def)

lemma chunk_all: "n = length xs \<Longrightarrow> chunk 0 n xs = xs"
  by (simp add: chunk_def)

lemmas chunk_layout = chunk_append_skip chunk_append_take chunk_Cons_skip chunk_all

lemma nth_chunk [simp]: "j < n \<Longrightarrow> i + j < length xs \<Longrightarrow> chunk i n xs ! j = xs ! (i + j)"
  by (simp add: chunk_def)

subsection \<open>Bounds of machine words\<close>

lemma unat_u8_less [word_bounds]: "unat (b :: u8) < 256"
  using unsigned_less [of b] by simp

lemma unat_u16_less [word_bounds]: "unat (b :: u16) < 65536"
  using unsigned_less [of b] by simp

lemma unat_u32_less [word_bounds]: "unat (b :: u32) < 4294967296"
  using unsigned_less [of b] by simp

subsection \<open>Bytes, bit by bit\<close>

lemma less_8_cases:
  "(n :: nat) < 8 \<Longrightarrow>
   n = 0 \<or> n = 1 \<or> n = 2 \<or> n = 3 \<or> n = 4 \<or> n = 5 \<or> n = 6 \<or> n = 7"
  by arith

lemma u8_eqI:
  assumes "bit (a :: u8) 0 = bit b 0" "bit a 1 = bit b 1" "bit a 2 = bit b 2" "bit a 3 = bit b 3"
    "bit a 4 = bit b 4" "bit a 5 = bit b 5" "bit a 6 = bit b 6" "bit a 7 = bit b 7"
  shows "a = b"
proof (rule bit_word_eqI)
  fix n assume "n < LENGTH(8)"
  then show "bit a n = bit b n" using assms less_8_cases [of n] by auto
qed

lemma and_bit_eq_0_u8:
  "(x :: u8) AND 0x01 = 0 \<longleftrightarrow> \<not> bit x 0" "x AND 0x02 = 0 \<longleftrightarrow> \<not> bit x 1"
  "x AND 0x04 = 0 \<longleftrightarrow> \<not> bit x 2" "x AND 0x08 = 0 \<longleftrightarrow> \<not> bit x 3"
  "x AND 0x10 = 0 \<longleftrightarrow> \<not> bit x 4" "x AND 0x20 = 0 \<longleftrightarrow> \<not> bit x 5"
  "x AND 0x40 = 0 \<longleftrightarrow> \<not> bit x 6" "x AND 0x80 = 0 \<longleftrightarrow> \<not> bit x 7"
  using and_exp_eq_0_iff_not_bit [of x 0] and_exp_eq_0_iff_not_bit [of x 1]
    and_exp_eq_0_iff_not_bit [of x 2] and_exp_eq_0_iff_not_bit [of x 3]
    and_exp_eq_0_iff_not_bit [of x 4] and_exp_eq_0_iff_not_bit [of x 5]
    and_exp_eq_0_iff_not_bit [of x 6] and_exp_eq_0_iff_not_bit [of x 7]
  by simp_all

end
