(* ===== verification/TimeManagement.thy ===== *)
theory TimeManagement
  imports Xblast_Prelude
begin

text \<open>
  The clock helpers of lib/time/timeManagement.c. The millisecond clock is the global
  currentHeldTime_ms, refreshed by updateTime from the interrupt counter; the microsecond
  clock is read from the APIC counter. Both counters are the machine's, so their values are
  arguments here.
\<close>

definition UINT_MAX :: u32 where
  "UINT_MAX = 0xFFFFFFFF"

definition getElapsedTimeSince :: "u32 \<Rightarrow> u32 \<Rightarrow> u32" where
  "getElapsedTimeSince currentHeldTime_ms startValue_ms = currentHeldTime_ms - startValue_ms"

definition getElapseMicroSecondsSince :: "u32 \<Rightarrow> u32 \<Rightarrow> u32" where
  "getElapseMicroSecondsSince us startValue_us =
     (if startValue_us > us
      then us + (UINT_MAX - startValue_us) - 0
      else us - startValue_us)"

text \<open>
  wait_ms polls the clock once per turn of cromwellLoop. The list holds the values that
  currentHeldTime_ms takes, turn after turn; the result is the values left when the wait
  ends, and None when the list ends first.
\<close>

fun wait_ms_loop :: "u32 \<Rightarrow> u32 \<Rightarrow> bool \<Rightarrow> u32 list \<Rightarrow> u32 list option" where
  "wait_ms_loop startTime waitTime_ms rolloverOccured [] = None"
| "wait_ms_loop startTime waitTime_ms rolloverOccured (now # later) =
     (if now \<ge> startTime + waitTime_ms then Some later
      else if now = 0 \<and> startTime \<noteq> 0 \<and> \<not> rolloverOccured
      then wait_ms_loop startTime (waitTime_ms + (UINT_MAX - startTime)) True later
      else wait_ms_loop startTime waitTime_ms rolloverOccured later)"

definition wait_ms :: "u32 \<Rightarrow> u32 \<Rightarrow> u32 list \<Rightarrow> u32 list option" where
  "wait_ms currentHeldTime_ms waitTime_ms ticks =
     wait_ms_loop currentHeldTime_ms waitTime_ms False ticks"

lemma getElapsedTimeSince_zero [simp]: "getElapsedTimeSince t t = 0"
  by (simp add: getElapsedTimeSince_def)

lemma getElapsedTimeSince_later:
  "getElapsedTimeSince (t + d) t = d"
  by (simp add: getElapsedTimeSince_def)

lemma getElapseMicroSecondsSince_forward:
  "start \<le> us \<Longrightarrow> unat (getElapseMicroSecondsSince us start) = unat us - unat start"
  by (auto simp: getElapseMicroSecondsSince_def unat_sub)

lemma getElapseMicroSecondsSince_rollover:
  "us < start \<Longrightarrow> getElapseMicroSecondsSince us start = us - start - 1"
  by (simp add: getElapseMicroSecondsSince_def UINT_MAX_def)

end
