(* ===== verification/Fifo_Spec.thy ===== *)
theory Fifo_Spec
  imports Xblast_Prelude
begin

text \<open>
  The contract of a bounded first-in first-out buffer whose producer drops what does not
  fit. Operations are partial: None is an access outside the buffer's memory. The
  specification fifo_spec runs a sequence of commands on a plain list; the locale proves
  once that every implementation of the contract computes the same outputs.
\<close>

datatype 'a fifo_cmd = Put 'a | Get

fun fifo_spec :: "nat \<Rightarrow> 'a fifo_cmd list \<Rightarrow> 'a list \<Rightarrow> 'a list \<times> 'a list" where
  "fifo_spec cap [] q = ([], q)"
| "fifo_spec cap (Put x # cs) q = fifo_spec cap cs (if length q < cap then q @ [x] else q)"
| "fifo_spec cap (Get # cs) [] = fifo_spec cap cs []"
| "fifo_spec cap (Get # cs) (x # q) = (let (outs, r) = fifo_spec cap cs q in (x # outs, r))"

fun fifo_drive ::
    "('a \<Rightarrow> 's \<Rightarrow> 's option) \<Rightarrow> ('s \<Rightarrow> ('a \<times> 's) option) \<Rightarrow> ('s \<Rightarrow> bool) \<Rightarrow>
     'a fifo_cmd list \<Rightarrow> 's \<Rightarrow> ('a list \<times> 's) option" where
  "fifo_drive put get has_data [] s = Some ([], s)"
| "fifo_drive put get has_data (Put x # cs) s =
     do { t \<leftarrow> put x s; fifo_drive put get has_data cs t }"
| "fifo_drive put get has_data (Get # cs) s =
     (if has_data s then do {
        (x, t) \<leftarrow> get s;
        (outs, r) \<leftarrow> fifo_drive put get has_data cs t;
        Some (x # outs, r)
      }
      else fifo_drive put get has_data cs s)"

locale bounded_fifo =
  fixes put :: "'a \<Rightarrow> 's \<Rightarrow> 's option"
    and get :: "'s \<Rightarrow> ('a \<times> 's) option"
    and has_data :: "'s \<Rightarrow> bool"
    and items :: "'s \<Rightarrow> 'a list"
    and wf :: "'s \<Rightarrow> bool"
    and cap :: nat
  assumes put_room: "wf s \<Longrightarrow> length (items s) < cap \<Longrightarrow>
      \<exists>t. put x s = Some t \<and> wf t \<and> items t = items s @ [x]"
    and put_full: "wf s \<Longrightarrow> \<not> length (items s) < cap \<Longrightarrow> put x s = Some s"
    and get_item: "wf s \<Longrightarrow> items s = x # xs \<Longrightarrow>
      \<exists>t. get s = Some (x, t) \<and> wf t \<and> items t = xs"
    and has_data_iff: "wf s \<Longrightarrow> has_data s \<longleftrightarrow> items s \<noteq> []"
begin

lemma drive_simulates:
  "wf s \<Longrightarrow>
   \<exists>t. fifo_drive put get has_data cs s = Some (fst (fifo_spec cap cs (items s)), t) \<and>
       wf t \<and> items t = snd (fifo_spec cap cs (items s))"
proof (induction cs arbitrary: s)
  case Nil
  then show ?case by simp
next
  case (Cons c cs)
  show ?case
  proof (cases c)
    case (Put x)
    obtain t where "put x s = Some t" "wf t"
      "items t = (if length (items s) < cap then items s @ [x] else items s)"
      using put_room [OF Cons.prems, of x] put_full [OF Cons.prems, of x] Cons.prems by metis
    with Cons.IH [of t] Put show ?thesis by simp
  next
    case Get
    show ?thesis
    proof (cases "items s")
      case Nil
      with Cons.IH [OF Cons.prems] Get has_data_iff [OF Cons.prems] show ?thesis by simp
    next
      case (Cons x xs)
      then obtain t where "get s = Some (x, t)" "wf t" "items t = xs"
        using get_item [OF \<open>wf s\<close>] by blast
      with Cons.IH [of t] Get Cons has_data_iff [OF \<open>wf s\<close>] show ?thesis
        by (auto simp: case_prod_beta)
    qed
  qed
qed

end


end
