(* ===== verification/LCDRingBuffer.thy ===== *)
theory LCDRingBuffer
  imports TimeManagement Fifo_Spec
begin

text \<open>
  lib/LPCMod/LCDRingBuffer.c: LCD commands are queued as four-byte records in a
  1024-byte ring, and a polled state machine sends each of them to the display as two
  nibbles. The state record holds the file's static variables, and io is the sequence of
  port writes made so far (WriteToIO in lib/LPCMod/BootLPCMod.c), oldest first.
\<close>

datatype InternalOp =
    InternalOp_ReadyForNewOp
  | InternalOp_WriteHighNibble
  | InternalOp_WriteLowNibble

record DataOperation_t =
  dataToWrite :: u8
  rsFlag :: u8
  delayInUs :: u16

record lcd_ring =
  ringBuf :: "u8 list"
  inPos :: u16
  outPos :: u16
  rollOver :: bool
  internalOp :: InternalOp
  currentOp :: DataOperation_t
  systickStartValue :: u32
  io :: "(u16 \<times> u8) list"

definition ringBufSize :: u16 where
  "ringBufSize = 1024"

definition sizeof_DataOperation_t :: u16 where
  "sizeof_DataOperation_t = 4"

definition DISPLAY_E :: u8 where
  "DISPLAY_E = 0x04"

definition LCD_DATA :: u16 where "LCD_DATA = 0xF700"
definition X3_DISP_O_DAT :: u16 where "X3_DISP_O_DAT = 0xF504"
definition X3_DISP_O_CMD :: u16 where "X3_DISP_O_CMD = 0xF505"

text \<open>The packed record seen through an unsigned char pointer.\<close>

definition op_bytes :: "DataOperation_t \<Rightarrow> u8 list" where
  "op_bytes d = [dataToWrite d, rsFlag d] @ u16_bytes (delayInUs d)"

fun bytes_op :: "u8 list \<Rightarrow> DataOperation_t" where
  "bytes_op [b0, b1, b2, b3] =
     \<lparr>dataToWrite = b0, rsFlag = b1, delayInUs = bytes_u16 b2 b3\<rparr>"
| "bytes_op _ = \<lparr>dataToWrite = 0, rsFlag = 0, delayInUs = 0\<rparr>"

definition put_byte :: "lcd_ring \<Rightarrow> u8 \<Rightarrow> lcd_ring option" where
  "put_byte s b = do {
     buf \<leftarrow> arr_set (ringBuf s) (unat (inPos s)) b;
     let p = inPos s + 1;
     Some (if p \<ge> ringBufSize
           then s\<lparr>ringBuf := buf, inPos := 0, rollOver := True\<rparr>
           else s\<lparr>ringBuf := buf, inPos := p\<rparr>)
   }"

fun put_bytes :: "lcd_ring \<Rightarrow> u8 list \<Rightarrow> lcd_ring option" where
  "put_bytes s [] = Some s"
| "put_bytes s (b # bs) = do { t \<leftarrow> put_byte s b; put_bytes t bs }"

definition ring_full :: "lcd_ring \<Rightarrow> bool" where
  "ring_full s =
     (let projectedEnd = inPos s + sizeof_DataOperation_t
      in (rollOver s \<and> projectedEnd > outPos s) \<or>
         (rollOver s = False \<and> projectedEnd mod ringBufSize < projectedEnd \<and>
            projectedEnd mod ringBufSize > outPos s))"

definition putInBuf :: "DataOperation_t \<Rightarrow> lcd_ring \<Rightarrow> lcd_ring option" where
  "putInBuf d s = (if ring_full s then Some s else put_bytes s (op_bytes d))"

definition get_byte :: "lcd_ring \<Rightarrow> (u8 \<times> lcd_ring) option" where
  "get_byte s = do {
     b \<leftarrow> arr_get (ringBuf s) (unat (outPos s));
     let p = outPos s + 1;
     Some (b, if p \<ge> ringBufSize then s\<lparr>outPos := 0, rollOver := False\<rparr>
              else s\<lparr>outPos := p\<rparr>)
   }"

fun get_bytes :: "nat \<Rightarrow> lcd_ring \<Rightarrow> (u8 list \<times> lcd_ring) option" where
  "get_bytes 0 s = Some ([], s)"
| "get_bytes (Suc n) s = do {
     (b, t) \<leftarrow> get_byte s;
     (bs, r) \<leftarrow> get_bytes n t;
     Some (b # bs, r)
   }"

definition getFromBuf :: "lcd_ring \<Rightarrow> (DataOperation_t \<times> lcd_ring) option" where
  "getFromBuf s = do {
     (bs, t) \<leftarrow> get_bytes (unat sizeof_DataOperation_t) s;
     Some (bytes_op bs, t)
   }"

definition putInLCDRingBuffer :: "u8 \<Rightarrow> u8 \<Rightarrow> u16 \<Rightarrow> lcd_ring \<Rightarrow> lcd_ring option" where
  "putInLCDRingBuffer d RS delay s =
     putInBuf \<lparr>dataToWrite = d, rsFlag = RS, delayInUs = delay\<rparr> s"

definition LCDRingBufferInit :: "lcd_ring \<Rightarrow> lcd_ring" where
  "LCDRingBufferInit s =
     s\<lparr>inPos := 0, outPos := 0, rollOver := False,
       internalOp := InternalOp_ReadyForNewOp, systickStartValue := 0,
       currentOp := (currentOp s)\<lparr>delayInUs := 0\<rparr>\<rparr>"

definition WriteToIO :: "u16 \<Rightarrow> u8 \<Rightarrow> lcd_ring \<Rightarrow> lcd_ring" where
  "WriteToIO port d s = s\<lparr>io := io s @ [(port, d)]\<rparr>"

definition xecuter3LCDWrite :: "u8 \<Rightarrow> u8 \<Rightarrow> lcd_ring \<Rightarrow> lcd_ring" where
  "xecuter3LCDWrite d RSFlag s =
     (let s = WriteToIO X3_DISP_O_DAT d s;
          s = WriteToIO X3_DISP_O_CMD RSFlag s;
          s = WriteToIO X3_DISP_O_CMD (RSFlag OR DISPLAY_E) s
      in WriteToIO X3_DISP_O_CMD RSFlag s)"

definition smartXXLCDwrite :: "u8 \<Rightarrow> lcd_ring \<Rightarrow> lcd_ring" where
  "smartXXLCDwrite d s =
     (let s = WriteToIO LCD_DATA d s;
          d = d OR DISPLAY_E;
          s = WriteToIO LCD_DATA d s;
          d = d XOR DISPLAY_E
      in WriteToIO LCD_DATA d s)"

definition highNibble :: "DataOperation_t \<Rightarrow> u8" where
  "highNibble d =
     ((drop_bit 2 (dataToWrite d) AND 0x28) OR rsFlag d) OR
     (drop_bit 0 (dataToWrite d) AND 0x50)"

definition lowNibble :: "DataOperation_t \<Rightarrow> u8" where
  "lowNibble d =
     ((push_bit 2 (dataToWrite d) AND 0x28) OR rsFlag d) OR
     (push_bit 4 (dataToWrite d) AND 0x50)"

text \<open>
  updateLCDRingBuffer reads the microsecond clock in getElapseMicroSecondsSince (now) and
  once more after a nibble was written (after).
\<close>

definition updateLCDRingBuffer :: "bool \<Rightarrow> u32 \<Rightarrow> u32 \<Rightarrow> lcd_ring \<Rightarrow> lcd_ring option" where
  "updateLCDRingBuffer isXecuter3 now after s =
     (if getElapseMicroSecondsSince now (systickStartValue s) \<ge> ucast (delayInUs (currentOp s))
      then (case internalOp s of
          InternalOp_ReadyForNewOp \<Rightarrow>
            (if outPos s \<noteq> inPos s \<or> rollOver s
             then do {
               (d, t) \<leftarrow> getFromBuf s;
               Some (t\<lparr>currentOp := d, internalOp := InternalOp_WriteHighNibble\<rparr>)
             }
             else Some s)
        | InternalOp_WriteHighNibble \<Rightarrow>
            (let t = (if isXecuter3
                      then xecuter3LCDWrite (dataToWrite (currentOp s) AND 0xF0)
                             (rsFlag (currentOp s)) s
                      else smartXXLCDwrite (highNibble (currentOp s)) s)
             in Some (t\<lparr>systickStartValue := after, internalOp := InternalOp_WriteLowNibble\<rparr>))
        | InternalOp_WriteLowNibble \<Rightarrow>
            (let t = (if isXecuter3
                      then xecuter3LCDWrite (push_bit 4 (dataToWrite (currentOp s)))
                             (rsFlag (currentOp s)) s
                      else smartXXLCDwrite (lowNibble (currentOp s)) s)
             in Some (t\<lparr>systickStartValue := after, internalOp := InternalOp_ReadyForNewOp\<rparr>)))
      else Some s)"


subsection \<open>The queued bytes and the well-formed ring\<close>

definition ring_bytes :: "lcd_ring \<Rightarrow> u8 list" where
  "ring_bytes s =
     (if rollOver s then drop (unat (outPos s)) (ringBuf s) @ take (unat (inPos s)) (ringBuf s)
      else drop (unat (outPos s)) (take (unat (inPos s)) (ringBuf s)))"

definition ring_ok :: "lcd_ring \<Rightarrow> bool" where
  "ring_ok s \<longleftrightarrow>
     length (ringBuf s) = 1024 \<and> unat (inPos s) < 1024 \<and> unat (outPos s) < 1024 \<and>
     (if rollOver s then unat (inPos s) \<le> unat (outPos s)
      else unat (outPos s) \<le> unat (inPos s))"

definition ring_wf :: "lcd_ring \<Rightarrow> bool" where
  "ring_wf s \<longleftrightarrow> ring_ok s \<and> 4 dvd unat (inPos s) \<and> 4 dvd unat (outPos s)"

fun ops_of :: "u8 list \<Rightarrow> DataOperation_t list" where
  "ops_of (b0 # b1 # b2 # b3 # bs) = bytes_op [b0, b1, b2, b3] # ops_of bs"
| "ops_of _ = []"

definition queued :: "lcd_ring \<Rightarrow> DataOperation_t list" where
  "queued s = ops_of (ring_bytes s)"

lemma unat_Suc_pos: "unat (p :: u16) < 1024 \<Longrightarrow> unat (p + 1) = Suc (unat p)"
  by (simp add: unat_word_ariths)

lemma ringBufSize_le: "unat (p :: u16) < 1024 \<Longrightarrow> ringBufSize \<le> p + 1 \<longleftrightarrow> unat p = 1023"
  by (simp add: ringBufSize_def word_le_nat_alt unat_Suc_pos) arith

lemma length_ring_bytes:
  "ring_ok s \<Longrightarrow> length (ring_bytes s) =
     (if rollOver s then 1024 - unat (outPos s) + unat (inPos s)
      else unat (inPos s) - unat (outPos s))"
  by (auto simp: ring_ok_def ring_bytes_def)

lemma bytes_op_op_bytes [simp]: "bytes_op (op_bytes d) = d"
  by (simp add: op_bytes_def u16_bytes_def)

lemma length_op_bytes [simp]: "length (op_bytes d) = 4"
  by (simp add: op_bytes_def)

lemma length_ops_of: "length (ops_of bs) = length bs div 4"
  by (induction bs rule: ops_of.induct) auto

lemma dvd4_Suc4: "4 dvd Suc (Suc (Suc (Suc n))) \<longleftrightarrow> 4 dvd n"
  by presburger

lemma not_dvd4: "\<not> 4 dvd Suc (Suc 0)" "\<not> 4 dvd Suc (Suc (Suc 0))"
  by presburger+

lemma ops_of_append:
  "4 dvd length xs \<Longrightarrow> ops_of (xs @ ys) = ops_of xs @ ops_of ys"
  by (induction xs rule: ops_of.induct) (auto simp: dvd4_Suc4 not_dvd4)

lemma ops_of_op_bytes [simp]: "ops_of (op_bytes d) = [d]"
  by (simp add: op_bytes_def u16_bytes_def)

lemma ops_of_take_drop:
  "4 \<le> length bs \<Longrightarrow> ops_of bs = bytes_op (take 4 bs) # ops_of (drop 4 bs)"
  by (induction bs rule: ops_of.induct) auto

subsection \<open>One byte in, one byte out\<close>

definition same_machine :: "lcd_ring \<Rightarrow> lcd_ring \<Rightarrow> bool" where
  "same_machine s t \<longleftrightarrow>
     internalOp t = internalOp s \<and> currentOp t = currentOp s \<and>
     systickStartValue t = systickStartValue s \<and> io t = io s"

lemma put_byte_room:
  assumes "ring_ok s" and "length (ring_bytes s) < 1024"
  shows "\<exists>t. put_byte s b = Some t \<and> ring_ok t \<and> ring_bytes t = ring_bytes s @ [b] \<and>
    outPos t = outPos s \<and> unat (inPos t) = Suc (unat (inPos s)) mod 1024 \<and> same_machine s t"
proof -
  let ?i = "unat (inPos s)"
  have ok: "length (ringBuf s) = 1024" "?i < 1024" "unat (outPos s) < 1024"
    using assms(1) by (auto simp: ring_ok_def)
  define buf where "buf = (ringBuf s)[?i := b]"
  have take_Suc: "take (Suc ?i) buf = take ?i (ringBuf s) @ [b]"
    using ok by (simp add: buf_def take_Suc_conv_app_nth)
  show ?thesis
  proof (cases "?i = 1023")
    case True
    then have "\<not> rollOver s"
      using assms by (auto simp: length_ring_bytes ring_ok_def)
    have "(ringBuf s)[1023 := b] = take 1023 (ringBuf s) @ [b]"
      using take_Suc True ok by (simp add: buf_def)
    then show ?thesis
      using True ok \<open>\<not> rollOver s\<close> assms(1)
      by (auto simp: put_byte_def c_array_simps ringBufSize_le ring_ok_def ring_bytes_def
            same_machine_def)
  next
    case False
    have outs: "rollOver s \<Longrightarrow> drop (unat (outPos s)) buf = drop (unat (outPos s)) (ringBuf s)"
      using assms by (auto simp: length_ring_bytes buf_def drop_update_cancel)
    have "length buf = 1024" using ok by (simp add: buf_def)
    then show ?thesis
      using False ok assms take_Suc outs
      by (auto simp: put_byte_def c_array_simps ringBufSize_le ring_ok_def ring_bytes_def
            same_machine_def buf_def [symmetric] unat_Suc_pos length_ring_bytes)
  qed
qed

lemma get_byte_data:
  assumes "ring_ok s" and "ring_bytes s = b # bs"
  shows "\<exists>t. get_byte s = Some (b, t) \<and> ring_ok t \<and> ring_bytes t = bs \<and>
    inPos t = inPos s \<and> unat (outPos t) = Suc (unat (outPos s)) mod 1024 \<and> same_machine s t"
proof -
  let ?o = "unat (outPos s)"
  have ok: "length (ringBuf s) = 1024" "unat (inPos s) < 1024" "?o < 1024"
    using assms(1) by (auto simp: ring_ok_def)
  have more: "\<not> rollOver s \<Longrightarrow> ?o < unat (inPos s)"
    using length_ring_bytes [OF assms(1)] assms(2) by simp
  have minus: "\<not> rollOver s \<Longrightarrow> unat (inPos s) - ?o = Suc (unat (inPos s) - Suc ?o)"
    using more by simp
  have split: "drop ?o (ringBuf s) = ringBuf s ! ?o # drop (Suc ?o) (ringBuf s)"
    using ok by (simp add: Cons_nth_drop_Suc)
  show ?thesis
  proof (cases "?o = 1023")
    case True
    then have "rollOver s" using more ok by fastforce
    then show ?thesis
      using True ok split assms
      by (auto simp: get_byte_def c_array_simps ringBufSize_le ring_ok_def ring_bytes_def
            same_machine_def)
  next
    case False
    show ?thesis
      using False ok split assms more minus
      by (auto simp: get_byte_def c_array_simps ringBufSize_le ring_ok_def ring_bytes_def
            same_machine_def unat_Suc_pos drop_take split: if_splits)
  qed
qed

subsection \<open>Whole records\<close>

lemma same_machine_refl [simp]: "same_machine s s"
  by (simp add: same_machine_def)

lemma same_machine_trans: "same_machine r s \<Longrightarrow> same_machine s t \<Longrightarrow> same_machine r t"
  by (simp add: same_machine_def)

lemma put_bytes_room:
  "ring_ok s \<Longrightarrow> length (ring_bytes s) + length bs \<le> 1024 \<Longrightarrow>
   \<exists>t. put_bytes s bs = Some t \<and> ring_ok t \<and> ring_bytes t = ring_bytes s @ bs \<and>
       outPos t = outPos s \<and> unat (inPos t) = (unat (inPos s) + length bs) mod 1024 \<and>
       same_machine s t"
proof (induction bs arbitrary: s)
  case Nil
  then show ?case by (simp add: ring_ok_def)
next
  case (Cons b bs)
  obtain r where r: "put_byte s b = Some r" "ring_ok r" "ring_bytes r = ring_bytes s @ [b]"
      "outPos r = outPos s" "unat (inPos r) = Suc (unat (inPos s)) mod 1024" "same_machine s r"
    using put_byte_room [OF Cons.prems(1), of b] Cons.prems(2) by auto
  then show ?case
    using Cons.IH [of r] Cons.prems(2) by (auto simp: mod_simps intro: same_machine_trans)
qed

lemma get_bytes_data:
  "ring_ok s \<Longrightarrow> n \<le> length (ring_bytes s) \<Longrightarrow>
   \<exists>t. get_bytes n s = Some (take n (ring_bytes s), t) \<and> ring_ok t \<and>
       ring_bytes t = drop n (ring_bytes s) \<and> inPos t = inPos s \<and>
       unat (outPos t) = (unat (outPos s) + n) mod 1024 \<and> same_machine s t"
proof (induction n arbitrary: s)
  case 0
  then show ?case by (simp add: ring_ok_def)
next
  case (Suc n)
  then obtain b bs where bs: "ring_bytes s = b # bs" by (cases "ring_bytes s") auto
  obtain r where r: "get_byte s = Some (b, r)" "ring_ok r" "ring_bytes r = bs"
      "inPos r = inPos s" "unat (outPos r) = Suc (unat (outPos s)) mod 1024" "same_machine s r"
    using get_byte_data [OF Suc.prems(1) bs] by auto
  then show ?case
    using Suc.IH [of r] Suc.prems(2) bs by (auto simp: mod_simps intro: same_machine_trans)
qed

lemma four_dvd_cases: "4 dvd (n :: nat) \<Longrightarrow> n < 1024 \<Longrightarrow> n \<le> 1020"
  by presburger

lemma four_dvd_mod: "4 dvd (n :: nat) \<Longrightarrow> 4 dvd (n + 4) mod 1024"
  by (rule dvd_mod) auto

lemma ring_full_iff:
  assumes "ring_wf s"
  shows "ring_full s \<longleftrightarrow> \<not> length (ring_bytes s) + 4 \<le> 1024"
proof -
  have ok: "ring_ok s" "unat (inPos s) < 1024" "unat (outPos s) < 1024"
    using assms by (auto simp: ring_wf_def ring_ok_def)
  have i: "unat (inPos s) \<le> 1020"
    using assms ok by (auto simp: ring_wf_def intro: four_dvd_cases)
  have u: "unat (inPos s + 4) = unat (inPos s) + 4"
    using i by (simp add: unat_word_ariths)
  show ?thesis
  proof (cases "rollOver s")
    case True
    then show ?thesis
      using ok u assms
      by (simp add: ring_full_def sizeof_DataOperation_t_def word_less_nat_alt length_ring_bytes
            ring_wf_def ring_ok_def) arith
  next
    case False
    have "unat ((inPos s + 4) mod 1024) = (unat (inPos s) + 4) mod 1024"
      using u by (simp add: unat_mod_distrib)
    moreover have "(unat (inPos s) + 4) mod 1024 =
        (if unat (inPos s) = 1020 then 0 else unat (inPos s) + 4)"
      using i by simp
    ultimately show ?thesis
      using False ok u i assms
      by (auto simp: ring_full_def sizeof_DataOperation_t_def ringBufSize_def word_less_nat_alt
            length_ring_bytes ring_wf_def ring_ok_def)
  qed
qed

lemma ring_bytes_dvd: "ring_wf s \<Longrightarrow> 4 dvd length (ring_bytes s)"
  by (auto simp: ring_wf_def length_ring_bytes intro!: dvd_add dvd_diff_nat)

lemma length_queued: "ring_wf s \<Longrightarrow> length (queued s) = length (ring_bytes s) div 4"
  by (simp add: queued_def length_ops_of)

lemma room_iff: "ring_wf s \<Longrightarrow> length (queued s) < 256 \<longleftrightarrow> length (ring_bytes s) + 4 \<le> 1024"
  using ring_bytes_dvd [of s] by (simp add: length_queued) presburger

lemma putInBuf_room:
  assumes "ring_wf s" and "length (queued s) < 256"
  shows "\<exists>t. putInBuf d s = Some t \<and> ring_wf t \<and> queued t = queued s @ [d] \<and> same_machine s t"
proof -
  have le: "length (ring_bytes s) + length (op_bytes d) \<le> 1024"
    using assms by (simp add: room_iff)
  have "ring_ok s" using assms(1) by (simp add: ring_wf_def)
  from put_bytes_room [OF this le] show ?thesis
    using assms ring_full_iff [OF assms(1)] le ring_bytes_dvd [OF assms(1)]
    by (auto simp: putInBuf_def ring_wf_def queued_def ops_of_append four_dvd_mod)
qed

lemma putInBuf_full:
  "ring_wf s \<Longrightarrow> \<not> length (queued s) < 256 \<Longrightarrow> putInBuf d s = Some s"
  by (simp add: putInBuf_def ring_full_iff room_iff)

lemma getFromBuf_item:
  assumes "ring_wf s" and "queued s = d # ds"
  shows "\<exists>t. getFromBuf s = Some (d, t) \<and> ring_wf t \<and> queued t = ds \<and> same_machine s t"
proof -
  have "0 < length (queued s)" using assms(2) by simp
  then have le: "4 \<le> length (ring_bytes s)"
    using length_queued [OF assms(1)] by simp
  have "ring_ok s" using assms(1) by (simp add: ring_wf_def)
  from get_bytes_data [OF this le] show ?thesis
    using assms ops_of_take_drop [OF le]
    by (auto simp: getFromBuf_def sizeof_DataOperation_t_def ring_wf_def queued_def four_dvd_mod)
qed

definition has_queued :: "lcd_ring \<Rightarrow> bool" where
  "has_queued s \<longleftrightarrow> outPos s \<noteq> inPos s \<or> rollOver s"

lemma has_queued_iff: "ring_wf s \<Longrightarrow> has_queued s \<longleftrightarrow> queued s \<noteq> []"
proof -
  assume wf: "ring_wf s"
  have "queued s \<noteq> [] \<longleftrightarrow> 4 \<le> length (ring_bytes s)"
    using length_queued [OF wf] by (cases "queued s") auto
  also have "\<dots> \<longleftrightarrow> 0 < length (ring_bytes s)"
    using ring_bytes_dvd [OF wf] by presburger
  also have "\<dots> \<longleftrightarrow> has_queued s"
    using wf by (auto simp: has_queued_def ring_wf_def length_ring_bytes ring_ok_def
        word_unat_eq_iff)
  finally show ?thesis by simp
qed

interpretation lcd: bounded_fifo putInBuf getFromBuf has_queued queued ring_wf 256
proof
  show "\<exists>t. putInBuf x s = Some t \<and> ring_wf t \<and> queued t = queued s @ [x]"
    if "ring_wf s" "length (queued s) < 256" for s x
    using putInBuf_room [OF that] by blast
  show "\<exists>t. getFromBuf s = Some (x, t) \<and> ring_wf t \<and> queued t = xs"
    if "ring_wf s" "queued s = x # xs" for s x xs
    using getFromBuf_item [OF that] by blast
qed (simp_all add: putInBuf_full has_queued_iff)

subsection \<open>What reaches the display\<close>

definition x3_writes :: "u8 \<Rightarrow> u8 \<Rightarrow> (u16 \<times> u8) list" where
  "x3_writes d rs =
     [(X3_DISP_O_DAT, d), (X3_DISP_O_CMD, rs), (X3_DISP_O_CMD, rs OR DISPLAY_E), (X3_DISP_O_CMD, rs)]"

definition smartxx_writes :: "u8 \<Rightarrow> (u16 \<times> u8) list" where
  "smartxx_writes d =
     [(LCD_DATA, d), (LCD_DATA, d OR DISPLAY_E), (LCD_DATA, (d OR DISPLAY_E) XOR DISPLAY_E)]"

definition high_writes :: "bool \<Rightarrow> DataOperation_t \<Rightarrow> (u16 \<times> u8) list" where
  "high_writes isXecuter3 d =
     (if isXecuter3 then x3_writes (dataToWrite d AND 0xF0) (rsFlag d)
      else smartxx_writes (highNibble d))"

definition low_writes :: "bool \<Rightarrow> DataOperation_t \<Rightarrow> (u16 \<times> u8) list" where
  "low_writes isXecuter3 d =
     (if isXecuter3 then x3_writes (push_bit 4 (dataToWrite d)) (rsFlag d)
      else smartxx_writes (lowNibble d))"

definition op_writes :: "bool \<Rightarrow> DataOperation_t \<Rightarrow> (u16 \<times> u8) list" where
  "op_writes isXecuter3 d = high_writes isXecuter3 d @ low_writes isXecuter3 d"

definition pending_writes :: "bool \<Rightarrow> lcd_ring \<Rightarrow> (u16 \<times> u8) list" where
  "pending_writes isXecuter3 s =
     (case internalOp s of
        InternalOp_ReadyForNewOp \<Rightarrow> []
      | InternalOp_WriteHighNibble \<Rightarrow> op_writes isXecuter3 (currentOp s)
      | InternalOp_WriteLowNibble \<Rightarrow> low_writes isXecuter3 (currentOp s))
     @ concat (map (op_writes isXecuter3) (queued s))"

fun lcd_polls :: "bool \<Rightarrow> (u32 \<times> u32) list \<Rightarrow> lcd_ring \<Rightarrow> lcd_ring option" where
  "lcd_polls isXecuter3 [] s = Some s"
| "lcd_polls isXecuter3 ((now, after) # clocks) s =
     do { t \<leftarrow> updateLCDRingBuffer isXecuter3 now after s; lcd_polls isXecuter3 clocks t }"

definition poll_due :: "u32 \<Rightarrow> lcd_ring \<Rightarrow> bool" where
  "poll_due now s \<longleftrightarrow>
     getElapseMicroSecondsSince now (systickStartValue s) \<ge> ucast (delayInUs (currentOp s))"

fun polls_due :: "bool \<Rightarrow> (u32 \<times> u32) list \<Rightarrow> lcd_ring \<Rightarrow> bool" where
  "polls_due isXecuter3 [] s = True"
| "polls_due isXecuter3 ((now, after) # clocks) s =
     (poll_due now s \<and>
      (case updateLCDRingBuffer isXecuter3 now after s of
         None \<Rightarrow> True
       | Some t \<Rightarrow> polls_due isXecuter3 clocks t))"

text \<open>How many polls a state still needs when every poll finds its delay elapsed.\<close>

definition polls_left :: "lcd_ring \<Rightarrow> nat" where
  "polls_left s =
     (case internalOp s of
        InternalOp_ReadyForNewOp \<Rightarrow> 0
      | InternalOp_WriteHighNibble \<Rightarrow> 2
      | InternalOp_WriteLowNibble \<Rightarrow> 1) + 3 * length (queued s)"

lemmas lcd_write_defs =
  xecuter3LCDWrite_def smartXXLCDwrite_def WriteToIO_def x3_writes_def smartxx_writes_def
  high_writes_def low_writes_def op_writes_def Let_def

lemma ring_wf_frame [simp]:
  "ring_wf (s\<lparr>currentOp := d\<rparr>) = ring_wf s" "ring_wf (s\<lparr>internalOp := p\<rparr>) = ring_wf s"
  "ring_wf (s\<lparr>systickStartValue := c\<rparr>) = ring_wf s" "ring_wf (s\<lparr>io := w\<rparr>) = ring_wf s"
  by (simp_all add: ring_wf_def ring_ok_def)

lemma queued_frame [simp]:
  "queued (s\<lparr>currentOp := d\<rparr>) = queued s" "queued (s\<lparr>internalOp := p\<rparr>) = queued s"
  "queued (s\<lparr>systickStartValue := c\<rparr>) = queued s" "queued (s\<lparr>io := w\<rparr>) = queued s"
  by (simp_all add: queued_def ring_bytes_def)

lemma update_not_due: "\<not> poll_due now s \<Longrightarrow> updateLCDRingBuffer x3 now after s = Some s"
  by (simp add: updateLCDRingBuffer_def poll_due_def)

lemma update_idle:
  assumes "ring_wf s" "internalOp s = InternalOp_ReadyForNewOp" "queued s = []"
  shows "updateLCDRingBuffer x3 now after s = Some s"
  using assms has_queued_iff [OF assms(1)]
  by (simp add: updateLCDRingBuffer_def has_queued_def)

lemma update_fetch:
  assumes "ring_wf s" "internalOp s = InternalOp_ReadyForNewOp" "queued s = d # ds"
    and "poll_due now s"
  shows "\<exists>t. updateLCDRingBuffer x3 now after s = Some t \<and> ring_wf t \<and> queued t = ds \<and>
    internalOp t = InternalOp_WriteHighNibble \<and> currentOp t = d \<and> io t = io s"
  using getFromBuf_item [OF assms(1,3)] has_queued_iff [OF assms(1)] assms
  by (auto simp: updateLCDRingBuffer_def has_queued_def poll_due_def same_machine_def)

lemma update_nibble:
  assumes "ring_wf s" "internalOp s \<noteq> InternalOp_ReadyForNewOp" "poll_due now s"
  shows "\<exists>t. updateLCDRingBuffer x3 now after s = Some t \<and> ring_wf t \<and> queued t = queued s \<and>
    currentOp t = currentOp s \<and> systickStartValue t = after \<and>
    (if internalOp s = InternalOp_WriteHighNibble
     then internalOp t = InternalOp_WriteLowNibble \<and> io t = io s @ high_writes x3 (currentOp s)
     else internalOp t = InternalOp_ReadyForNewOp \<and> io t = io s @ low_writes x3 (currentOp s))"
  using assms
  by (cases "internalOp s")
     (auto simp: updateLCDRingBuffer_def poll_due_def lcd_write_defs)

lemma update_step:
  assumes "ring_wf s"
  shows "\<exists>t. updateLCDRingBuffer x3 now after s = Some t \<and> ring_wf t \<and>
    io t @ pending_writes x3 t = io s @ pending_writes x3 s \<and>
    (poll_due now s \<longrightarrow> polls_left t = polls_left s - 1)"
proof (cases "poll_due now s")
  case False
  then show ?thesis using assms by (simp add: update_not_due)
next
  case due: True
  show ?thesis
  proof (cases "internalOp s = InternalOp_ReadyForNewOp")
    case False
    then show ?thesis
      using update_nibble [OF assms False due, of x3 after]
      by (cases "internalOp s") (auto simp: pending_writes_def op_writes_def polls_left_def)
  next
    case True
    show ?thesis
    proof (cases "queued s")
      case Nil
      then show ?thesis
        using update_idle [OF assms True Nil] assms True by (simp add: polls_left_def)
    next
      case (Cons d ds)
      then show ?thesis
        using update_fetch [OF assms True Cons due, of x3 after] True
        by (auto simp: pending_writes_def polls_left_def)
    qed
  qed
qed

lemma lcd_polls_run:
  "ring_wf s \<Longrightarrow>
   \<exists>t. lcd_polls x3 clocks s = Some t \<and> ring_wf t \<and>
       io t @ pending_writes x3 t = io s @ pending_writes x3 s \<and>
       (polls_due x3 clocks s \<longrightarrow> polls_left t = polls_left s - length clocks)"
proof (induction clocks arbitrary: s)
  case Nil
  then show ?case by simp
next
  case (Cons c clocks)
  obtain now after where c: "c = (now, after)" by (cases c)
  obtain r where r: "updateLCDRingBuffer x3 now after s = Some r" "ring_wf r"
      "io r @ pending_writes x3 r = io s @ pending_writes x3 s"
      "poll_due now s \<longrightarrow> polls_left r = polls_left s - 1"
    using update_step [OF Cons.prems] by blast
  then show ?case using Cons.IH [of r] c by auto
qed

lemma polls_left_0: "polls_left s = 0 \<longleftrightarrow>
    internalOp s = InternalOp_ReadyForNewOp \<and> queued s = []"
  by (auto simp: polls_left_def split: InternalOp.splits)

lemma pending_writes_idle: "polls_left s = 0 \<Longrightarrow> pending_writes x3 s = []"
  by (simp add: polls_left_0 pending_writes_def)

text \<open>The data nibble a display wired as on SmartXX devices (0,b6,b7,b4,b5,E,RS,0) latches.\<close>

definition wire_nibble :: "u8 \<Rightarrow> u8" where
  "wire_nibble w = (drop_bit 2 w AND 0xA) OR (drop_bit 4 w AND 0x5)"

definition lcd_power_on :: lcd_ring where
  "lcd_power_on = LCDRingBufferInit
     \<lparr>ringBuf = replicate 1024 0, inPos = 0, outPos = 0, rollOver = False,
      internalOp = InternalOp_ReadyForNewOp,
      currentOp = \<lparr>dataToWrite = 0, rsFlag = 0, delayInUs = 0\<rparr>, systickStartValue = 0,
      io = []\<rparr>"

lemma ring_wf_power_on: "ring_wf lcd_power_on"
  by (simp add: lcd_power_on_def LCDRingBufferInit_def ring_wf_def ring_ok_def)

lemma queued_power_on: "queued lcd_power_on = []"
  by (simp add: lcd_power_on_def LCDRingBufferInit_def queued_def ring_bytes_def)

definition lcd_one_queued :: lcd_ring where
  "lcd_one_queued = lcd_power_on
     \<lparr>ringBuf := op_bytes \<lparr>dataToWrite = 0x41, rsFlag = 2, delayInUs = 40\<rparr> @ replicate 1020 0,
      inPos := 4\<rparr>"

lemma ring_wf_one_queued: "ring_wf lcd_one_queued"
  by (simp add: lcd_one_queued_def lcd_power_on_def LCDRingBufferInit_def ring_wf_def ring_ok_def)

lemma queued_one_queued:
  "queued lcd_one_queued = [\<lparr>dataToWrite = 0x41, rsFlag = 2, delayInUs = 40\<rparr>]"
  by (simp add: lcd_one_queued_def lcd_power_on_def LCDRingBufferInit_def queued_def ring_bytes_def)

subsection \<open>Properties\<close>

text \<open>C17: the byte ring, its wrap-around flag and its overflow test implement a bounded queue of
  256 LCD operations: for every sequence of puts and gets, starting in any well-formed ring,
  no access leaves the ring's memory, an operation is dropped exactly when 256 are queued, and
  the operations come out in the order in which they were accepted.\<close>

theorem lcd_ring_refines_fifo:
  assumes "ring_wf s"
  shows "\<exists>t. fifo_drive putInBuf getFromBuf has_queued cs s =
               Some (fst (fifo_spec 256 cs (queued s)), t) \<and>
             ring_wf t \<and> queued t = snd (fifo_spec 256 cs (queued s))"
  using assms by (rule lcd.drive_simulates)

theorem lcd_ring_refines_fifo_witness:
  "ring_wf lcd_power_on \<and>
   (\<exists>t. fifo_drive putInBuf getFromBuf has_queued
          [Put \<lparr>dataToWrite = 0x41, rsFlag = 2, delayInUs = 40\<rparr>, Get] lcd_power_on =
          Some ([\<lparr>dataToWrite = 0x41, rsFlag = 2, delayInUs = 40\<rparr>], t))"
  using lcd_ring_refines_fifo [OF ring_wf_power_on,
      of "[Put \<lparr>dataToWrite = 0x41, rsFlag = 2, delayInUs = 40\<rparr>, Get]"]
  by (auto simp: queued_power_on ring_wf_power_on)

text \<open>C18: polling never loses, repeats or reorders a port write: whatever the clock shows at each
  poll, the writes made so far followed by the writes still owed (the rest of the current
  operation, then both nibbles of every queued one) stay the same sequence.\<close>

theorem lcd_polls_lossless:
  assumes "ring_wf s"
  shows "\<exists>t. lcd_polls isXecuter3 clocks s = Some t \<and> ring_wf t \<and>
             io t @ pending_writes isXecuter3 t = io s @ pending_writes isXecuter3 s"
  using lcd_polls_run [OF assms, of isXecuter3 clocks] by blast

theorem lcd_polls_lossless_witness:
  "ring_wf lcd_power_on \<and> (\<exists>t. lcd_polls False [(5, 6)] lcd_power_on = Some t \<and> ring_wf t)"
  using lcd_polls_lossless [OF ring_wf_power_on, of False "[(5, 6)]"] ring_wf_power_on by blast

text \<open>C19: when every poll finds the delay of the current operation elapsed, three polls per queued
  operation (and what the current one still needs) empty the ring, and the display has then
  received exactly the writes that were owed at the start.\<close>

theorem lcd_polls_drain:
  assumes "ring_wf s" and "polls_due isXecuter3 clocks s" and "polls_left s \<le> length clocks"
  shows "\<exists>t. lcd_polls isXecuter3 clocks s = Some t \<and> queued t = [] \<and>
             internalOp t = InternalOp_ReadyForNewOp \<and> io t = io s @ pending_writes isXecuter3 s"
proof -
  obtain t where t: "lcd_polls isXecuter3 clocks s = Some t"
      "io t @ pending_writes isXecuter3 t = io s @ pending_writes isXecuter3 s"
      "polls_left t = 0"
    using lcd_polls_run [OF assms(1), of isXecuter3 clocks] assms(2,3) by auto
  then show ?thesis using pending_writes_idle [of t] by (auto simp: polls_left_0)
qed

theorem lcd_polls_drain_witness:
  "ring_wf lcd_one_queued \<and> polls_due False [(0, 1), (50, 51), (100, 101)] lcd_one_queued \<and>
   polls_left lcd_one_queued = 3 \<and>
   (\<exists>t. lcd_polls False [(0, 1), (50, 51), (100, 101)] lcd_one_queued = Some t \<and>
        queued t = [] \<and> io t = io lcd_one_queued @ pending_writes False lcd_one_queued)"
proof -
  have due: "polls_due False [(0, 1), (50, 51), (100, 101)] lcd_one_queued" by code_simp
  have left: "polls_left lcd_one_queued = 3"
    unfolding polls_left_def queued_one_queued
    by (simp add: lcd_one_queued_def lcd_power_on_def LCDRingBufferInit_def)
  show ?thesis
    using lcd_polls_drain [OF ring_wf_one_queued due] ring_wf_one_queued due left by auto
qed

text \<open>The bit shuffling of highNibble and lowNibble is lossless: with a register-select flag
  that stays off the data lines, the two nibbles the display latches make up the byte that was
  queued, and the flag itself reaches its line in both halves.\<close>

lemma smartxx_nibbles_roundtrip:
  assumes "rsFlag d AND 0x78 = 0"
  shows "push_bit 4 (wire_nibble (highNibble d)) OR wire_nibble (lowNibble d) = dataToWrite d \<and>
         highNibble d AND 0x07 = rsFlag d AND 0x07 \<and> lowNibble d AND 0x07 = rsFlag d AND 0x07"
proof -
  have "\<not> bit (rsFlag d AND 0x78) n" for n using assms by simp
  from this [of 3] this [of 4] this [of 5] this [of 6]
  have rs: "\<not> bit (rsFlag d) 3" "\<not> bit (rsFlag d) 4" "\<not> bit (rsFlag d) 5" "\<not> bit (rsFlag d) 6"
    by (simp_all add: bit_simps)
  show ?thesis
    by (intro conjI u8_eqI)
       (simp_all add: rs bit_simps wire_nibble_def highNibble_def lowNibble_def)
qed

lemma smartxx_nibbles_roundtrip_witness:
  "rsFlag \<lparr>dataToWrite = 0x5C, rsFlag = 2, delayInUs = 40\<rparr> AND 0x78 = 0 \<and>
   push_bit 4 (wire_nibble (highNibble \<lparr>dataToWrite = 0x5C, rsFlag = 2, delayInUs = 40\<rparr>)) OR
     wire_nibble (lowNibble \<lparr>dataToWrite = 0x5C, rsFlag = 2, delayInUs = 40\<rparr>) = 0x5C"
  using smartxx_nibbles_roundtrip [of "\<lparr>dataToWrite = 0x5C, rsFlag = 2, delayInUs = 40\<rparr>"]
  by simp

end
