(* ===== verification/FlashLowLevel.thy ===== *)
theory FlashLowLevel
  imports FlashTypes "HOL-Library.Monad_Syntax"
begin

text \<open>
  drivers/flash/FlashLowLevel.c: the command sequences of the 28xxx (Intel/Sharp) and 29xxx
  (JEDEC) flash families over memory-mapped I/O. The chip behind the bus is hardware, so it is
  a parameter: its state has the type variable \<^verbatim>\<open>'c\<close>, and \<^verbatim>\<open>lpc_bus\<close> says what a bus read and
  a bus write do to it. The microsecond waits have no effect on the state.
\<close>

record 'c lpc_bus =
  bus_read :: "'c \<Rightarrow> u32 \<Rightarrow> u8 \<times> 'c"
  bus_write :: "'c \<Rightarrow> u32 \<Rightarrow> u8 \<Rightarrow> 'c"

record 'c flash_ll =
  is28xxxProtocol :: bool
  firstBusyRead :: bool
  lastStatusRegisterState :: u8
  flashDevice :: OBJECT_FLASH
  chip :: 'c

definition LPCFlashadress :: u32 where
  "LPCFlashadress = 0xFF000000"

definition mmio_read :: "'c lpc_bus \<Rightarrow> u32 \<Rightarrow> 'c flash_ll \<Rightarrow> u8 \<times> 'c flash_ll" where
  "mmio_read bus addr s =
    (let (v, c) = bus_read bus (chip s) (m_pbMemoryMappedStartAddress (flashDevice s) + addr)
     in (v, s\<lparr>chip := c\<rparr>))"

definition mmio_write :: "'c lpc_bus \<Rightarrow> u32 \<Rightarrow> u8 \<Rightarrow> 'c flash_ll \<Rightarrow> 'c flash_ll" where
  "mmio_write bus addr v s =
    s\<lparr>chip := bus_write bus (chip s) (m_pbMemoryMappedStartAddress (flashDevice s) + addr) v\<rparr>"

definition FlashLowLevel_ReadByte :: "'c lpc_bus \<Rightarrow> u32 \<Rightarrow> 'c flash_ll \<Rightarrow> u8 \<times> 'c flash_ll" where
  "FlashLowLevel_ReadByte bus addr s = mmio_read bus addr s"

definition zeroed_flash :: OBJECT_FLASH where
  "zeroed_flash =
    \<lparr>m_pbMemoryMappedStartAddress = 0, flashType = known_flash 0 0 [] 0 0,
     m_szAdditionalErrorInfo = [], m_fIsBelievedCapableOfWriteAndErase = False\<rparr>"

definition FlashLowLevel_Init :: "'c flash_ll \<Rightarrow> 'c flash_ll" where
  "FlashLowLevel_Init s =
    s\<lparr>is28xxxProtocol := False,
      flashDevice := zeroed_flash\<lparr>m_pbMemoryMappedStartAddress := LPCFlashadress\<rparr>\<rparr>"

subsection \<open>Busy polling\<close>

definition hex_digit :: "nat \<Rightarrow> char" where
  "hex_digit n = (if n < 10 then char_of (48 + n) else char_of (55 + n))"

definition hex2 :: "u8 \<Rightarrow> string" where
  "hex2 b = [hex_digit (unat b div 16), hex_digit (unat b mod 16)]"

definition DeviceIsBusy_28xxx :: "'c lpc_bus \<Rightarrow> 'c flash_ll \<Rightarrow> bool \<times> 'c flash_ll" where
  "DeviceIsBusy_28xxx bus s =
    (let (status, s1) = mmio_read bus 0 s;
         s2 = s1\<lparr>lastStatusRegisterState := status\<rparr>
     in if status AND 0x80 \<noteq> 0 then (True, s2)
        else let s3 = mmio_write bus 0x5555 0xff (mmio_write bus 0x5555 0x50 s2)
             in if status AND 0x7e \<noteq> 0
                then (False, s3\<lparr>flashDevice := (flashDevice s3)
                       \<lparr>m_fIsBelievedCapableOfWriteAndErase := False,
                        m_szAdditionalErrorInfo :=
                          (if status AND 0x08 \<noteq> 0
                           then ''This chip requires +5V on pin 11 (Vpp).''
                           else ''Chip Status after Erase: 0x'' @ hex2 status)\<rparr>\<rparr>)
                else (False, s3))"

definition DeviceIsBusy_29xxx :: "'c lpc_bus \<Rightarrow> 'c flash_ll \<Rightarrow> bool \<times> 'c flash_ll" where
  "DeviceIsBusy_29xxx bus s =
    (let oldStatusByteValue = lastStatusRegisterState s;
         (status, s1) = mmio_read bus 0 s;
         s2 = s1\<lparr>lastStatusRegisterState := status\<rparr>
     in if firstBusyRead s \<or> oldStatusByteValue AND 0x40 \<noteq> status AND 0x40
        then (True, s2\<lparr>firstBusyRead := False\<rparr>)
        else (False, s2\<lparr>firstBusyRead := True\<rparr>))"

definition FlashLowLevel_DeviceIsBusy :: "'c lpc_bus \<Rightarrow> 'c flash_ll \<Rightarrow> bool \<times> 'c flash_ll" where
  "FlashLowLevel_DeviceIsBusy bus s =
    (if is28xxxProtocol s then DeviceIsBusy_28xxx bus s else DeviceIsBusy_29xxx bus s)"

subsection \<open>Identification\<close>

definition ResetFlashICStateMachine_28xxx :: "'c lpc_bus \<Rightarrow> 'c flash_ll \<Rightarrow> 'c flash_ll" where
  "ResetFlashICStateMachine_28xxx bus s = mmio_write bus 0x5555 0xff s"

definition ResetFlashICStateMachine_29xxx :: "'c lpc_bus \<Rightarrow> 'c flash_ll \<Rightarrow> 'c flash_ll" where
  "ResetFlashICStateMachine_29xxx bus s =
    mmio_write bus 0x5555 0xf0 (mmio_write bus 0x2aaa 0x55 (mmio_write bus 0x5555 0xaa s))"

definition ResetFlashICStateMachine :: "'c lpc_bus \<Rightarrow> 'c flash_ll \<Rightarrow> 'c flash_ll" where
  "ResetFlashICStateMachine bus s =
    (if is28xxxProtocol s then ResetFlashICStateMachine_28xxx bus s
     else ResetFlashICStateMachine_29xxx bus s)"

definition ReadDeviceID_28xxx :: "'c lpc_bus \<Rightarrow> 'c flash_ll \<Rightarrow> (u8 \<times> u8) \<times> 'c flash_ll" where
  "ReadDeviceID_28xxx bus s =
    (let s1 = mmio_write bus 0x5555 0x90 s;
         (man, s2) = FlashLowLevel_ReadByte bus 0 s1;
         s3 = mmio_write bus 0x5555 0x90 s2;
         (dev, s4) = FlashLowLevel_ReadByte bus 1 s3
     in ((man, dev), s4))"

definition ReadDeviceID_29xxx :: "'c lpc_bus \<Rightarrow> 'c flash_ll \<Rightarrow> (u8 \<times> u8) \<times> 'c flash_ll" where
  "ReadDeviceID_29xxx bus s =
    (let s1 = mmio_write bus 0x5555 0x90
                (mmio_write bus 0x2aaa 0x55 (mmio_write bus 0x5555 0xaa s));
         (man, s2) = FlashLowLevel_ReadByte bus 0 s1;
         (dev, s3) = FlashLowLevel_ReadByte bus 1 s2
     in ((man, dev), mmio_write bus 0x5555 0xf0 s3))"

definition ReadDeviceIDBytes :: "'c lpc_bus \<Rightarrow> 'c flash_ll \<Rightarrow> (u8 \<times> u8) \<times> 'c flash_ll" where
  "ReadDeviceIDBytes bus s =
    (if is28xxxProtocol s then ReadDeviceID_28xxx bus s else ReadDeviceID_29xxx bus s)"

text \<open>The loop that prints one lock bit per 64 KB block. The first argument bounds the number of
  rounds; \<^verbatim>\<open>None\<close> stands for not returning.\<close>

fun block_locks ::
  "nat \<Rightarrow> 'c lpc_bus \<Rightarrow> u32 \<Rightarrow> 'c flash_ll \<Rightarrow> (string \<times> 'c flash_ll) option" where
  "block_locks 0 bus n s = None"
| "block_locks (Suc fuel) bus n s =
    (if n < m_dwLengthInBytes (flashType (flashDevice s))
     then let s1 = mmio_write bus 0x5555 0x90 s;
              (lock, s2) = FlashLowLevel_ReadByte bus (n OR 0x0002) s1
          in do {
            (digits, s3) \<leftarrow> block_locks fuel bus (n + 0x10000) s2;
            Some ((if lock AND 1 = 0 then CHR ''0'' else CHR ''1'') # digits, s3)
          }
     else Some ([], s))"

definition MatchDevice :: "'c lpc_bus \<Rightarrow> u8 \<Rightarrow> u8 \<Rightarrow> 'c flash_ll \<Rightarrow> (bool \<times> 'c flash_ll) option" where
  "MatchDevice bus man dev s =
    do {
      found \<leftarrow> flash_search aknownflashtypesDefault man dev;
      case found of
        None \<Rightarrow> Some (False, s)
      | Some t \<Rightarrow>
          let s1 = s\<lparr>flashDevice := (flashDevice s)\<lparr>flashType := t, m_szAdditionalErrorInfo := [],
                      m_fIsBelievedCapableOfWriteAndErase := True\<rparr>\<rparr>
          in if is28xxxProtocol s1
             then let (masterLock, s2) =
                        FlashLowLevel_ReadByte bus 3 (mmio_write bus 0x5555 0x90 s1)
                  in if masterLock \<noteq> 0
                     then do {
                       (digits, s3) \<leftarrow> block_locks 0x10000 bus 0
                         (s2\<lparr>flashDevice :=
                           (flashDevice s2)\<lparr>m_fIsBelievedCapableOfWriteAndErase := False\<rparr>\<rparr>);
                       Some (True, mmio_write bus 0x5555 0x50
                         (s3\<lparr>flashDevice := (flashDevice s3)\<lparr>m_szAdditionalErrorInfo :=
                            ''Master Lock SET  Block(64KB) Locks: '' @ digits\<rparr>\<rparr>))
                     }
                     else Some (True, s2)
             else Some (True, s1)
    }"

text \<open>One round of the loop of \<^verbatim>\<open>FlashLowLevel_ReadDevice\<close>; the loop runs at most twice.\<close>

definition ReadDevice_round :: "'c lpc_bus \<Rightarrow> 'c flash_ll \<Rightarrow> (bool \<times> 'c flash_ll) option" where
  "ReadDevice_round bus s =
    (let ((man, dev), s1) = ReadDeviceIDBytes bus (ResetFlashICStateMachine bus s)
     in MatchDevice bus man dev s1)"

definition FlashLowLevel_ReadDevice :: "'c lpc_bus \<Rightarrow> 'c flash_ll \<Rightarrow> (bool \<times> 'c flash_ll) option" where
  "FlashLowLevel_ReadDevice bus s =
    do {
      (found, s1) \<leftarrow> ReadDevice_round bus (s\<lparr>firstBusyRead := True\<rparr>);
      if found then Some (True, s1)
      else ReadDevice_round bus (s1\<lparr>is28xxxProtocol := \<not> is28xxxProtocol s1\<rparr>)
    }"

subsection \<open>Programming and erasing\<close>

definition WriteBytes_28xxx :: "'c lpc_bus \<Rightarrow> u8 \<Rightarrow> u32 \<Rightarrow> 'c flash_ll \<Rightarrow> 'c flash_ll" where
  "WriteBytes_28xxx bus byte addr s = mmio_write bus addr byte (mmio_write bus 0x5555 0x40 s)"

definition WriteBytes_29xxx :: "'c lpc_bus \<Rightarrow> u8 \<Rightarrow> u32 \<Rightarrow> 'c flash_ll \<Rightarrow> 'c flash_ll" where
  "WriteBytes_29xxx bus byte addr s =
    mmio_write bus addr byte (mmio_write bus 0x5555 0xa0
      (mmio_write bus 0x2aaa 0x55 (mmio_write bus 0x5555 0xaa s)))"

definition FlashLowLevel_WriteByte :: "'c lpc_bus \<Rightarrow> u8 \<Rightarrow> u32 \<Rightarrow> 'c flash_ll \<Rightarrow> 'c flash_ll" where
  "FlashLowLevel_WriteByte bus byte addr s =
    (if is28xxxProtocol s then WriteBytes_28xxx bus byte addr s
     else WriteBytes_29xxx bus byte addr s)"

definition CommonEraseSequence_29xxx :: "'c lpc_bus \<Rightarrow> 'c flash_ll \<Rightarrow> 'c flash_ll" where
  "CommonEraseSequence_29xxx bus s =
    mmio_write bus 0x2aaa 0x55 (mmio_write bus 0x5555 0xaa
      (mmio_write bus 0x5555 0x80 (mmio_write bus 0x2aaa 0x55 (mmio_write bus 0x5555 0xaa s))))"

definition SectorErase_28xxx :: "'c lpc_bus \<Rightarrow> u32 \<Rightarrow> 'c flash_ll \<Rightarrow> 'c flash_ll" where
  "SectorErase_28xxx bus addr s =
    mmio_write bus addr 0xd0 (mmio_write bus addr 0x20 (mmio_write bus 0x5555 0x50 s))"

definition SectorErase_29xxx :: "'c lpc_bus \<Rightarrow> u32 \<Rightarrow> 'c flash_ll \<Rightarrow> 'c flash_ll" where
  "SectorErase_29xxx bus addr s = mmio_write bus addr 0x30 (CommonEraseSequence_29xxx bus s)"

definition FlashLowLevel_InititiateSectorErase ::
  "'c lpc_bus \<Rightarrow> u32 \<Rightarrow> 'c flash_ll \<Rightarrow> 'c flash_ll" where
  "FlashLowLevel_InititiateSectorErase bus addr s =
    (if is28xxxProtocol s then SectorErase_28xxx bus addr s else SectorErase_29xxx bus addr s)"

definition BlockErase_29xxx :: "'c lpc_bus \<Rightarrow> u32 \<Rightarrow> 'c flash_ll \<Rightarrow> 'c flash_ll" where
  "BlockErase_29xxx bus addr s = mmio_write bus addr 0x50 (CommonEraseSequence_29xxx bus s)"

definition FlashLowLevel_InititiateBlockErase ::
  "'c lpc_bus \<Rightarrow> u32 \<Rightarrow> 'c flash_ll \<Rightarrow> 'c flash_ll" where
  "FlashLowLevel_InititiateBlockErase bus addr s =
    (if is28xxxProtocol s then s else BlockErase_29xxx bus addr s)"

definition ChipErase_29xxx :: "'c lpc_bus \<Rightarrow> 'c flash_ll \<Rightarrow> 'c flash_ll" where
  "ChipErase_29xxx bus s = mmio_write bus 0x5555 0x10 (CommonEraseSequence_29xxx bus s)"

definition FlashLowLevel_InititiateChipErase :: "'c lpc_bus \<Rightarrow> 'c flash_ll \<Rightarrow> 'c flash_ll" where
  "FlashLowLevel_InititiateChipErase bus s =
    (if is28xxxProtocol s then s else ChipErase_29xxx bus s)"

subsection \<open>Identification returns\<close>

lemma mmio_read_device [simp]: "flashDevice (snd (mmio_read bus a s)) = flashDevice s"
  by (simp add: mmio_read_def split_beta Let_def)

lemma mmio_write_device [simp]: "flashDevice (mmio_write bus a v s) = flashDevice s"
  by (simp add: mmio_write_def)

lemma block_locks_returns:
  assumes "m_dwLengthInBytes (flashType (flashDevice s)) \<le> 0xFFFF0000"
    and "unat (m_dwLengthInBytes (flashType (flashDevice s))) \<le> unat n + (fuel - 1) * 0x10000"
    and "0 < fuel"
  shows "\<exists>r. block_locks fuel bus n s = Some r"
  using assms
proof (induction fuel arbitrary: n s)
  case (Suc fuel)
  show ?case
  proof (cases "n < m_dwLengthInBytes (flashType (flashDevice s))")
    case True
    let ?s = "snd (FlashLowLevel_ReadByte bus (n OR 0x0002) (mmio_write bus 0x5555 0x90 s))"
    have dev: "flashDevice ?s = flashDevice s" by (simp add: FlashLowLevel_ReadByte_def)
    have n: "unat n < unat (m_dwLengthInBytes (flashType (flashDevice s)))"
      using True by (simp add: word_less_nat_alt)
    have le: "unat (m_dwLengthInBytes (flashType (flashDevice s))) \<le> 0xFFFF0000"
      using Suc.prems(1) by (simp add: word_le_nat_alt)
    have add: "unat (n + 0x10000) = unat n + 0x10000"
      using n le by (simp add: unat_word_ariths)
    obtain k where k: "fuel = Suc k" using Suc.prems(2) n by (cases fuel) auto
    have "\<exists>r. block_locks fuel bus (n + 0x10000) ?s = Some r"
      using Suc.prems add k by (intro Suc.IH) (simp_all add: dev)
    then show ?thesis using True by (auto simp: Let_def split_beta)
  qed simp
qed simp

lemma block_locks_device:
  "block_locks fuel bus n s = Some (d, s') \<Longrightarrow> flashDevice s' = flashDevice s"
proof (induction fuel arbitrary: n s d s')
  case (Suc fuel)
  then show ?case
    by (auto simp: Let_def split_beta FlashLowLevel_ReadByte_def bind_eq_Some_conv
        split: if_splits)
qed simp

lemma ReadByte_device [simp]: "flashDevice (snd (FlashLowLevel_ReadByte bus a s)) = flashDevice s"
  by (simp add: FlashLowLevel_ReadByte_def)

lemma real_chip_length:
  "real_chip t \<Longrightarrow> m_dwLengthInBytes t \<le> 0x100000 \<and> 0x40000 \<le> m_dwLengthInBytes t"
  by (auto simp: real_chip_def)

lemma mmio_protocol [simp]:
  "is28xxxProtocol (snd (mmio_read bus a s)) = is28xxxProtocol s"
  "is28xxxProtocol (mmio_write bus a v s) = is28xxxProtocol s"
  "is28xxxProtocol (snd (FlashLowLevel_ReadByte bus a s)) = is28xxxProtocol s"
  by (simp_all add: mmio_read_def mmio_write_def FlashLowLevel_ReadByte_def split_beta Let_def)

lemma block_locks_protocol:
  "block_locks fuel bus n s = Some (d, s') \<Longrightarrow> is28xxxProtocol s' = is28xxxProtocol s"
proof (induction fuel arbitrary: n s d s')
  case (Suc fuel)
  then show ?case by (auto simp: Let_def split_beta bind_eq_Some_conv split: if_splits)
qed simp

text \<open>The device record and the protocol after a match of two identifiers: the chip they name, or what was
  there before.\<close>

definition identified :: "KNOWN_FLASH_TYPE option \<Rightarrow> 'c flash_ll \<Rightarrow> bool \<Rightarrow> 'c flash_ll \<Rightarrow> bool" where
  "identified entry s found s' \<longleftrightarrow> is28xxxProtocol s' = is28xxxProtocol s \<and>
     m_pbMemoryMappedStartAddress (flashDevice s') = m_pbMemoryMappedStartAddress (flashDevice s) \<and>
     (case entry of Some t \<Rightarrow> found \<and> flashType (flashDevice s') = t
      | None \<Rightarrow> \<not> found \<and> flashDevice s' = flashDevice s)"

lemma MatchDevice_returns:
  "\<exists>found s'. MatchDevice bus man dev s = Some (found, s') \<and> identified (chip_for (man, dev)) s found s' \<and>
     (if found then True else s' = s)"
proof (cases "chip_for (man, dev)")
  case None
  then show ?thesis by (auto simp: MatchDevice_def flash_search_chip_for identified_def)
next
  case (Some t)
  let ?s1 = "s\<lparr>flashDevice := (flashDevice s)\<lparr>flashType := t, m_szAdditionalErrorInfo := [],
               m_fIsBelievedCapableOfWriteAndErase := True\<rparr>\<rparr>"
  let ?s2 = "snd (FlashLowLevel_ReadByte bus 3 (mmio_write bus 0x5555 0x90 ?s1))"
  let ?s2' = "?s2\<lparr>flashDevice :=
                (flashDevice ?s2)\<lparr>m_fIsBelievedCapableOfWriteAndErase := False\<rparr>\<rparr>"
  have "m_dwLengthInBytes t \<le> 0x100000" using real_chip_length chip_for_known(3) [OF Some] by blast
  then have "\<exists>r. block_locks 0x10000 bus 0 ?s2' = Some r"
    by (intro block_locks_returns) (simp_all add: word_le_nat_alt)
  then obtain d s3 where b: "block_locks 0x10000 bus 0 ?s2' = Some (d, s3)" by auto
  then have "flashDevice s3 = flashDevice ?s2'" "is28xxxProtocol s3 = is28xxxProtocol ?s2'"
    using block_locks_device block_locks_protocol by blast+
  then show ?thesis
    using Some b by (auto simp: MatchDevice_def flash_search_chip_for identified_def Let_def split_beta)
qed

lemma ReadDevice_ids_keep:
  "flashDevice (snd (ReadDeviceIDBytes bus (ResetFlashICStateMachine bus s))) = flashDevice s"
  "is28xxxProtocol (snd (ReadDeviceIDBytes bus (ResetFlashICStateMachine bus s))) = is28xxxProtocol s"
  by (simp_all add: ReadDeviceIDBytes_def ReadDeviceID_28xxx_def ReadDeviceID_29xxx_def
      ResetFlashICStateMachine_def ResetFlashICStateMachine_28xxx_def
      ResetFlashICStateMachine_29xxx_def Let_def split_beta)

lemma ReadDevice_round_returns:
  assumes "ReadDeviceIDBytes bus (ResetFlashICStateMachine bus s) = (ids, s1)"
  shows "\<exists>found s'. ReadDevice_round bus s = Some (found, s') \<and> identified (chip_for ids) s found s' \<and>
    (if found then True else s' = s1)"
proof -
  have "ReadDevice_round bus s = MatchDevice bus (fst ids) (snd ids) s1"
    by (simp add: ReadDevice_round_def assms split_beta)
  moreover have "flashDevice s1 = flashDevice s" "is28xxxProtocol s1 = is28xxxProtocol s"
    using ReadDevice_ids_keep [of bus s] by (simp_all add: assms)
  moreover obtain found s' where "MatchDevice bus (fst ids) (snd ids) s1 = Some (found, s')"
    "identified (chip_for ids) s1 found s'" "if found then True else s' = s1"
    using MatchDevice_returns [of bus "fst ids" "snd ids" s1] unfolding prod.collapse by blast
  ultimately have "ReadDevice_round bus s = Some (found, s') \<and> identified (chip_for ids) s found s' \<and>
    (if found then True else s' = s1)" by (simp add: identified_def split: option.splits)
  then show ?thesis by blast
qed

text \<open>C7: Whatever chip answers on the bus, identification returns. The chip is asked for its two identifiers in
  the current protocol; if the table has no chip with both of them it is asked once more in the other
  protocol. If one of the two answers is in the table, a device is reported: the record then holds the first
  entry of the table with exactly those identifiers, which is a chip of 256 KB to 1 MB, and the protocol is the
  one it answered in. Otherwise no device is reported and the record is untouched. The
  memory-mapped base address is kept either way.\<close>

theorem ReadDevice_identifies:
  "let (ids1, s1) = ReadDeviceIDBytes bus (ResetFlashICStateMachine bus (s\<lparr>firstBusyRead := True\<rparr>));
       other = s1\<lparr>is28xxxProtocol := \<not> is28xxxProtocol s\<rparr>;
       ids2 = fst (ReadDeviceIDBytes bus (ResetFlashICStateMachine bus other))
   in \<exists>found s'. FlashLowLevel_ReadDevice bus s = Some (found, s') \<and>
     m_pbMemoryMappedStartAddress (flashDevice s') = m_pbMemoryMappedStartAddress (flashDevice s) \<and>
     found = (chip_for ids1 \<noteq> None \<or> chip_for ids2 \<noteq> None) \<and>
     (let t = flashType (flashDevice s'); ids = (if chip_for ids1 \<noteq> None then ids1 else ids2)
      in if found
         then chip_for ids = Some t \<and> (m_bManufacturerId t, m_bDeviceId t) = ids \<and> t \<in> set aknownflashtypesDefault \<and>
           real_chip t \<and> is28xxxProtocol s' = (is28xxxProtocol s = (chip_for ids1 \<noteq> None))
         else flashDevice s' = flashDevice s)"
proof -
  let ?s = "s\<lparr>firstBusyRead := True\<rparr>"
  obtain ids1 s1 where r1: "ReadDeviceIDBytes bus (ResetFlashICStateMachine bus ?s) = (ids1, s1)" by fastforce
  have p1: "is28xxxProtocol s1 = is28xxxProtocol s" "flashDevice s1 = flashDevice s"
    using ReadDevice_ids_keep [of bus ?s] by (simp_all add: r1)
  define other where "other = s1\<lparr>is28xxxProtocol := \<not> is28xxxProtocol s\<rparr>"
  obtain ids2 s2 where r2: "ReadDeviceIDBytes bus (ResetFlashICStateMachine bus other) = (ids2, s2)" by fastforce
  obtain f sa where a: "ReadDevice_round bus ?s = Some (f, sa)" "identified (chip_for ids1) ?s f sa" "if f then True else sa = s1"
    using ReadDevice_round_returns [OF r1] by blast
  obtain g sb where b: "ReadDevice_round bus other = Some (g, sb)" "identified (chip_for ids2) other g sb"
    using ReadDevice_round_returns [OF r2] by blast
  have run: "FlashLowLevel_ReadDevice bus s = (if f then Some (True, sa) else Some (g, sb))"
    using a(1,3) b(1) p1(1) by (simp add: FlashLowLevel_ReadDevice_def other_def)
  have o: "flashDevice other = flashDevice s" "is28xxxProtocol other = (\<not> is28xxxProtocol s)"
    using p1 by (simp_all add: other_def)
  show ?thesis
  proof (cases "chip_for ids1")
    case (Some t)
    then show ?thesis using run a(2) chip_for_known [OF Some] by (auto simp: r1 identified_def Let_def)
  next
    case None
    then have "\<not> f" using a(2) by (simp add: identified_def)
    then show ?thesis using None run b(2) chip_for_known [of ids2] o
      by (cases "chip_for ids2") (auto simp: r1 r2 other_def [symmetric] identified_def Let_def)
  qed
qed

text \<open>A bus on which every command is ignored and a chip answers with its two identifiers.\<close>

definition answering_bus :: "unit lpc_bus" where
  "answering_bus = \<lparr>bus_read = (\<lambda>c a. (if a = LPCFlashadress then 0xbf else 0x5b, c)), bus_write = (\<lambda>c a v. c)\<rparr>"

definition fresh_ll :: "unit flash_ll" where
  "fresh_ll = FlashLowLevel_Init
    \<lparr>is28xxxProtocol = False, firstBusyRead = False, lastStatusRegisterState = 0, flashDevice = zeroed_flash, chip = ()\<rparr>"

lemma answering_ids: "\<exists>s1. ReadDeviceIDBytes answering_bus (ResetFlashICStateMachine answering_bus (fresh_ll\<lparr>firstBusyRead := True\<rparr>)) = ((0xbf, 0x5b), s1)"
  by (simp add: ReadDeviceIDBytes_def ReadDeviceID_29xxx_def ResetFlashICStateMachine_def ResetFlashICStateMachine_29xxx_def
      FlashLowLevel_ReadByte_def mmio_read_def mmio_write_def answering_bus_def fresh_ll_def FlashLowLevel_Init_def Let_def)

lemma answering_chip: "chip_for (0xbf, 0x5b) = Some (known_flash 0xbf 0x5b ''SST_49LF080A'' 0x100000 1)"
  by code_simp

theorem ReadDevice_identifies_witness:
  "\<exists>s'. FlashLowLevel_ReadDevice answering_bus fresh_ll = Some (True, s') \<and>
     flashType (flashDevice s') = known_flash 0xbf 0x5b ''SST_49LF080A'' 0x100000 1 \<and> \<not> is28xxxProtocol s'"
proof -
  obtain s1 where s1: "ReadDeviceIDBytes answering_bus (ResetFlashICStateMachine answering_bus (fresh_ll\<lparr>firstBusyRead := True\<rparr>)) =
      ((0xbf, 0x5b), s1)" using answering_ids by blast
  have "\<not> is28xxxProtocol fresh_ll" by (simp add: fresh_ll_def FlashLowLevel_Init_def)
  then show ?thesis
    using ReadDevice_identifies [of answering_bus fresh_ll] by (auto simp: s1 answering_chip Let_def)
qed

end
