(* ===== verification/HardwareIdentifier.thy ===== *)
theory HardwareIdentifier
  imports Xblast_Prelude
begin

text \<open>
  xblast/HardwareIdentifier.c (the predicates on the detected modchip) and the register side of
  lib/LPCMod/BootLPCMod.c (flash bank selection and the general-purpose I/O register). The
  globals of both files are the record \<^verbatim>\<open>lpc_hw\<close>; port writes are appended to its trace
  \<^verbatim>\<open>lpc_io\<close>, and the value of a port read is an argument. The detection itself, a sequence of port and flash
  probes, is not modelled.
\<close>

datatype XboxMotherboardRevision =
    XboxMotherboardRevision_DEVKIT | XboxMotherboardRevision_DEBUGKIT
  | XboxMotherboardRevision_1_0 | XboxMotherboardRevision_1_1 | XboxMotherboardRevision_1_2
  | XboxMotherboardRevision_1_4 | XboxMotherboardRevision_1_6 | XboxMotherboardRevision_UNKNOWN

datatype video_encoder_kind = ENCODER_CONEXANT | ENCODER_FOCUS | ENCODER_XCALIBUR

definition SYSCON_ID_V1 :: u16 where "SYSCON_ID_V1 = 0x15"
definition SYSCON_ID_V1_PRE_EDITION :: u16 where "SYSCON_ID_V1_PRE_EDITION = 0x55"
definition SYSCON_ID_V1_TSOP :: u16 where "SYSCON_ID_V1_TSOP = 0x1015"
definition SYSCON_ID_XT :: u16 where "SYSCON_ID_XT = 0x11"
definition SYSCON_ID_XT_TSOP :: u16 where "SYSCON_ID_XT_TSOP = 0x1011"
definition SYSCON_ID_XX1 :: u16 where "SYSCON_ID_XX1 = 0xF1"
definition SYSCON_ID_XX2 :: u16 where "SYSCON_ID_XX2 = 0xF2"
definition SYSCON_ID_XXOPX :: u16 where "SYSCON_ID_XXOPX = 0xF5"
definition SYSCON_ID_XX3 :: u16 where "SYSCON_ID_XX3 = 0xF8"
definition SYSCON_ID_X3 :: u16 where "SYSCON_ID_X3 = 0x2A"
definition SYSCON_ID_UNKNOWN :: u16 where "SYSCON_ID_UNKNOWN = 0x00"

text \<open>The enumeration \<^verbatim>\<open>FlashBank\<close> by its register values, since the code casts it to and from
  bytes.\<close>

type_synonym FlashBank = u8

definition FlashBank_OSBank :: FlashBank where "FlashBank_OSBank = 0x87"
definition FlashBank_512Bank :: FlashBank where "FlashBank_512Bank = 0x84"
definition FlashBank_256Bank :: FlashBank where "FlashBank_256Bank = 0x86"
definition FlashBank_FullTSOPBank :: FlashBank where "FlashBank_FullTSOPBank = 0x00"
definition FlashBank_SplitTSOP0Bank :: FlashBank where "FlashBank_SplitTSOP0Bank = 0x10"
definition FlashBank_SplitTSOP1Bank :: FlashBank where "FlashBank_SplitTSOP1Bank = 0x18"
definition FlashBank_NoBank :: FlashBank where "FlashBank_NoBank = 0xFF"

lemmas flash_bank_defs =
  FlashBank_OSBank_def FlashBank_512Bank_def FlashBank_256Bank_def FlashBank_FullTSOPBank_def
  FlashBank_SplitTSOP0Bank_def FlashBank_SplitTSOP1Bank_def FlashBank_NoBank_def

definition BOOTFROMTSOP :: u8 where "BOOTFROMTSOP = 0x50"
definition KILL_MOD :: u8 where "KILL_MOD = 0x20"
definition RELEASED0 :: u8 where "RELEASED0 = 0x00"
definition XBLAST_IO :: u16 where "XBLAST_IO = 0xF70D"
definition XBLAST_CONTROL :: u16 where "XBLAST_CONTROL = 0xF70F"
definition XODUS_CONTROL :: u16 where "XODUS_CONTROL = 0x00FF"

record GenPurposeIOs =
  GPO3 :: bool
  GPO2 :: bool
  GPO1 :: bool
  GPO0 :: bool
  GPI1 :: bool
  GPI0 :: bool
  A19BufEn :: bool
  EN_5V :: bool

record lpc_hw =
  fHasHardware :: u16
  fSpecialEdition :: u8
  cpuSpeed :: u16
  mbVersion :: XboxMotherboardRevision
  video_encoder :: video_encoder_kind
  xromwell :: bool
  currentFlashBank :: FlashBank
  xF70ELPCRegister :: u8
  A19controlModBoot :: u8
  TSOPRecoveryMode :: bool
  gpio :: GenPurposeIOs
  lpc_io :: "(u16 \<times> u8) list"

subsection \<open>Predicates on the detected hardware\<close>

definition isXBlastOnTSOP :: "lpc_hw \<Rightarrow> bool" where
  "isXBlastOnTSOP hw \<longleftrightarrow> fHasHardware hw = SYSCON_ID_V1_TSOP \<or> fHasHardware hw = SYSCON_ID_XT_TSOP"

definition isXBlastOnLPC :: "lpc_hw \<Rightarrow> bool" where
  "isXBlastOnLPC hw \<longleftrightarrow> fHasHardware hw = SYSCON_ID_V1 \<or> fHasHardware hw = SYSCON_ID_XT"

definition isXBlastCompatible :: "lpc_hw \<Rightarrow> bool" where
  "isXBlastCompatible hw \<longleftrightarrow> isXBlastOnLPC hw \<or> isXBlastOnTSOP hw"

definition isPureXBlast :: "lpc_hw \<Rightarrow> bool" where
  "isPureXBlast hw \<longleftrightarrow> fHasHardware hw = SYSCON_ID_V1 \<or> fHasHardware hw = SYSCON_ID_V1_TSOP"

definition isLCDSupported :: "lpc_hw \<Rightarrow> bool" where
  "isLCDSupported hw \<longleftrightarrow> isPureXBlast hw \<or> fHasHardware hw = SYSCON_ID_XX1 \<or>
     fHasHardware hw = SYSCON_ID_XX2 \<or> fHasHardware hw = SYSCON_ID_XXOPX \<or>
     fHasHardware hw = SYSCON_ID_XX3 \<or> fHasHardware hw = SYSCON_ID_X3"

definition isXecuter3 :: "lpc_hw \<Rightarrow> bool" where
  "isXecuter3 hw \<longleftrightarrow> fHasHardware hw = SYSCON_ID_X3"

definition isXBE :: "lpc_hw \<Rightarrow> bool" where
  "isXBE hw \<longleftrightarrow> xromwell hw"

definition isLCDContrastSupport :: "lpc_hw \<Rightarrow> bool" where
  "isLCDContrastSupport hw \<longleftrightarrow>
     isLCDSupported hw \<and> \<not> isXecuter3 hw \<and> fHasHardware hw \<noteq> SYSCON_ID_XXOPX"

definition isFrostySupport :: "lpc_hw \<Rightarrow> bool" where
  "isFrostySupport hw \<longleftrightarrow> video_encoder hw = ENCODER_CONEXANT"

definition getModchipName :: "lpc_hw \<Rightarrow> string" where
  "getModchipName hw =
    (if fHasHardware hw = SYSCON_ID_V1_TSOP \<or> fHasHardware hw = SYSCON_ID_V1 then
       (if ucast (fSpecialEdition hw) = SYSCON_ID_V1_PRE_EDITION
        then ''XBlast Lite V1 Pre-Edition'' else ''XBlast Lite V1'')
     else if fHasHardware hw = SYSCON_ID_XT_TSOP \<or> fHasHardware hw = SYSCON_ID_XT
       then ''Aladdin XBlast''
     else if fHasHardware hw = SYSCON_ID_XX1 \<or> fHasHardware hw = SYSCON_ID_XX2
       then ''SmartXX V1/V2''
     else if fHasHardware hw = SYSCON_ID_XXOPX then ''SmartXX LT OPX''
     else if fHasHardware hw = SYSCON_ID_XX3 then ''SmartXX V3''
     else if fHasHardware hw = SYSCON_ID_X3 then ''Xecuter 3''
     else ''Unsupported modchip'')"

definition getCPUSPeedInMHz :: "lpc_hw \<Rightarrow> u16" where
  "getCPUSPeedInMHz hw = cpuSpeed hw"

definition getMotherboardRevision :: "lpc_hw \<Rightarrow> XboxMotherboardRevision" where
  "getMotherboardRevision hw = mbVersion hw"

fun xbox_mb_rev :: "XboxMotherboardRevision \<Rightarrow> string" where
  "xbox_mb_rev XboxMotherboardRevision_DEVKIT = ''DevKit''"
| "xbox_mb_rev XboxMotherboardRevision_DEBUGKIT = ''DebugKit''"
| "xbox_mb_rev XboxMotherboardRevision_1_0 = ''1.0''"
| "xbox_mb_rev XboxMotherboardRevision_1_1 = ''1.1''"
| "xbox_mb_rev XboxMotherboardRevision_1_2 = ''1.2/1.3''"
| "xbox_mb_rev XboxMotherboardRevision_1_4 = ''1.4/1.5''"
| "xbox_mb_rev XboxMotherboardRevision_1_6 = ''1.6/1.6b''"
| "xbox_mb_rev XboxMotherboardRevision_UNKNOWN = ''Unknown''"

definition getMotherboardRevisionString :: "lpc_hw \<Rightarrow> string" where
  "getMotherboardRevisionString hw = xbox_mb_rev (getMotherboardRevision hw)"

text \<open>The argument says whether the build defines DEV_FEATURES or CUSTOM_TSOP.\<close>

definition isTSOPSplitCapable :: "bool \<Rightarrow> lpc_hw \<Rightarrow> bool" where
  "isTSOPSplitCapable custom_build hw \<longleftrightarrow>
    (if custom_build then isPureXBlast hw
     else isPureXBlast hw \<and> (mbVersion hw = XboxMotherboardRevision_1_1 \<or>
                             mbVersion hw = XboxMotherboardRevision_1_0))"

subsection \<open>Ports, banks and general-purpose I/O\<close>

definition lpc_out :: "u16 \<Rightarrow> u8 \<Rightarrow> lpc_hw \<Rightarrow> lpc_hw" where
  "lpc_out port data hw = hw\<lparr>lpc_io := lpc_io hw @ [(port, data)]\<rparr>"

definition switchOSBank :: "FlashBank \<Rightarrow> lpc_hw \<Rightarrow> lpc_hw" where
  "switchOSBank bank hw =
    (if isXBlastOnLPC hw
     then lpc_out XBLAST_CONTROL bank (hw\<lparr>currentFlashBank := bank, xF70ELPCRegister := bank\<rparr>)
     else hw)"

definition switchBootBank :: "FlashBank \<Rightarrow> lpc_hw \<Rightarrow> lpc_hw" where
  "switchBootBank bank hw =
    (if isXBlastCompatible hw
     then lpc_out XBLAST_CONTROL
            (if BOOTFROMTSOP < bank then bank OR A19controlModBoot hw else bank) hw
     else hw)"

text \<open>The bank selection of \<^verbatim>\<open>quickboot\<close>; the reboot that follows it is not modelled.\<close>

definition quickboot_bank :: "u8 \<Rightarrow> lpc_hw \<Rightarrow> lpc_hw" where
  "quickboot_bank bank hw =
    (if BOOTFROMTSOP < bank then switchBootBank bank hw
     else if getMotherboardRevision hw = XboxMotherboardRevision_1_6 \<or>
             getMotherboardRevision hw = XboxMotherboardRevision_UNKNOWN
     then switchBootBank KILL_MOD hw
     else switchBootBank bank hw)"

definition has_xblast_io :: "lpc_hw \<Rightarrow> bool" where
  "has_xblast_io hw \<longleftrightarrow> fHasHardware hw = SYSCON_ID_V1 \<or> fHasHardware hw = SYSCON_ID_V1_TSOP"

definition gpio_of_byte :: "u8 \<Rightarrow> GenPurposeIOs" where
  "gpio_of_byte temp =
    \<lparr>GPO3 = (temp AND 0x80 \<noteq> 0), GPO2 = (temp AND 0x40 \<noteq> 0), GPO1 = (temp AND 0x20 \<noteq> 0),
     GPO0 = (temp AND 0x10 \<noteq> 0), GPI1 = (temp AND 0x08 \<noteq> 0), GPI0 = (temp AND 0x04 \<noteq> 0),
     A19BufEn = (temp AND 0x02 \<noteq> 0), EN_5V = (temp AND 0x01 \<noteq> 0)\<rparr>"

text \<open>\<^verbatim>\<open>xio\<close> is what the register XBLAST_IO reads as; \<^verbatim>\<open>None\<close> is the NULL pointer, for which the
  global structure is filled.\<close>

definition LPCMod_ReadIO ::
  "u8 \<Rightarrow> GenPurposeIOs option \<Rightarrow> lpc_hw \<Rightarrow> GenPurposeIOs option \<times> lpc_hw" where
  "LPCMod_ReadIO xio GPIOstruct hw =
    (let temp = (if has_xblast_io hw then xio else 0)
     in case GPIOstruct of
          None \<Rightarrow> (None, hw\<lparr>gpio := gpio_of_byte temp\<rparr>)
        | Some _ \<Rightarrow> (Some (gpio_of_byte temp), hw))"

definition bool_byte :: "bool \<Rightarrow> u8" where
  "bool_byte b = (if b then 1 else 0)"

definition LPCMod_WriteGenPurposeIOs :: "lpc_hw \<Rightarrow> lpc_hw" where
  "LPCMod_WriteGenPurposeIOs hw =
    lpc_out XBLAST_IO
      (push_bit 7 (bool_byte (GPO3 (gpio hw))) OR push_bit 6 (bool_byte (GPO2 (gpio hw))) OR
       push_bit 5 (bool_byte (GPO1 (gpio hw))) OR push_bit 4 (bool_byte (GPO0 (gpio hw))) OR
       bool_byte (EN_5V (gpio hw))) hw"

definition LPCMod_WriteIO :: "u8 \<Rightarrow> u8 \<Rightarrow> u8 \<Rightarrow> lpc_hw \<Rightarrow> lpc_hw" where
  "LPCMod_WriteIO xio port val hw =
    (let temp = (if has_xblast_io hw then xio else 0)
     in LPCMod_WriteGenPurposeIOs (hw\<lparr>gpio :=
       \<lparr>GPO3 = (if port AND 0x08 \<noteq> 0 then val AND 0x08 \<noteq> 0 else temp AND 0x80 \<noteq> 0),
        GPO2 = (if port AND 0x04 \<noteq> 0 then val AND 0x04 \<noteq> 0 else temp AND 0x40 \<noteq> 0),
        GPO1 = (if port AND 0x02 \<noteq> 0 then val AND 0x02 \<noteq> 0 else temp AND 0x20 \<noteq> 0),
        GPO0 = (if port AND 0x01 \<noteq> 0 then val AND 0x01 \<noteq> 0 else temp AND 0x10 \<noteq> 0),
        GPI1 = (temp AND 0x08 \<noteq> 0), GPI0 = (temp AND 0x04 \<noteq> 0),
        A19BufEn = (temp AND 0x02 \<noteq> 0), EN_5V = (temp AND 0x01 \<noteq> 0)\<rparr>\<rparr>))"

definition LPCMod_FastWriteIO :: "u8 \<Rightarrow> u8 \<Rightarrow> lpc_hw \<Rightarrow> lpc_hw" where
  "LPCMod_FastWriteIO port val hw =
    (let g = gpio hw
     in LPCMod_WriteGenPurposeIOs (hw\<lparr>gpio := g\<lparr>
        GPO3 := (if port AND 0x08 \<noteq> 0 then val AND 0x08 \<noteq> 0 else GPO3 g),
        GPO2 := (if port AND 0x04 \<noteq> 0 then val AND 0x04 \<noteq> 0 else GPO2 g),
        GPO1 := (if port AND 0x02 \<noteq> 0 then val AND 0x02 \<noteq> 0 else GPO1 g),
        GPO0 := (if port AND 0x01 \<noteq> 0 then val AND 0x01 \<noteq> 0 else GPO0 g)\<rparr>\<rparr>))"

subsection \<open>Properties\<close>

lemma bit_bool_byte: "bit (bool_byte b) n \<longleftrightarrow> b \<and> n = 0"
  by (simp add: bool_byte_def bit_1_iff)

lemma gpio_write_byte:
  "push_bit 7 (bool_byte a) OR push_bit 6 (bool_byte b) OR push_bit 5 (bool_byte c) OR
     push_bit 4 (bool_byte d) OR bool_byte e = w"
  if "bit w 7 = a" "bit w 6 = b" "bit w 5 = c" "bit w 4 = d" "bit w 0 = e"
     "\<not> bit w (Suc 0)" "\<not> bit w 2" "\<not> bit w 3"
  by (rule u8_eqI) (simp_all add: bit_simps bit_bool_byte that)

text \<open>\<^verbatim>\<open>LPCMod_WriteIO\<close> is a masked read-modify-write of the output register: the byte it
  writes has the bits of \<^verbatim>\<open>val\<close> where \<^verbatim>\<open>port\<close> selects an output, the bits just read from the
  register for the other outputs and for the 5V enable, and zero elsewhere; and the version that
  works from the cached structure does exactly the same after the cache has been read.\<close>

lemma LPCMod_WriteIO_masked:
  assumes "has_xblast_io hw"
  shows "lpc_io (LPCMod_WriteIO xio port val hw) = lpc_io hw @ [(XBLAST_IO,
           (xio AND 0xF0 AND NOT (push_bit 4 port)) OR push_bit 4 (val AND port) OR
           (xio AND 0x01))] \<and>
         LPCMod_FastWriteIO port val (snd (LPCMod_ReadIO xio None hw)) =
           LPCMod_WriteIO xio port val hw"
proof
  show "lpc_io (LPCMod_WriteIO xio port val hw) = lpc_io hw @ [(XBLAST_IO,
           (xio AND 0xF0 AND NOT (push_bit 4 port)) OR push_bit 4 (val AND port) OR
           (xio AND 0x01))]"
    using assms
    by (simp add: LPCMod_WriteIO_def LPCMod_WriteGenPurposeIOs_def lpc_out_def Let_def
        and_bit_eq_0_u8 gpio_write_byte bit_simps)
  show "LPCMod_FastWriteIO port val (snd (LPCMod_ReadIO xio None hw)) =
           LPCMod_WriteIO xio port val hw"
    using assms
    by (simp add: LPCMod_WriteIO_def LPCMod_FastWriteIO_def LPCMod_ReadIO_def Let_def
        gpio_of_byte_def)
qed

definition lpc_hw_v1 :: lpc_hw where
  "lpc_hw_v1 = \<lparr>fHasHardware = SYSCON_ID_V1, fSpecialEdition = 0, cpuSpeed = 733,
     mbVersion = XboxMotherboardRevision_1_0, video_encoder = ENCODER_CONEXANT, xromwell = False,
     currentFlashBank = FlashBank_OSBank, xF70ELPCRegister = 0x87, A19controlModBoot = 0,
     TSOPRecoveryMode = False, gpio = gpio_of_byte 0, lpc_io = []\<rparr>"

lemma LPCMod_WriteIO_masked_witness:
  "has_xblast_io lpc_hw_v1 \<and>
   lpc_io (LPCMod_WriteIO 0xA5 0x0C 0x04 lpc_hw_v1) = [(XBLAST_IO, 0x61)]"
proof -
  have "has_xblast_io lpc_hw_v1" by code_simp
  then show ?thesis
    using LPCMod_WriteIO_masked [of lpc_hw_v1 "0xA5" "0x0C" "0x04"]
    by (simp add: lpc_hw_v1_def)
qed

end
