(* ===== verification/XblastSettings.thy ===== *)
theory XblastSettings
  imports HardwareIdentifier "HOL-Library.Monad_Syntax"
begin

text \<open>
  xblast/settings: the settings structure kept in flash (XBlastSettingsDefs_V1.h), its packed
  layout of 3840 bytes, and xblastSettings.c (defaults and the names of banks, LED colours and
  display types). Character arrays are byte lists of the declared length; the backup of the
  console EEPROM is its 256 bytes. The lemmas show that the packed layout loses nothing and
  that the defaults are a well-formed structure.
\<close>

record OSsettings_t =
  activeBank :: u8
  altBank :: u8
  Quickboot :: u8
  selectedMenuItem :: u8
  fanSpeed :: u8
  bootTimeout :: u8
  LEDColor :: u8
  TSOPcontrol :: u8
  TSOPhide :: u8
  runBankScript :: u8
  runBootScript :: u8
  enableVGA :: u8
  backgroundColorPreset :: u8
  biosName512Bank :: "u8 list"
  biosName256Bank :: "u8 list"
  biosNameTSOPFullSplit0 :: "u8 list"
  biosNameTSOPSplit1 :: "u8 list"
  enableNetwork :: u8
  useDHCP :: u8
  staticIP :: "u8 list"
  staticGateway :: "u8 list"
  staticMask :: "u8 list"
  staticDNS1 :: "u8 list"
  staticDNS2 :: "u8 list"
  os_reserved :: "u8 list"

record LCDsettings_t =
  enable5V :: u8
  lcdType :: u8
  nbLines :: u8
  lineLength :: u8
  backlight :: u8
  contrast :: u8
  displayMsgBoot :: u8
  customTextBoot :: u8
  displayBIOSNameBoot :: u8
  customString0 :: "u8 list"
  customString1 :: "u8 list"
  customString2 :: "u8 list"
  customString3 :: "u8 list"
  lcd_reserved :: "u8 list"

record LPCmodSettings_t =
  settingsVersion :: u8
  OSsettings :: OSsettings_t
  LCDsettings :: LCDsettings_t
  bakeeprom :: "u8 list"
  scriptSize :: u16
  scriptData :: "u8 list"
  crc32Value :: u32

definition CurrentSettingsVersionNumber :: u8 where
  "CurrentSettingsVersionNumber = 1"

text \<open>A text field has 20 characters plus \<^verbatim>\<open>sizeof('\0')\<close>, which is the size of an int in C.\<close>

definition text_field_size :: nat where
  "text_field_size = 20 + 4"

definition sizeof_OSsettings :: nat where
  "sizeof_OSsettings = 13 + 4 * text_field_size + 2 + 5 * 4 + 137"

definition sizeof_LCDsettings :: nat where
  "sizeof_LCDsettings = 9 + 4 * text_field_size + 163"

definition sizeof_EEPROMDATA :: nat where
  "sizeof_EEPROMDATA = 256"

definition ScriptSavedInFlashMaxSizeInBytes :: nat where
  "ScriptSavedInFlashMaxSizeInBytes =
    4 * 1024 - 0x100 - 1 - sizeof_OSsettings - sizeof_LCDsettings - sizeof_EEPROMDATA - 2 - 4"

definition sizeof_LPCmodSettings :: nat where
  "sizeof_LPCmodSettings = 1 + sizeof_OSsettings + sizeof_LCDsettings + sizeof_EEPROMDATA +
     (2 + ScriptSavedInFlashMaxSizeInBytes) + 4"

lemmas settings_size_defs =
  text_field_size_def sizeof_OSsettings_def sizeof_LCDsettings_def sizeof_EEPROMDATA_def
  ScriptSavedInFlashMaxSizeInBytes_def sizeof_LPCmodSettings_def

definition os_wf :: "OSsettings_t \<Rightarrow> bool" where
  "os_wf s \<longleftrightarrow>
     length (biosName512Bank s) = 24 \<and> length (biosName256Bank s) = 24 \<and>
     length (biosNameTSOPFullSplit0 s) = 24 \<and> length (biosNameTSOPSplit1 s) = 24 \<and>
     length (staticIP s) = 4 \<and> length (staticGateway s) = 4 \<and> length (staticMask s) = 4 \<and>
     length (staticDNS1 s) = 4 \<and> length (staticDNS2 s) = 4 \<and> length (os_reserved s) = 137"

definition lcd_wf :: "LCDsettings_t \<Rightarrow> bool" where
  "lcd_wf s \<longleftrightarrow>
     length (customString0 s) = 24 \<and> length (customString1 s) = 24 \<and>
     length (customString2 s) = 24 \<and> length (customString3 s) = 24 \<and>
     length (lcd_reserved s) = 163"

definition settings_wf :: "LPCmodSettings_t \<Rightarrow> bool" where
  "settings_wf s \<longleftrightarrow> os_wf (OSsettings s) \<and> lcd_wf (LCDsettings s) \<and>
     length (bakeeprom s) = 256 \<and> length (scriptData s) = ScriptSavedInFlashMaxSizeInBytes"

subsection \<open>The packed layout\<close>

definition os_bytes :: "OSsettings_t \<Rightarrow> u8 list" where
  "os_bytes s =
    [activeBank s, altBank s, Quickboot s, selectedMenuItem s, fanSpeed s, bootTimeout s,
     LEDColor s, TSOPcontrol s, TSOPhide s, runBankScript s, runBootScript s, enableVGA s,
     backgroundColorPreset s] @
    biosName512Bank s @ biosName256Bank s @ biosNameTSOPFullSplit0 s @ biosNameTSOPSplit1 s @
    [enableNetwork s, useDHCP s] @
    staticIP s @ staticGateway s @ staticMask s @ staticDNS1 s @ staticDNS2 s @ os_reserved s"

definition lcd_bytes :: "LCDsettings_t \<Rightarrow> u8 list" where
  "lcd_bytes s =
    [enable5V s, lcdType s, nbLines s, lineLength s, backlight s, contrast s, displayMsgBoot s,
     customTextBoot s, displayBIOSNameBoot s] @
    customString0 s @ customString1 s @ customString2 s @ customString3 s @ lcd_reserved s"

definition settings_body :: "LPCmodSettings_t \<Rightarrow> u8 list" where
  "settings_body s =
    settingsVersion s # os_bytes (OSsettings s) @ lcd_bytes (LCDsettings s) @ bakeeprom s @
    u16_bytes (scriptSize s) @ scriptData s"

definition settings_bytes :: "LPCmodSettings_t \<Rightarrow> u8 list" where
  "settings_bytes s = settings_body s @ u32_bytes (crc32Value s)"

definition bytes_os :: "u8 list \<Rightarrow> OSsettings_t" where
  "bytes_os bs =
    \<lparr>activeBank = bs ! 0, altBank = bs ! 1, Quickboot = bs ! 2, selectedMenuItem = bs ! 3,
     fanSpeed = bs ! 4, bootTimeout = bs ! 5, LEDColor = bs ! 6, TSOPcontrol = bs ! 7,
     TSOPhide = bs ! 8, runBankScript = bs ! 9, runBootScript = bs ! 10, enableVGA = bs ! 11,
     backgroundColorPreset = bs ! 12,
     biosName512Bank = chunk 13 24 bs, biosName256Bank = chunk 37 24 bs,
     biosNameTSOPFullSplit0 = chunk 61 24 bs, biosNameTSOPSplit1 = chunk 85 24 bs,
     enableNetwork = bs ! 109, useDHCP = bs ! 110,
     staticIP = chunk 111 4 bs, staticGateway = chunk 115 4 bs, staticMask = chunk 119 4 bs,
     staticDNS1 = chunk 123 4 bs, staticDNS2 = chunk 127 4 bs, os_reserved = chunk 131 137 bs\<rparr>"

definition bytes_lcd :: "u8 list \<Rightarrow> LCDsettings_t" where
  "bytes_lcd bs =
    \<lparr>enable5V = bs ! 0, lcdType = bs ! 1, nbLines = bs ! 2, lineLength = bs ! 3,
     backlight = bs ! 4, contrast = bs ! 5, displayMsgBoot = bs ! 6, customTextBoot = bs ! 7,
     displayBIOSNameBoot = bs ! 8,
     customString0 = chunk 9 24 bs, customString1 = chunk 33 24 bs, customString2 = chunk 57 24 bs,
     customString3 = chunk 81 24 bs, lcd_reserved = chunk 105 163 bs\<rparr>"

definition bytes_settings :: "u8 list \<Rightarrow> LPCmodSettings_t" where
  "bytes_settings bs =
    \<lparr>settingsVersion = bs ! 0, OSsettings = bytes_os (chunk 1 268 bs),
     LCDsettings = bytes_lcd (chunk 269 268 bs), bakeeprom = chunk 537 256 bs,
     scriptSize = bytes_u16 (bs ! 793) (bs ! 794), scriptData = chunk 795 3041 bs,
     crc32Value = bytes_u32 (chunk 3836 4 bs)\<rparr>"

lemma length_os_bytes: "os_wf s \<Longrightarrow> length (os_bytes s) = 268"
  by (simp add: os_wf_def os_bytes_def)

lemma length_lcd_bytes: "lcd_wf s \<Longrightarrow> length (lcd_bytes s) = 268"
  by (simp add: lcd_wf_def lcd_bytes_def)

lemma length_settings_body: "settings_wf s \<Longrightarrow> length (settings_body s) = 3836"
  by (simp add: settings_wf_def settings_body_def length_os_bytes length_lcd_bytes
      settings_size_defs)

lemma length_settings_bytes: "settings_wf s \<Longrightarrow> length (settings_bytes s) = 3840"
  by (simp add: settings_bytes_def length_settings_body)

lemma bytes_os_of_os_bytes: "os_wf s \<Longrightarrow> bytes_os (os_bytes s) = s"
  by (cases s) (simp add: os_wf_def os_bytes_def bytes_os_def chunk_def nth_append)

lemma bytes_lcd_of_lcd_bytes: "lcd_wf s \<Longrightarrow> bytes_lcd (lcd_bytes s) = s"
  by (cases s) (simp add: lcd_wf_def lcd_bytes_def bytes_lcd_def chunk_def nth_append)

lemma bytes_settings_of_settings_bytes:
  "settings_wf s \<Longrightarrow> bytes_settings (settings_bytes s) = s"
proof -
  assume wf: "settings_wf s"
  then have os: "os_wf (OSsettings s)" and lcd: "lcd_wf (LCDsettings s)"
    by (simp_all add: settings_wf_def)
  define o8 l8 where "o8 = os_bytes (OSsettings s)" and "l8 = lcd_bytes (LCDsettings s)"
  have len: "length o8 = 268" "length l8 = 268" "length (bakeeprom s) = 256"
      "length (scriptData s) = 3041"
    using wf os lcd by (simp_all add: o8_def l8_def length_os_bytes length_lcd_bytes
        settings_wf_def settings_size_defs)
  have bs: "settings_bytes s = settingsVersion s # o8 @ l8 @ bakeeprom s @
      [ucast (scriptSize s), ucast (drop_bit 8 (scriptSize s))] @ scriptData s @
      u32_bytes (crc32Value s)"
    by (simp add: settings_bytes_def settings_body_def o8_def l8_def u16_bytes_def)
  have "bytes_os (chunk 1 268 (settings_bytes s)) = OSsettings s"
    by (simp add: bs chunk_layout len) (simp add: o8_def bytes_os_of_os_bytes os)
  moreover have "bytes_lcd (chunk 269 268 (settings_bytes s)) = LCDsettings s"
    by (simp add: bs chunk_layout len) (simp add: l8_def bytes_lcd_of_lcd_bytes lcd)
  moreover have "chunk 537 256 (settings_bytes s) = bakeeprom s"
      "chunk 795 3041 (settings_bytes s) = scriptData s"
      "chunk 3836 4 (settings_bytes s) = u32_bytes (crc32Value s)"
    by (simp_all add: bs chunk_layout len)
  moreover have "settings_bytes s ! 793 = ucast (scriptSize s)"
      "settings_bytes s ! 794 = ucast (drop_bit 8 (scriptSize s))"
    by (simp_all add: bs nth_append len)
  moreover have "settings_bytes s ! 0 = settingsVersion s" by (simp add: bs)
  ultimately show ?thesis
    by (intro LPCmodSettings_t.equality) (simp_all add: bytes_settings_def)
qed

subsection \<open>Defaults\<close>

definition settings_ff :: LPCmodSettings_t where
  "settings_ff = bytes_settings (replicate sizeof_LPCmodSettings 0xFF)"

text \<open>The loop that clears the first 21 bytes of each text field.\<close>

definition clear_text :: "u8 list \<Rightarrow> u8 list" where
  "clear_text f = replicate 21 0 @ drop 21 f"

text \<open>\<^verbatim>\<open>vga\<close> says whether the build defines DEFAULT_ENABLE_VGA.\<close>

definition default_os :: "bool \<Rightarrow> lpc_hw \<Rightarrow> OSsettings_t \<Rightarrow> OSsettings_t" where
  "default_os vga hw s = s
    \<lparr>activeBank := (if isXBlastCompatible hw then FlashBank_512Bank else FlashBank_NoBank),
     altBank := FlashBank_OSBank, Quickboot := 0, selectedMenuItem := FlashBank_512Bank,
     fanSpeed := 20, bootTimeout := 0, LEDColor := 1, TSOPcontrol := 0, TSOPhide := 0,
     runBankScript := 0, runBootScript := 0, enableVGA := (if vga then 1 else 0),
     backgroundColorPreset :=
       (if ucast (fSpecialEdition hw) = SYSCON_ID_V1_PRE_EDITION then 1 else 0),
     enableNetwork := 1, useDHCP := 1,
     staticIP := [192, 168, 0, 250], staticGateway := [192, 168, 0, 1],
     staticMask := [255, 255, 255, 0], staticDNS1 := [192, 168, 0, 1],
     staticDNS2 := [192, 168, 0, 1],
     biosName512Bank := clear_text (biosName512Bank s),
     biosName256Bank := clear_text (biosName256Bank s),
     biosNameTSOPFullSplit0 := clear_text (biosNameTSOPFullSplit0 s),
     biosNameTSOPSplit1 := clear_text (biosNameTSOPSplit1 s)\<rparr>"

definition default_lcd :: "LCDsettings_t \<Rightarrow> LCDsettings_t" where
  "default_lcd s = s
    \<lparr>enable5V := 0, lcdType := 0, nbLines := 4, lineLength := 20, backlight := 50, contrast := 20,
     displayMsgBoot := 0, customTextBoot := 0, displayBIOSNameBoot := 0,
     customString0 := clear_text (customString0 s), customString1 := clear_text (customString1 s),
     customString2 := clear_text (customString2 s), customString3 := clear_text (customString3 s)\<rparr>"

definition populateSettingsStructWithDefault :: "bool \<Rightarrow> lpc_hw \<Rightarrow> LPCmodSettings_t" where
  "populateSettingsStructWithDefault vga hw =
    settings_ff\<lparr>settingsVersion := CurrentSettingsVersionNumber,
      OSsettings := default_os vga hw (OSsettings settings_ff),
      LCDsettings := default_lcd (LCDsettings settings_ff), scriptSize := 0\<rparr>"

text \<open>\<^verbatim>\<open>pressed\<close> says whether both triggers and the X and Y keys are held.\<close>

definition emergencyRecoverSettings ::
  "bool \<Rightarrow> bool \<Rightarrow> lpc_hw \<Rightarrow> LPCmodSettings_t \<Rightarrow> bool \<times> LPCmodSettings_t" where
  "emergencyRecoverSettings vga pressed hw settings =
    (if pressed then (True, populateSettingsStructWithDefault vga hw) else (False, settings))"

subsection \<open>Names of settings values\<close>

definition SpecialSettings_ActiveBank :: u8 where "SpecialSettings_ActiveBank = 0"
definition SpecialSettings_AltBank :: u8 where "SpecialSettings_AltBank = 1"
definition SpecialSettings_LEDColor :: u8 where "SpecialSettings_LEDColor = 2"
definition SpecialSettings_LCDType :: u8 where "SpecialSettings_LCDType = 3"

lemmas special_settings_defs =
  SpecialSettings_ActiveBank_def SpecialSettings_AltBank_def SpecialSettings_LEDColor_def
  SpecialSettings_LCDType_def

text \<open>A switch that ends in \<^verbatim>\<open>return NULL\<close> is a look-up; \<^verbatim>\<open>None\<close> is the null pointer.\<close>

definition getSpecialSettingStringCommon :: "u8 \<Rightarrow> u8 \<Rightarrow> string option" where
  "getSpecialSettingStringCommon idx val =
    (if idx = SpecialSettings_LEDColor then
       map_of [(0, ''Off''), (1, ''Green''), (2, ''Red''), (3, ''Orange''), (4, ''Cycle'')] val
     else if idx = SpecialSettings_LCDType then map_of [(0, ''HD44780''), (1, ''KS0073'')] val
     else None)"

definition getSpecialSettingTextString :: "u8 \<Rightarrow> u8 \<Rightarrow> string option" where
  "getSpecialSettingTextString idx val =
    (if idx = SpecialSettings_ActiveBank \<or> idx = SpecialSettings_AltBank then
       map_of [(FlashBank_512Bank, ''BNK512''), (FlashBank_256Bank, ''BNK256''),
         (FlashBank_SplitTSOP0Bank, ''BNKTSOPSPLIT0''), (FlashBank_FullTSOPBank, ''BNKFULLTSOP''),
         (FlashBank_SplitTSOP1Bank, ''BNKTSOPSPLIT1''), (FlashBank_OSBank, ''BNKOS'')] val
     else getSpecialSettingStringCommon idx val)"

definition getSpecialSettingDisplayString :: "u8 \<Rightarrow> u8 \<Rightarrow> string option" where
  "getSpecialSettingDisplayString idx val =
    (if idx = SpecialSettings_ActiveBank \<or> idx = SpecialSettings_AltBank then
       map_of [(FlashBank_512Bank, ''512KB bank''), (FlashBank_256Bank, ''256KB bank''),
         (FlashBank_SplitTSOP0Bank, ''OnBoard Bank0''), (FlashBank_FullTSOPBank, ''OnBoard BIOS''),
         (FlashBank_SplitTSOP1Bank, ''OnBoard Bank1''), (FlashBank_OSBank, ''XBlast OS'')] val
     else getSpecialSettingStringCommon idx val)"

text \<open>\<^verbatim>\<open>strcpy\<close> from a field: the bytes before the first zero, \<^verbatim>\<open>None\<close> when the field has no zero
  and the copy runs past its end.\<close>

fun cstr :: "u8 list \<Rightarrow> u8 list option" where
  "cstr [] = None"
| "cstr (b # bs) = (if b = 0 then Some [] else map_option ((#) b) (cstr bs))"

definition ascii :: "string \<Rightarrow> u8 list" where
  "ascii cs = map of_char cs"

definition named_or_default :: "u8 list \<Rightarrow> u8 \<Rightarrow> u8 list option" where
  "named_or_default field bank =
    (if field ! 0 \<noteq> 0 then cstr field
     else map_option ascii (getSpecialSettingDisplayString SpecialSettings_ActiveBank bank))"

definition LPCMod_LCDBankString :: "LPCmodSettings_t \<Rightarrow> u8 \<Rightarrow> u8 list option" where
  "LPCMod_LCDBankString settings bankID =
    (let os = OSsettings settings in
     if bankID = FlashBank_512Bank then named_or_default (biosName512Bank os) FlashBank_512Bank
     else if bankID = FlashBank_256Bank
       then named_or_default (biosName256Bank os) FlashBank_256Bank
     else if bankID = FlashBank_SplitTSOP0Bank \<or> bankID = FlashBank_FullTSOPBank
       then named_or_default (biosNameTSOPFullSplit0 os)
              (if TSOPcontrol os \<noteq> 0 then FlashBank_SplitTSOP0Bank else FlashBank_FullTSOPBank)
     else if bankID = FlashBank_SplitTSOP1Bank
       then named_or_default (biosNameTSOPSplit1 os) FlashBank_SplitTSOP1Bank
     else Some (ascii ''Settings''))"

lemma settings_wf_bytes_settings:
  "length bs = 3840 \<Longrightarrow> settings_wf (bytes_settings bs)"
  by (simp add: settings_wf_def os_wf_def lcd_wf_def bytes_settings_def bytes_os_def
      bytes_lcd_def settings_size_defs)

lemma settings_wf_defaults: "settings_wf (populateSettingsStructWithDefault vga hw)"
proof -
  have "settings_wf settings_ff"
    unfolding settings_ff_def
    by (rule settings_wf_bytes_settings) (simp add: settings_size_defs)
  then show ?thesis
    by (simp add: populateSettingsStructWithDefault_def settings_wf_def os_wf_def lcd_wf_def
        default_os_def default_lcd_def clear_text_def)
qed

end
