(* ===== verification/Crc32.thy ===== *)
theory Crc32
  imports Xblast_Prelude
begin

text \<open>
  lib/misc/crc32.c: the table-driven CRC-32 that guards the settings stored in flash. The
  reference is the bit-serial division by the polynomial 0xEDB88320 (reflected). The lemmas
  show that the table is the remainder table of that polynomial, that one byte step is
  injective in the register and in the byte, and so that a change of a single byte always
  changes the checksum.
\<close>

definition crc_table :: "u32 list" where
  "crc_table =
    [0x00000000, 0x77073096, 0xee0e612c, 0x990951ba, 0x076dc419, 0x706af48f,
     0xe963a535, 0x9e6495a3, 0x0edb8832, 0x79dcb8a4, 0xe0d5e91e, 0x97d2d988,
     0x09b64c2b, 0x7eb17cbd, 0xe7b82d07, 0x90bf1d91, 0x1db71064, 0x6ab020f2,
     0xf3b97148, 0x84be41de, 0x1adad47d, 0x6ddde4eb, 0xf4d4b551, 0x83d385c7,
     0x136c9856, 0x646ba8c0, 0xfd62f97a, 0x8a65c9ec, 0x14015c4f, 0x63066cd9,
     0xfa0f3d63, 0x8d080df5, 0x3b6e20c8, 0x4c69105e, 0xd56041e4, 0xa2677172,
     0x3c03e4d1, 0x4b04d447, 0xd20d85fd, 0xa50ab56b, 0x35b5a8fa, 0x42b2986c,
     0xdbbbc9d6, 0xacbcf940, 0x32d86ce3, 0x45df5c75, 0xdcd60dcf, 0xabd13d59,
     0x26d930ac, 0x51de003a, 0xc8d75180, 0xbfd06116, 0x21b4f4b5, 0x56b3c423,
     0xcfba9599, 0xb8bda50f, 0x2802b89e, 0x5f058808, 0xc60cd9b2, 0xb10be924,
     0x2f6f7c87, 0x58684c11, 0xc1611dab, 0xb6662d3d, 0x76dc4190, 0x01db7106,
     0x98d220bc, 0xefd5102a, 0x71b18589, 0x06b6b51f, 0x9fbfe4a5, 0xe8b8d433,
     0x7807c9a2, 0x0f00f934, 0x9609a88e, 0xe10e9818, 0x7f6a0dbb, 0x086d3d2d,
     0x91646c97, 0xe6635c01, 0x6b6b51f4, 0x1c6c6162, 0x856530d8, 0xf262004e,
     0x6c0695ed, 0x1b01a57b, 0x8208f4c1, 0xf50fc457, 0x65b0d9c6, 0x12b7e950,
     0x8bbeb8ea, 0xfcb9887c, 0x62dd1ddf, 0x15da2d49, 0x8cd37cf3, 0xfbd44c65,
     0x4db26158, 0x3ab551ce, 0xa3bc0074, 0xd4bb30e2, 0x4adfa541, 0x3dd895d7,
     0xa4d1c46d, 0xd3d6f4fb, 0x4369e96a, 0x346ed9fc, 0xad678846, 0xda60b8d0,
     0x44042d73, 0x33031de5, 0xaa0a4c5f, 0xdd0d7cc9, 0x5005713c, 0x270241aa,
     0xbe0b1010, 0xc90c2086, 0x5768b525, 0x206f85b3, 0xb966d409, 0xce61e49f,
     0x5edef90e, 0x29d9c998, 0xb0d09822, 0xc7d7a8b4, 0x59b33d17, 0x2eb40d81,
     0xb7bd5c3b, 0xc0ba6cad, 0xedb88320, 0x9abfb3b6, 0x03b6e20c, 0x74b1d29a,
     0xead54739, 0x9dd277af, 0x04db2615, 0x73dc1683, 0xe3630b12, 0x94643b84,
     0x0d6d6a3e, 0x7a6a5aa8, 0xe40ecf0b, 0x9309ff9d, 0x0a00ae27, 0x7d079eb1,
     0xf00f9344, 0x8708a3d2, 0x1e01f268, 0x6906c2fe, 0xf762575d, 0x806567cb,
     0x196c3671, 0x6e6b06e7, 0xfed41b76, 0x89d32be0, 0x10da7a5a, 0x67dd4acc,
     0xf9b9df6f, 0x8ebeeff9, 0x17b7be43, 0x60b08ed5, 0xd6d6a3e8, 0xa1d1937e,
     0x38d8c2c4, 0x4fdff252, 0xd1bb67f1, 0xa6bc5767, 0x3fb506dd, 0x48b2364b,
     0xd80d2bda, 0xaf0a1b4c, 0x36034af6, 0x41047a60, 0xdf60efc3, 0xa867df55,
     0x316e8eef, 0x4669be79, 0xcb61b38c, 0xbc66831a, 0x256fd2a0, 0x5268e236,
     0xcc0c7795, 0xbb0b4703, 0x220216b9, 0x5505262f, 0xc5ba3bbe, 0xb2bd0b28,
     0x2bb45a92, 0x5cb36a04, 0xc2d7ffa7, 0xb5d0cf31, 0x2cd99e8b, 0x5bdeae1d,
     0x9b64c2b0, 0xec63f226, 0x756aa39c, 0x026d930a, 0x9c0906a9, 0xeb0e363f,
     0x72076785, 0x05005713, 0x95bf4a82, 0xe2b87a14, 0x7bb12bae, 0x0cb61b38,
     0x92d28e9b, 0xe5d5be0d, 0x7cdcefb7, 0x0bdbdf21, 0x86d3d2d4, 0xf1d4e242,
     0x68ddb3f8, 0x1fda836e, 0x81be16cd, 0xf6b9265b, 0x6fb077e1, 0x18b74777,
     0x88085ae6, 0xff0f6a70, 0x66063bca, 0x11010b5c, 0x8f659eff, 0xf862ae69,
     0x616bffd3, 0x166ccf45, 0xa00ae278, 0xd70dd2ee, 0x4e048354, 0x3903b3c2,
     0xa7672661, 0xd06016f7, 0x4969474d, 0x3e6e77db, 0xaed16a4a, 0xd9d65adc,
     0x40df0b66, 0x37d83bf0, 0xa9bcae53, 0xdebb9ec5, 0x47b2cf7f, 0x30b5ffe9,
     0xbdbdf21c, 0xcabac28a, 0x53b39330, 0x24b4a3a6, 0xbad03605, 0xcdd70693,
     0x54de5729, 0x23d967bf, 0xb3667a2e, 0xc4614ab8, 0x5d681b02, 0x2a6f2b94,
     0xb40bbe37, 0xc30c8ea1, 0x5a05df1b, 0x2d02ef8d]"

definition UPDC32 :: "u8 \<Rightarrow> u32 \<Rightarrow> u32" where
  "UPDC32 octet crc = crc_table ! unat ((crc XOR ucast octet) AND 0xFF) XOR drop_bit 8 crc"

fun crc32_loop :: "u8 list \<Rightarrow> u32 \<Rightarrow> u32" where
  "crc32_loop [] state = state"
| "crc32_loop (b # bs) state = crc32_loop bs (UPDC32 b state)"

definition crc32buf :: "u8 list \<Rightarrow> u32" where
  "crc32buf buf = crc32_loop buf 0xFFFFFFFF"

subsection \<open>The bit-serial reference\<close>

definition crc_bit :: "u32 \<Rightarrow> u32" where
  "crc_bit w = (if bit w 0 then drop_bit 1 w XOR 0xEDB88320 else drop_bit 1 w)"

definition crc_byte :: "u8 \<Rightarrow> u32 \<Rightarrow> u32" where
  "crc_byte octet crc = (crc_bit ^^ 8) (crc XOR ucast octet)"

definition crc32_spec :: "u8 list \<Rightarrow> u32" where
  "crc32_spec bs = fold crc_byte bs 0xFFFFFFFF"

definition crc_double :: "u32 \<Rightarrow> u32 list \<Rightarrow> u32 list" where
  "crc_double b ws = ws @ map (\<lambda>w. w XOR b) ws"

definition crc_basis :: "u32 list" where
  "crc_basis = [0x77073096, 0xee0e612c, 0x076dc419, 0x0edb8832, 0x1db71064, 0x3b6e20c8, 0x76dc4190, 0xedb88320]"

lemma crc_bit_xor: "crc_bit (a XOR b) = crc_bit a XOR crc_bit b"
  by (auto simp: crc_bit_def bit_simps intro!: bit_word_eqI)

lemma crc_bit_pow_xor: "(crc_bit ^^ n) (a XOR b) = (crc_bit ^^ n) a XOR (crc_bit ^^ n) b"
  by (induction n) (simp_all add: crc_bit_xor)

lemma xor_zero_iff: "a XOR b = 0 \<longleftrightarrow> a = (b :: 'a :: len word)"
proof
  assume z: "a XOR b = 0"
  have "a = (a XOR b) XOR b" by (simp add: xor.assoc)
  then show "a = b" using z by simp
qed simp

lemma crc_bit_zero_iff: "crc_bit w = 0 \<longleftrightarrow> w = 0"
proof
  assume z: "crc_bit w = 0"
  have "\<not> bit w 0"
  proof
    assume "bit w 0"
    with z have "drop_bit 1 w = 0xEDB88320"
      by (simp add: crc_bit_def xor_zero_iff)
    then have "bit (drop_bit 1 w) 31" by simp
    then have "bit w 32" by (simp add: bit_simps)
    then show False using bit_imp_le_length [of w 32] by simp
  qed
  with z have "drop_bit 1 w = 0" by (simp add: crc_bit_def)
  have "bit w n = False" for n
  proof (cases n)
    case 0
    then show ?thesis using \<open>\<not> bit w 0\<close> by simp
  next
    case (Suc m)
    have "bit (drop_bit 1 w) m = False" using \<open>drop_bit 1 w = 0\<close> by simp
    then show ?thesis using Suc by (simp add: bit_simps)
  qed
  then show "w = 0" by (intro bit_word_eqI) simp
qed (simp add: crc_bit_def)

lemma inj_crc_bit: "crc_bit a = crc_bit b \<longleftrightarrow> a = b"
proof -
  have "crc_bit a = crc_bit b \<longleftrightarrow> crc_bit (a XOR b) = 0"
    by (simp add: crc_bit_xor xor_zero_iff)
  then show ?thesis by (simp add: crc_bit_zero_iff xor_zero_iff)
qed

lemma inj_crc_bit_pow: "(crc_bit ^^ n) a = (crc_bit ^^ n) b \<longleftrightarrow> a = b"
  by (induction n) (simp_all add: inj_crc_bit)

lemma nth_crc_double:
  "i < length ws \<Longrightarrow> crc_double b ws ! i = ws ! i"
  "j < length ws \<Longrightarrow> crc_double b ws ! (length ws + j) = ws ! j XOR b"
  by (simp_all add: crc_double_def nth_append)

lemma crc_bit_even: "\<not> bit w 0 \<Longrightarrow> crc_bit w = drop_bit 1 w"
  by (simp add: crc_bit_def)

lemma crc_bit_steps:
  "crc_bit 1 = 0xedb88320" "crc_bit 0xedb88320 = 0x76dc4190" "crc_bit 0x76dc4190 = 0x3b6e20c8"
  "crc_bit 0x3b6e20c8 = 0x1db71064" "crc_bit 0x1db71064 = 0x0edb8832"
  "crc_bit 0x0edb8832 = 0x076dc419" "crc_bit 0x076dc419 = 0xee0e612c"
  "crc_bit 0xee0e612c = 0x77073096" "crc_bit 2 = 1" "crc_bit 4 = 2" "crc_bit 8 = 4"
  "crc_bit 16 = 8" "crc_bit 32 = 16" "crc_bit 64 = 32" "crc_bit 128 = 64"
  by (simp_all add: crc_bit_def drop_bit_eq_div)

lemma funpow_8: "(f ^^ 8) x = f (f (f (f (f (f (f (f x)))))))"
  by (simp add: eval_nat_numeral)

lemma upt_8: "[0..<8] = [0, 1, 2, 3, 4, 5, 6, 7]"
  by (simp add: upt_rec)

lemma crc_basis_eq: "crc_basis = map (\<lambda>k. (crc_bit ^^ 8) (2 ^ k)) [0..<8]"
  by (simp add: upt_8 funpow_8 crc_bit_steps crc_basis_def)

lemma length_crc_span [simp]: "length (fold crc_double bs [0]) = 2 ^ length bs"
  by (induction bs rule: rev_induct) (simp_all add: crc_double_def)

lemma word_add_high_bit:
  assumes "j < 2 ^ k" and "k < 32"
  shows "word_of_nat (2 ^ k + j) = (word_of_nat j XOR 2 ^ k :: u32)"
proof -
  have off: "\<not> bit j k"
    using assms by (simp add: bit_iff_odd)
  have or: "word_of_nat j OR 2 ^ k = (word_of_nat j XOR 2 ^ k :: u32)"
    using off by (auto intro!: bit_word_eqI simp: bit_simps)
  have "word_of_nat j AND 2 ^ k = (0 :: u32)"
    using off by (auto intro!: bit_word_eqI simp: bit_simps)
  then have "word_of_nat j + 2 ^ k = (word_of_nat j OR 2 ^ k :: u32)"
    by (rule disjunctive_add_eq_or)
  then show ?thesis by (simp add: or add.commute)
qed

lemma crc_span_nth:
  assumes "k \<le> 8" and "i < 2 ^ k"
  shows "fold crc_double (map (\<lambda>k. (crc_bit ^^ 8) (2 ^ k)) [0..<k]) [0] ! i
    = (crc_bit ^^ 8) (word_of_nat i)"
  using assms
proof (induction k arbitrary: i)
  case 0
  then show ?case by (simp add: crc_bit_def funpow_8)
next
  case (Suc k)
  show ?case
  proof (cases "i < 2 ^ k")
    case True
    then show ?thesis using Suc by (simp add: nth_crc_double)
  next
    case False
    define j where "j = i - 2 ^ k"
    from False have j: "j < 2 ^ k" and i: "i = 2 ^ k + j"
      using Suc.prems by (auto simp: j_def)
    have "(word_of_nat i :: u32) = word_of_nat j XOR 2 ^ k"
      unfolding i using Suc.prems by (intro word_add_high_bit j) simp
    moreover have "fold crc_double (map (\<lambda>k. (crc_bit ^^ 8) (2 ^ k)) [0..<k]) [0] ! j
        = (crc_bit ^^ 8) (word_of_nat j)"
      using Suc j by simp
    ultimately show ?thesis
      using j i nth_crc_double(2) [of j "fold crc_double (map (\<lambda>k. (crc_bit ^^ 8) (2 ^ k)) [0..<k]) [0]"]
      by (simp add: crc_bit_pow_xor)
  qed
qed

lemma crc_table_nth:
  assumes "i < 256" shows "crc_table ! i = (crc_bit ^^ 8) (word_of_nat i)"
proof -
  have "crc_table = fold crc_double crc_basis [0]"
    by (simp add: crc_table_def crc_basis_def crc_double_def)
  then show ?thesis
    using crc_span_nth [of 8 i] assms by (simp add: crc_basis_eq)
qed

lemma crc_bit_pow_clear:
  assumes "\<And>i. i < n \<Longrightarrow> \<not> bit w i"
  shows "(crc_bit ^^ n) w = drop_bit n w"
  using assms
proof (induction n)
  case (Suc n)
  then have "(crc_bit ^^ n) w = drop_bit n w" by simp
  moreover have "\<not> bit (drop_bit n w) 0" using Suc.prems [of n] by (simp add: bit_simps)
  ultimately show ?case by (simp add: crc_bit_even)
qed simp

lemma UPDC32_eq_crc_byte: "UPDC32 b crc = crc_byte b crc"
proof -
  define w where "w = crc XOR ucast b"
  define lo where "lo = take_bit 8 w"
  define hi where "hi = push_bit 8 (drop_bit 8 w)"
  have mask: "w AND 0xFF = lo"
    by (simp add: lo_def take_bit_eq_mask mask_eq_exp_minus_1)
  have w: "w = lo XOR hi"
    by (rule bit_word_eqI) (auto simp: lo_def hi_def bit_simps)
  have "unat lo < 256"
    using take_bit_nat_less_exp [of 8 "unat w"] by (simp add: lo_def unsigned_take_bit_eq)
  then have t: "crc_table ! unat lo = (crc_bit ^^ 8) lo"
    by (simp add: crc_table_nth)
  have h: "(crc_bit ^^ 8) hi = drop_bit 8 hi"
    by (rule crc_bit_pow_clear) (auto simp: hi_def bit_simps)
  have d: "drop_bit 8 hi = drop_bit 8 crc"
  proof (rule bit_word_eqI)
    fix n assume "n < LENGTH(32)"
    then show "bit (drop_bit 8 hi) n = bit (drop_bit 8 crc) n"
      using bit_imp_le_length [of b "n + 8"] bit_imp_le_length [of crc "n + 8"]
      by (auto simp: hi_def w_def bit_simps add.commute)
  qed
  have "UPDC32 b crc = crc_table ! unat lo XOR drop_bit 8 crc"
    by (simp add: UPDC32_def w_def [symmetric] mask)
  also have "\<dots> = (crc_bit ^^ 8) (lo XOR hi)"
    by (simp add: crc_bit_pow_xor t h d)
  finally show ?thesis
    by (simp add: crc_byte_def w_def [symmetric] w [symmetric])
qed

lemma xor_left_cancel_iff: "c XOR d = c XOR e \<longleftrightarrow> d = (e :: 'a :: len word)"
proof -
  have "c XOR (c XOR d) = d" for d by (simp flip: xor.assoc)
  then show ?thesis by metis
qed

lemma crc32_loop_fold: "crc32_loop bs crc = fold crc_byte bs crc"
  by (induction bs arbitrary: crc) (simp_all add: UPDC32_eq_crc_byte)

lemma crc_byte_inj_crc: "crc_byte b c = crc_byte b c' \<longleftrightarrow> c = c'"
  by (simp add: crc_byte_def inj_crc_bit_pow xor.commute [of _ "ucast b"] xor_left_cancel_iff)

lemma ucast_ucast_id_u8: "ucast (ucast (b :: u8) :: u32) = b"
  by (rule bit_word_eqI) (simp add: bit_simps)

lemma crc_byte_inj_octet: "crc_byte b c = crc_byte b' c \<longleftrightarrow> b = b'"
proof -
  have "crc_byte b c = crc_byte b' c \<longleftrightarrow> c XOR ucast b = c XOR ucast b'"
    by (simp add: crc_byte_def inj_crc_bit_pow)
  also have "\<dots> \<longleftrightarrow> ucast b = (ucast b' :: u32)"
    by (rule xor_left_cancel_iff)
  also have "\<dots> \<longleftrightarrow> b = b'"
    by (metis ucast_ucast_id_u8)
  finally show ?thesis .
qed

lemma fold_crc_byte_inj: "fold crc_byte bs c = fold crc_byte bs c' \<longleftrightarrow> c = c'"
  by (induction bs arbitrary: c c') (simp_all add: crc_byte_inj_crc)

lemma crc32buf_update_neq:
  assumes "i < length bs" and "b \<noteq> bs ! i"
  shows "crc32buf (bs[i := b]) \<noteq> crc32buf bs"
proof -
  have "bs = take i bs @ bs ! i # drop (Suc i) bs"
    using assms by (simp add: id_take_nth_drop)
  moreover have "bs[i := b] = take i bs @ b # drop (Suc i) bs"
    using assms by (simp add: upd_conv_take_nth_drop)
  moreover have "crc32_loop (xs @ b # ys) c \<noteq> crc32_loop (xs @ bs ! i # ys) c" for xs ys c
    using assms by (simp add: crc32_loop_fold fold_crc_byte_inj crc_byte_inj_octet)
  ultimately show ?thesis by (metis crc32buf_def)
qed

text \<open>C20: The table-driven checksum of \<^verbatim>\<open>crc32buf\<close> equals the bit-serial division
  by the reflected polynomial 0xEDB88320 started at 0xFFFFFFFF (no final inversion), for every
  buffer.\<close>

theorem crc32buf_eq_spec: "crc32buf bs = crc32_spec bs"
  by (simp add: crc32buf_def crc32_spec_def crc32_loop_fold)

text \<open>Changing any one byte of a buffer, at any position, to any other value
  changes its checksum.\<close>

lemma crc32_detects_byte_change:
  assumes "i < length bs" and "b \<noteq> bs ! i"
  shows "crc32buf (bs[i := b]) \<noteq> crc32buf bs"
  using assms by (rule crc32buf_update_neq)

lemma crc32_detects_byte_change_witness:
  "crc32buf ([0x11, 0x22, 0x33][1 := 0x23]) \<noteq> crc32buf [0x11, 0x22, 0x33]"
  using crc32_detects_byte_change [of 1 "[0x11, 0x22, 0x33]" "0x23"] by simp

end
