(* ===== verification/Md5.thy ===== *)
theory Md5
  imports Xblast_Prelude
begin

text \<open>
  lib/crypt/md5.c: the message digest with which XBlast OS images are validated. The context
  is the record \<^verbatim>\<open>MD5_CTX\<close>; each of the 64 steps of \<^verbatim>\<open>MD5Transform\<close> is a row of \<^verbatim>\<open>md5_steps\<close>.
  The specification pads the whole message at once, as RFC 1321 describes it, and folds the
  compression function over its blocks; the main result is that the streaming interface
  computes it however the message is cut into calls. Inputs are shorter than 2^32 - 64 bytes, so
  that the loop counter of \<^verbatim>\<open>MD5Update\<close> does not wrap.
\<close>

type_synonym md5_state = "u32 \<times> u32 \<times> u32 \<times> u32"

record MD5_CTX =
  md5_state :: md5_state
  md5_count0 :: u32
  md5_count1 :: u32
  md5_buffer :: "u8 list"

definition md5_F :: "u32 \<Rightarrow> u32 \<Rightarrow> u32 \<Rightarrow> u32" where
  "md5_F x y z = (x AND y) OR (NOT x AND z)"

definition md5_G :: "u32 \<Rightarrow> u32 \<Rightarrow> u32 \<Rightarrow> u32" where
  "md5_G x y z = (x AND z) OR (y AND NOT z)"

definition md5_H :: "u32 \<Rightarrow> u32 \<Rightarrow> u32 \<Rightarrow> u32" where
  "md5_H x y z = x XOR y XOR z"

definition md5_I :: "u32 \<Rightarrow> u32 \<Rightarrow> u32 \<Rightarrow> u32" where
  "md5_I x y z = y XOR (x OR NOT z)"

definition ROTATE_LEFT :: "u32 \<Rightarrow> nat \<Rightarrow> u32" where
  "ROTATE_LEFT x n = push_bit n x OR drop_bit (32 - n) x"

text \<open>One of the macros FF, GG, HH, II. The registers keep their places and the names rotate: the
  next step updates what is the last component here.\<close>

definition md5_step ::
  "u32 list \<Rightarrow> (u32 \<Rightarrow> u32 \<Rightarrow> u32 \<Rightarrow> u32) \<times> nat \<times> nat \<times> u32 \<Rightarrow> md5_state \<Rightarrow> md5_state" where
  "md5_step x row abcd =
    (let (f, k, s, ac) = row; (a, b, c, d) = abcd
     in (d, ROTATE_LEFT (a + (f b c d + x ! k + ac)) s + b, b, c))"

definition md5_steps :: "((u32 \<Rightarrow> u32 \<Rightarrow> u32 \<Rightarrow> u32) \<times> nat \<times> nat \<times> u32) list" where
  "md5_steps =
    [(md5_F, 0, 7, 0xd76aa478), (md5_F, 1, 12, 0xe8c7b756),
     (md5_F, 2, 17, 0x242070db), (md5_F, 3, 22, 0xc1bdceee),
     (md5_F, 4, 7, 0xf57c0faf), (md5_F, 5, 12, 0x4787c62a),
     (md5_F, 6, 17, 0xa8304613), (md5_F, 7, 22, 0xfd469501),
     (md5_F, 8, 7, 0x698098d8), (md5_F, 9, 12, 0x8b44f7af),
     (md5_F, 10, 17, 0xffff5bb1), (md5_F, 11, 22, 0x895cd7be),
     (md5_F, 12, 7, 0x6b901122), (md5_F, 13, 12, 0xfd987193),
     (md5_F, 14, 17, 0xa679438e), (md5_F, 15, 22, 0x49b40821),
     (md5_G, 1, 5, 0xf61e2562), (md5_G, 6, 9, 0xc040b340),
     (md5_G, 11, 14, 0x265e5a51), (md5_G, 0, 20, 0xe9b6c7aa),
     (md5_G, 5, 5, 0xd62f105d), (md5_G, 10, 9, 0x2441453),
     (md5_G, 15, 14, 0xd8a1e681), (md5_G, 4, 20, 0xe7d3fbc8),
     (md5_G, 9, 5, 0x21e1cde6), (md5_G, 14, 9, 0xc33707d6),
     (md5_G, 3, 14, 0xf4d50d87), (md5_G, 8, 20, 0x455a14ed),
     (md5_G, 13, 5, 0xa9e3e905), (md5_G, 2, 9, 0xfcefa3f8),
     (md5_G, 7, 14, 0x676f02d9), (md5_G, 12, 20, 0x8d2a4c8a),
     (md5_H, 5, 4, 0xfffa3942), (md5_H, 8, 11, 0x8771f681),
     (md5_H, 11, 16, 0x6d9d6122), (md5_H, 14, 23, 0xfde5380c),
     (md5_H, 1, 4, 0xa4beea44), (md5_H, 4, 11, 0x4bdecfa9),
     (md5_H, 7, 16, 0xf6bb4b60), (md5_H, 10, 23, 0xbebfbc70),
     (md5_H, 13, 4, 0x289b7ec6), (md5_H, 0, 11, 0xeaa127fa),
     (md5_H, 3, 16, 0xd4ef3085), (md5_H, 6, 23, 0x4881d05),
     (md5_H, 9, 4, 0xd9d4d039), (md5_H, 12, 11, 0xe6db99e5),
     (md5_H, 15, 16, 0x1fa27cf8), (md5_H, 2, 23, 0xc4ac5665),
     (md5_I, 0, 6, 0xf4292244), (md5_I, 7, 10, 0x432aff97),
     (md5_I, 14, 15, 0xab9423a7), (md5_I, 5, 21, 0xfc93a039),
     (md5_I, 12, 6, 0x655b59c3), (md5_I, 3, 10, 0x8f0ccc92),
     (md5_I, 10, 15, 0xffeff47d), (md5_I, 1, 21, 0x85845dd1),
     (md5_I, 8, 6, 0x6fa87e4f), (md5_I, 15, 10, 0xfe2ce6e0),
     (md5_I, 6, 15, 0xa3014314), (md5_I, 13, 21, 0x4e0811a1),
     (md5_I, 4, 6, 0xf7537e82), (md5_I, 11, 10, 0xbd3af235),
     (md5_I, 2, 15, 0x2ad7d2bb), (md5_I, 9, 21, 0xeb86d391)]"

fun md5_Decode :: "u8 list \<Rightarrow> u32 list" where
  "md5_Decode (a # b # c # d # bs) = bytes_u32 [a, b, c, d] # md5_Decode bs"
| "md5_Decode bs = []"

definition md5_Encode :: "u32 list \<Rightarrow> u8 list" where
  "md5_Encode ws = concat (map u32_bytes ws)"

definition MD5Transform :: "md5_state \<Rightarrow> u8 list \<Rightarrow> md5_state" where
  "MD5Transform st block =
    (let x = md5_Decode block;
         (a, b, c, d) = fold (md5_step x) md5_steps st;
         (a0, b0, c0, d0) = st
     in (a0 + a, b0 + b, c0 + c, d0 + d))"

definition md5_iv :: md5_state where
  "md5_iv = (0x67452301, 0xefcdab89, 0x98badcfe, 0x10325476)"

definition MD5Init :: "MD5_CTX \<Rightarrow> MD5_CTX" where
  "MD5Init ctx = ctx\<lparr>md5_count0 := 0, md5_count1 := 0, md5_state := md5_iv\<rparr>"

text \<open>\<^verbatim>\<open>MD5_memcpy\<close> into the buffer at an index.\<close>

definition md5_put :: "u8 list \<Rightarrow> nat \<Rightarrow> u8 list \<Rightarrow> u8 list" where
  "md5_put buf index bs = take index buf @ bs @ drop (index + length bs) buf"

text \<open>The loop over the whole blocks of the input; it returns the unprocessed tail as well.\<close>

function md5_blocks :: "md5_state \<Rightarrow> u8 list \<Rightarrow> md5_state \<times> u8 list" where
  "md5_blocks st bs =
    (if length bs < 64 then (st, bs)
     else md5_blocks (MD5Transform st (take 64 bs)) (drop 64 bs))"
  by pat_completeness auto
termination
  by (relation "measure (\<lambda>(st, bs). length bs)") auto

declare md5_blocks.simps [simp del]

definition MD5Update :: "u8 list \<Rightarrow> MD5_CTX \<Rightarrow> MD5_CTX" where
  "MD5Update input ctx =
    (let inputLen = word_of_nat (length input) :: u32;
         index = unat (drop_bit 3 (md5_count0 ctx) AND 0x3F);
         count0 = md5_count0 ctx + push_bit 3 inputLen;
         count1 = (if count0 < push_bit 3 inputLen then md5_count1 ctx + 1 else md5_count1 ctx)
                  + drop_bit 29 inputLen;
         partLen = 64 - index;
         ctx1 = ctx\<lparr>md5_count0 := count0, md5_count1 := count1\<rparr>
     in if partLen \<le> length input
        then let buf = md5_put (md5_buffer ctx) index (take partLen input);
                 (st, rest) = md5_blocks (MD5Transform (md5_state ctx) buf) (drop partLen input)
             in ctx1\<lparr>md5_state := st, md5_buffer := md5_put buf 0 rest\<rparr>
        else ctx1\<lparr>md5_buffer := md5_put (md5_buffer ctx) index input\<rparr>)"

definition MD5_PADDING :: "u8 list" where
  "MD5_PADDING = 0x80 # replicate 63 0"

definition md5_digest :: "md5_state \<Rightarrow> u8 list" where
  "md5_digest st = (let (a, b, c, d) = st in md5_Encode [a, b, c, d])"

definition MD5Final :: "MD5_CTX \<Rightarrow> u8 list \<times> MD5_CTX" where
  "MD5Final ctx =
    (let bits = md5_Encode [md5_count0 ctx, md5_count1 ctx];
         index = unat (drop_bit 3 (md5_count0 ctx) AND 0x3F);
         padLen = (if index < 56 then 56 - index else 120 - index);
         ctx2 = MD5Update bits (MD5Update (take padLen MD5_PADDING) ctx)
     in (md5_digest (md5_state ctx2),
         \<lparr>md5_state = (0, 0, 0, 0), md5_count0 = 0, md5_count1 = 0,
          md5_buffer = replicate 64 0\<rparr>))"

subsection \<open>Specification\<close>

definition md5_pad :: "nat \<Rightarrow> u8 list" where
  "md5_pad n = 0x80 # replicate ((119 - n mod 64) mod 64) 0 @
     u32_bytes (ucast (word_of_nat (8 * n) :: 64 word)) @
     u32_bytes (ucast (drop_bit 32 (word_of_nat (8 * n) :: 64 word)))"

definition md5_spec :: "u8 list \<Rightarrow> u8 list" where
  "md5_spec m = md5_digest (fst (md5_blocks md5_iv (m @ md5_pad (length m))))"

lemma md5_blocks_append:
  "md5_blocks st (xs @ ys) = (case md5_blocks st xs of (st', r) \<Rightarrow> md5_blocks st' (r @ ys))"
proof (induction st xs rule: md5_blocks.induct)
  case (1 st xs)
  show ?case
  proof (cases "length xs < 64")
    case True
    then show ?thesis by (simp add: md5_blocks.simps [of st xs])
  next
    case False
    have "md5_blocks st (xs @ ys) = md5_blocks (MD5Transform st (take 64 xs)) (drop 64 xs @ ys)"
      using False by (subst md5_blocks.simps) simp
    then show ?thesis using 1 [OF False] False by (simp add: md5_blocks.simps [of st xs])
  qed
qed

lemma md5_blocks_rest: "md5_blocks st xs = (st', r) \<Longrightarrow> length r = length xs mod 64"
proof (induction st xs arbitrary: st' r rule: md5_blocks.induct)
  case (1 st xs)
  show ?case
  proof (cases "length xs < 64")
    case True
    then show ?thesis using "1.prems" by (simp add: md5_blocks.simps [of st xs])
  next
    case False
    then have bl: "md5_blocks (MD5Transform st (take 64 xs)) (drop 64 xs) = (st', r)"
      using "1.prems" by (simp add: md5_blocks.simps [of st xs])
    have "length r = (length xs - 64) mod 64"
      using "1.IH" [OF False bl] by simp
    then show ?thesis using False le_mod_geq [of 64 "length xs"] by simp
  qed
qed

lemma md5_blocks_short: "length xs < 64 \<Longrightarrow> md5_blocks st xs = (st, xs)"
  by (simp add: md5_blocks.simps)

definition md5_bits_lo :: "nat \<Rightarrow> u32" where
  "md5_bits_lo n = ucast (word_of_nat (8 * n) :: 64 word)"

definition md5_bits_hi :: "nat \<Rightarrow> u32" where
  "md5_bits_hi n = ucast (drop_bit 32 (word_of_nat (8 * n) :: 64 word))"

lemma ucast_nat64_lo: "ucast (word_of_nat k :: 64 word) = (word_of_nat k :: u32)"
  by (rule bit_word_eqI) (auto simp: bit_simps)

lemma ucast_nat64_hi:
  "ucast (drop_bit 32 (word_of_nat k :: 64 word)) = (word_of_nat (drop_bit 32 k) :: u32)"
  by (rule bit_word_eqI) (auto simp: bit_simps)

lemma unat_nat32: "unat (word_of_nat k :: u32) = k mod 2 ^ 32"
  by (simp add: unsigned_of_nat take_bit_eq_mod)

lemma div_add_carry:
  fixes a b M :: nat
  assumes "0 < M"
  shows "(a + b) div M = a div M + b div M + (if (a + b) mod M < b mod M then 1 else 0)"
proof -
  define x y where "x = a mod M" and "y = b mod M"
  have xy: "x < M" "y < M" using assms by (simp_all add: x_def y_def)
  have "(a + b) mod M = (if x + y < M then x + y else x + y - M)"
    using xy mod_add_eq [of a M b] by (auto simp: x_def [symmetric] y_def [symmetric] not_less le_mod_geq)
  moreover have "(x + y) div M = (if x + y < M then 0 else 1)"
    using xy by (auto simp: not_less le_div_geq)
  moreover have "(a + b) div M = a div M + b div M + (x + y) div M"
    unfolding x_def y_def by (rule div_add1_eq)
  ultimately show ?thesis using xy by (auto simp: x_def [symmetric] y_def [symmetric])
qed

lemma md5_count_carry:
  fixes n L :: nat
  assumes "L < 2 ^ 32"
  defines "inc \<equiv> push_bit 3 (word_of_nat L :: u32)"
  shows "md5_bits_lo n + inc = md5_bits_lo (n + L)"
    and "(if md5_bits_lo n + inc < inc then md5_bits_hi n + 1 else md5_bits_hi n)
          + drop_bit 29 (word_of_nat L) = md5_bits_hi (n + L)"
proof -
  define a b where "a = 8 * n" and "b = 8 * L"
  have inc: "inc = word_of_nat b"
    by (simp add: inc_def b_def push_bit_eq_mult)
  have lo_hi: "md5_bits_lo n = word_of_nat a" "md5_bits_hi n = word_of_nat (drop_bit 32 a)"
      "md5_bits_lo (n + L) = word_of_nat (a + b)"
      "md5_bits_hi (n + L) = word_of_nat (drop_bit 32 (a + b))"
    by (simp_all add: md5_bits_lo_def md5_bits_hi_def ucast_nat64_lo ucast_nat64_hi a_def b_def
        distrib_left del: of_nat_mult of_nat_add)
  show "md5_bits_lo n + inc = md5_bits_lo (n + L)"
    by (simp add: inc lo_hi)
  have sum: "md5_bits_lo n + inc = word_of_nat (a + b)"
    by (simp only: inc lo_hi of_nat_add)
  have less: "md5_bits_lo n + inc < inc \<longleftrightarrow> (a + b) mod 2 ^ 32 < b mod 2 ^ 32"
    unfolding sum by (simp only: inc word_less_nat_alt unat_nat32)
  have "drop_bit 29 L = drop_bit 32 b"
    unfolding b_def drop_bit_eq_div by (simp add: div_mult2_eq)
  moreover have "drop_bit 29 (word_of_nat L :: u32) = word_of_nat (drop_bit 29 L)"
  proof (rule bit_word_eqI)
    fix i assume "i < LENGTH(32)"
    have "\<not> bit L (29 + i)" if "3 \<le> i"
    proof -
      have "(2 :: nat) ^ 32 \<le> 2 ^ (29 + i)" using that by (intro power_increasing) auto
      then have "L < 2 ^ (29 + i)" using assms(1) by (rule order_less_le_trans [rotated])
      then show ?thesis by (simp only: bit_iff_odd div_less) simp
    qed
    then show "bit (drop_bit 29 (word_of_nat L :: u32)) i = bit (word_of_nat (drop_bit 29 L) :: u32) i"
      by (cases "i < 3") (auto simp: bit_simps)
  qed
  ultimately have hi: "drop_bit 29 (word_of_nat L :: u32) = word_of_nat (b div 2 ^ 32)"
    by (simp only: drop_bit_eq_div [where ?'a = nat])
  have "(a + b) div 2 ^ 32 = a div 2 ^ 32 + b div 2 ^ 32 +
      (if (a + b) mod 2 ^ 32 < b mod 2 ^ 32 then 1 else 0)"
    by (rule div_add_carry) simp
  then show "(if md5_bits_lo n + inc < inc then md5_bits_hi n + 1 else md5_bits_hi n)
          + drop_bit 29 (word_of_nat L) = md5_bits_hi (n + L)"
    unfolding hi less lo_hi(2,4) drop_bit_eq_div [where ?'a = nat] by simp
qed


definition md5_rep :: "MD5_CTX \<Rightarrow> u8 list \<Rightarrow> bool" where
  "md5_rep ctx m \<longleftrightarrow>
     length (md5_buffer ctx) = 64 \<and>
     md5_blocks md5_iv m = (md5_state ctx, take (length m mod 64) (md5_buffer ctx)) \<and>
     md5_count0 ctx = md5_bits_lo (length m) \<and> md5_count1 ctx = md5_bits_hi (length m)"

lemma unat_field: "unat (take_bit 6 (drop_bit 3 (w :: u32))) = unat w div 2 ^ 3 mod 2 ^ 6"
  by (simp add: unsigned_take_bit_eq unsigned_drop_bit_eq take_bit_eq_mod [where ?'a = nat]
      drop_bit_eq_div [where ?'a = nat] mod_less [OF unat_u32_less])

lemma md5_index: "unat (drop_bit 3 (md5_bits_lo n) AND 0x3F) = n mod 64"
proof -
  have "drop_bit 3 (md5_bits_lo n) AND 0x3F = take_bit 6 (drop_bit 3 (word_of_nat (8 * n) :: u32))"
    by (simp add: md5_bits_lo_def ucast_nat64_lo take_bit_eq_mask mask_eq_exp_minus_1
        del: of_nat_mult)
  also have "unat \<dots> = ((8 * n) mod 2 ^ 32) div 2 ^ 3 mod 2 ^ 6"
    by (simp only: unat_field unat_nat32)
  also have "(8 * n) mod 2 ^ 32 = 8 * (n mod 2 ^ 29)"
    using mult_mod_right [of 8 n "2 ^ 29"] by simp
  also have "\<dots> div 2 ^ 3 mod 2 ^ 6 = n mod 64"
    using mod_mod_cancel [of 64 "2 ^ 29" n] by simp
  finally show ?thesis .
qed

lemma length_md5_put: "i + length bs \<le> length buf \<Longrightarrow> length (md5_put buf i bs) = length buf"
  by (simp add: md5_put_def)

lemma md5_Update_count:
  assumes "md5_rep ctx m" and "length input < 2 ^ 32"
  shows "md5_count0 (MD5Update input ctx) = md5_bits_lo (length (m @ input))"
    and "md5_count1 (MD5Update input ctx) = md5_bits_hi (length (m @ input))"
  using assms md5_count_carry [OF assms(2), of "length m"]
  by (simp_all add: md5_rep_def MD5Update_def Let_def split_beta split: if_split_asm)

lemma md5_Update_short:
  assumes rep: "md5_rep ctx m" and "length m mod 64 + length input < 64"
  shows "md5_state (MD5Update input ctx) = md5_state ctx"
    and "md5_buffer (MD5Update input ctx) = md5_put (md5_buffer ctx) (length m mod 64) input"
proof -
  have "\<not> 64 - length m mod 64 \<le> length input" using assms(2) by arith
  then show "md5_state (MD5Update input ctx) = md5_state ctx"
    and "md5_buffer (MD5Update input ctx) = md5_put (md5_buffer ctx) (length m mod 64) input"
    using rep by (simp_all add: md5_rep_def MD5Update_def Let_def md5_index)
qed

lemma md5_Update_long:
  assumes rep: "md5_rep ctx m" and "64 \<le> length m mod 64 + length input"
    and buf: "buf = take (length m mod 64) (md5_buffer ctx) @ take (64 - length m mod 64) input"
    and "md5_blocks (MD5Transform (md5_state ctx) buf) (drop (64 - length m mod 64) input) = (st, r)"
  shows "md5_state (MD5Update input ctx) = st"
    and "md5_buffer (MD5Update input ctx) = r @ drop (length r) buf"
proof -
  have "md5_put (md5_buffer ctx) (length m mod 64) (take (64 - length m mod 64) input) = buf"
    using assms(1,2) by (simp add: md5_put_def md5_rep_def buf)
  moreover have "64 - length m mod 64 \<le> length input" using assms(2) by arith
  ultimately show "md5_state (MD5Update input ctx) = st"
    and "md5_buffer (MD5Update input ctx) = r @ drop (length r) buf"
    using assms by (simp_all add: md5_rep_def MD5Update_def Let_def md5_index md5_put_def)
qed

lemma md5_rep_Update:
  assumes rep: "md5_rep ctx m" and len: "length input < 2 ^ 32"
  shows "md5_rep (MD5Update input ctx) (m @ input)"
proof -
  define i where "i = length m mod 64"
  have i: "i < 64" by (simp add: i_def)
  have b: "length (md5_buffer ctx) = 64"
      "md5_blocks md5_iv m = (md5_state ctx, take i (md5_buffer ctx))"
    using rep by (simp_all add: md5_rep_def i_def)
  have app: "md5_blocks md5_iv (m @ input) =
      md5_blocks (md5_state ctx) (take i (md5_buffer ctx) @ input)"
    unfolding md5_blocks_append [of _ m] b(2) by simp
  have mod: "(length m + length input) mod 64 = (i + length input) mod 64"
    by (simp add: i_def mod_add_left_eq)
  show ?thesis
  proof (cases "i + length input < 64")
    case True
    then have m: "(length m + length input) mod 64 = i + length input"
      using mod by simp
    have "md5_state (MD5Update input ctx) = md5_state ctx"
        "md5_buffer (MD5Update input ctx) = md5_put (md5_buffer ctx) i input"
      using md5_Update_short [OF rep, of input] True by (simp_all add: i_def)
    moreover have "md5_blocks md5_iv (m @ input) = (md5_state ctx, take i (md5_buffer ctx) @ input)"
      unfolding app using True b(1) by (simp add: md5_blocks_short)
    ultimately show ?thesis
      using md5_Update_count [OF rep len] True b(1) m by (simp add: md5_rep_def md5_put_def)
  next
    case False
    define buf where "buf = take i (md5_buffer ctx) @ take (64 - i) input"
    obtain st r where st: "md5_blocks (MD5Transform (md5_state ctx) buf) (drop (64 - i) input) = (st, r)"
      using prod.exhaust by blast
    have lr: "length r = (i + length input) mod 64"
      using md5_blocks_rest [OF st] False le_mod_geq [of 64 "i + length input"] i
      by (simp add: add.commute)
    have lb: "length buf = 64" using b i False by (simp add: buf_def)
    have len64: "\<not> length (take i (md5_buffer ctx) @ input) < 64" using False b(1) i by simp
    have split: "take 64 (take i (md5_buffer ctx) @ input) = buf"
        "drop 64 (take i (md5_buffer ctx) @ input) = drop (64 - i) input"
      using b(1) i by (simp_all add: buf_def)
    have "md5_blocks md5_iv (m @ input) = (st, r)"
      unfolding app md5_blocks.simps [of "md5_state ctx"] split st using len64 by simp
    moreover have "md5_state (MD5Update input ctx) = st"
        "md5_buffer (MD5Update input ctx) = r @ drop (length r) buf"
      using md5_Update_long [OF rep, of input buf st r] False st
      by (simp_all add: buf_def [folded i_def] i_def)
    ultimately show ?thesis
      using md5_Update_count [OF rep len] lr lb mod by (simp add: md5_rep_def)
  qed
qed

lemma md5_rep_Init: "length (md5_buffer ctx) = 64 \<Longrightarrow> md5_rep (MD5Init ctx) []"
  by (simp add: md5_rep_def MD5Init_def md5_blocks_short md5_bits_lo_def md5_bits_hi_def)

lemma md5_Final_rep:
  assumes rep: "md5_rep ctx m"
  shows "fst (MD5Final ctx) = md5_spec m"
proof -
  define i padLen where "i = length m mod 64"
    and "padLen = (if i < 56 then 56 - i else 120 - i)"
  define pad where "pad = take padLen MD5_PADDING"
  define bits where "bits = md5_Encode [md5_count0 ctx, md5_count1 ctx]"
  have i: "i < 64" by (simp add: i_def)
  have pl: "0 < padLen" "padLen \<le> 64" using i by (auto simp: padLen_def)
  have k: "(119 - i) mod 64 = padLen - 1" using i by (auto simp: padLen_def le_mod_geq)
  have "pad = 0x80 # replicate (padLen - 1) 0"
    using pl by (cases padLen) (simp_all add: pad_def MD5_PADDING_def)
  moreover have "bits = u32_bytes (md5_bits_lo (length m)) @ u32_bytes (md5_bits_hi (length m))"
    using rep by (simp add: bits_def md5_Encode_def md5_rep_def)
  ultimately have pb: "pad @ bits = md5_pad (length m)"
    by (simp add: md5_pad_def k [unfolded i_def] md5_bits_lo_def md5_bits_hi_def)
  have "length pad = padLen" "length bits = 8"
    using pl by (simp_all add: pad_def MD5_PADDING_def bits_def md5_Encode_def)
  then have rep2: "md5_rep (MD5Update bits (MD5Update pad ctx)) (m @ md5_pad (length m))"
    using pl md5_rep_Update [OF md5_rep_Update [OF rep, of pad], of bits] pb by simp
  have "fst (MD5Final ctx) = md5_digest (md5_state (MD5Update bits (MD5Update pad ctx)))"
    using rep unfolding MD5Final_def
    by (simp add: Let_def md5_rep_def md5_index pad_def bits_def padLen_def i_def)
  then show ?thesis using rep2 by (simp add: md5_spec_def md5_rep_def)
qed

lemma md5_rep_Updates:
  assumes "md5_rep ctx m" and "\<forall>input \<in> set inputs. length input < 2 ^ 32 - 64"
  shows "md5_rep (fold MD5Update inputs ctx) (m @ concat inputs)"
  using assms
proof (induction inputs arbitrary: ctx m)
  case (Cons input inputs)
  then show ?case using md5_rep_Update [of ctx m input] Cons.IH [of "MD5Update input ctx" "m @ input"] by simp
qed simp

definition md5_ctx0 :: MD5_CTX where
  "md5_ctx0 = \<lparr>md5_state = (0, 0, 0, 0), md5_count0 = 0, md5_count1 = 0,
     md5_buffer = replicate 64 0\<rparr>"

lemma md5_oneshot:
  assumes "length m < 2 ^ 32 - 64"
  shows "fst (MD5Final (MD5Update m (MD5Init md5_ctx0))) = md5_spec m"
proof -
  have "length (md5_buffer md5_ctx0) = 64" by (simp add: md5_ctx0_def)
  from md5_Final_rep [OF md5_rep_Updates [OF md5_rep_Init [OF this], of "[m]"]] assms
  show ?thesis by simp
qed

text \<open>C21: streaming and one-shot hashing agree: initialising a context, feeding a message in pieces
  cut anywhere, and finalising gives the digest of the whole message padded at once, whatever
  the context held before.\<close>

theorem md5_stream_eq_spec:
  assumes "length (md5_buffer ctx) = 64"
    and "\<forall>input \<in> set inputs. length input < 2 ^ 32 - 64"
  shows "fst (MD5Final (fold MD5Update inputs (MD5Init ctx))) = md5_spec (concat inputs)"
  using md5_Final_rep [OF md5_rep_Updates [OF md5_rep_Init [OF assms(1)] assms(2)]] by simp

theorem md5_stream_eq_spec_witness:
  "length (md5_buffer md5_ctx0) = 64 \<and>
   fst (MD5Final (fold MD5Update [[0x61], [0x62, 0x63]] (MD5Init md5_ctx0))) =
     md5_spec [0x61, 0x62, 0x63]"
proof -
  have h: "length (md5_buffer md5_ctx0) = 64" by (simp add: md5_ctx0_def)
  have "\<forall>input \<in> set [[0x61], [0x62, 0x63 :: u8]]. length input < 2 ^ 32 - 64" by simp
  from md5_stream_eq_spec [OF h this] show ?thesis
    using h by (simp only: concat.simps append.simps)
qed

end
