(* ===== verification/FlashDriver.thy ===== *)
theory FlashDriver
  imports FlashTypes HardwareIdentifier XblastSettings Crc32 Md5
begin

text \<open>
  drivers/flash/FlashDriver.c: the state machine that erases, writes, verifies and reads the
  BIOS flash, and the operations that start it. The functions it calls in FlashLowLevel.c are
  the record \<^verbatim>\<open>flash_ops\<close>, because the sources have two implementations of them: the hardware
  sequences (theory FlashLowLevel) and the simulator of pc_tools/FlashSimulator (theory
  FlashSpoof). The globals are the record \<^verbatim>\<open>flash_drv\<close>; the one-megabyte buffer is a function
  whose accesses are checked against its size, and \<^verbatim>\<open>None\<close> is an access outside it or a division
  by zero. The floating-point percentage of \<^verbatim>\<open>Flash_getProgress\<close> is the field \<^verbatim>\<open>op_percent\<close>.
\<close>

record 's flash_ops =
  op_Init :: "'s \<Rightarrow> 's"
  op_ReadDevice :: "'s \<Rightarrow> (bool \<times> 's) option"
  op_DeviceIsBusy :: "'s \<Rightarrow> bool \<times> 's"
  op_ReadByte :: "u32 \<Rightarrow> 's \<Rightarrow> (u8 \<times> 's) option"
  op_WriteByte :: "u8 \<Rightarrow> u32 \<Rightarrow> 's \<Rightarrow> 's option"
  op_SectorErase :: "u32 \<Rightarrow> 's \<Rightarrow> 's option"
  op_BlockErase :: "u32 \<Rightarrow> 's \<Rightarrow> 's option"
  op_ChipErase :: "'s \<Rightarrow> 's option"
  op_flashDevice :: "'s \<Rightarrow> OBJECT_FLASH"
  op_percent :: "u32 \<Rightarrow> u32 \<Rightarrow> u8"

datatype FlashTask =
    FlashTask_NoTask | FlashTask_WriteBios | FlashTask_ReadBios | FlashTask_WriteSettings
  | FlashTask_ReadSettings

datatype EraseSequenceMethod =
    EraseSequenceMethod_Sector | EraseSequenceMethod_Block | EraseSequenceMethod_Chip

record 's flash_drv =
  biosBuffer :: "nat \<Rightarrow> u8"
  biosBufferSize :: u32
  currentFlashOp :: FlashOp
  flashErrorCode :: FlashErrorcodes
  startingOffset :: u32
  currentAddr :: u32
  currentFlashTask :: FlashTask
  eraseSequenceMethod :: EraseSequenceMethod
  eraseBusyCount :: u32
  firstEraseTry :: bool
  lowlevel :: 's
  hw :: lpc_hw
  LPCmodSettings :: LPCmodSettings_t
  LPCmodSettingsOrigFromFlash :: LPCmodSettings_t

record FlashProgress =
  progressOp :: FlashOp
  progressTask :: FlashTask
  progressInPercent :: u8
  progressError :: FlashErrorcodes

record BiosIdentifier =
  Magic :: "u8 list"
  HeaderVersion :: u8
  XboxVersion :: u8
  VideoEncoder :: u8
  HeaderPatch :: u8
  Option1 :: u8
  Option2 :: u8
  Option3 :: u8
  BiosSize :: u32
  Name :: "u8 list"
  MD5Hash :: "u8 list"

definition biosBuffer_len :: nat where "biosBuffer_len = 1048576"
definition ImageSize256KB :: u32 where "ImageSize256KB = 0x40000"
definition ImageSize512KB :: u32 where "ImageSize512KB = 0x80000"
definition FlashSectorSize_4KB :: u32 where "FlashSectorSize_4KB = 0x1000"
definition FlashBlockSize_64KB :: u32 where "FlashBlockSize_64KB = 0x10000"
definition FlashChipSize_256KB :: u32 where "FlashChipSize_256KB = 0x40000"
definition EraseBusyCountMin :: u32 where "EraseBusyCountMin = 3"
definition sizeof_BiosIdentifier :: nat where "sizeof_BiosIdentifier = 63"
definition PROG_NAME :: "u8 list" where "PROG_NAME = ascii ''XBlast OS''"

lemmas flash_size_defs =
  biosBuffer_len_def ImageSize256KB_def ImageSize512KB_def FlashSectorSize_4KB_def
  FlashBlockSize_64KB_def FlashChipSize_256KB_def EraseBusyCountMin_def sizeof_BiosIdentifier_def

subsection \<open>Buffer accesses\<close>

definition buf_get :: "'s flash_drv \<Rightarrow> nat \<Rightarrow> u8 option" where
  "buf_get d i = (if i < biosBuffer_len then Some (biosBuffer d i) else None)"

definition buf_set :: "nat \<Rightarrow> u8 \<Rightarrow> 's flash_drv \<Rightarrow> 's flash_drv option" where
  "buf_set i v d =
    (if i < biosBuffer_len then Some (d\<lparr>biosBuffer := (biosBuffer d)(i := v)\<rparr>) else None)"

text \<open>\<^verbatim>\<open>memcpy(biosBuffer + start, bytes, length bytes)\<close>\<close>

definition overlay :: "nat \<Rightarrow> u8 list \<Rightarrow> (nat \<Rightarrow> u8) \<Rightarrow> nat \<Rightarrow> u8" where
  "overlay start bs f i = (if start \<le> i \<and> i < start + length bs then bs ! (i - start) else f i)"

definition buf_copy :: "nat \<Rightarrow> u8 list \<Rightarrow> 's flash_drv \<Rightarrow> 's flash_drv option" where
  "buf_copy start bs d =
    (if start + length bs \<le> biosBuffer_len
     then Some (d\<lparr>biosBuffer := overlay start bs (biosBuffer d)\<rparr>) else None)"

definition device_length :: "'s flash_ops \<Rightarrow> 's flash_drv \<Rightarrow> u32" where
  "device_length ops d = m_dwLengthInBytes (flashType (op_flashDevice ops (lowlevel d)))"

subsection \<open>BIOS identifier and the place of the settings\<close>

definition bytes_BiosIdentifier :: "u8 list \<Rightarrow> BiosIdentifier" where
  "bytes_BiosIdentifier bs =
    \<lparr>Magic = chunk 0 4 bs, HeaderVersion = bs ! 4, XboxVersion = bs ! 5, VideoEncoder = bs ! 6,
     HeaderPatch = bs ! 7, Option1 = bs ! 8, Option2 = bs ! 9, Option3 = bs ! 10,
     BiosSize = bytes_u32 (chunk 11 4 bs), Name = chunk 15 32 bs, MD5Hash = chunk 47 16 bs\<rparr>"

definition blank_BiosIdentifier :: BiosIdentifier where
  "blank_BiosIdentifier = bytes_BiosIdentifier (replicate sizeof_BiosIdentifier 0xFF)"

fun read_bytes :: "'s flash_ops \<Rightarrow> u32 \<Rightarrow> nat \<Rightarrow> 's \<Rightarrow> (u8 list \<times> 's) option" where
  "read_bytes ops addr 0 s = Some ([], s)"
| "read_bytes ops addr (Suc n) s =
    do {
      (b, s1) \<leftarrow> op_ReadByte ops addr s;
      (bs, s2) \<leftarrow> read_bytes ops (addr + 1) n s1;
      Some (b # bs, s2)
    }"

definition getBiosIdentifierFromFlash ::
  "'s flash_ops \<Rightarrow> 's flash_drv \<Rightarrow> (BiosIdentifier \<times> 's flash_drv) option" where
  "getBiosIdentifierFromFlash ops d =
    do {
      (bs, s) \<leftarrow> read_bytes ops (ImageSize256KB - word_of_nat sizeof_BiosIdentifier)
                   sizeof_BiosIdentifier (lowlevel d);
      Some (bytes_BiosIdentifier bs, d\<lparr>lowlevel := s\<rparr>)
    }"

definition buf_bytes :: "nat \<Rightarrow> nat \<Rightarrow> 's flash_drv \<Rightarrow> u8 list" where
  "buf_bytes start n d = map (\<lambda>i. biosBuffer d (start + i)) [0..<n]"

text \<open>Called on \<^verbatim>\<open>biosBuffer\<close> and \<^verbatim>\<open>biosBufferSize\<close> only.\<close>

definition getBiosIdentifierFromBuffer :: "'s flash_drv \<Rightarrow> BiosIdentifier" where
  "getBiosIdentifierFromBuffer d =
    (if biosBufferSize d = ImageSize256KB
     then let seeker = bytes_BiosIdentifier
                (buf_bytes (unat ImageSize256KB - sizeof_BiosIdentifier) sizeof_BiosIdentifier d)
          in if take 9 (Name seeker) = PROG_NAME then seeker else blank_BiosIdentifier
     else blank_BiosIdentifier)"

definition HeaderVersionV1 :: u8 where "HeaderVersionV1 = 1"
definition HeaderVersionV2 :: u8 where "HeaderVersionV2 = 2"
definition Option1_SaveSettingsLocationBit :: u8 where "Option1_SaveSettingsLocationBit = 1"

definition getXBlastOSSettingStartingOffset :: "BiosIdentifier \<Rightarrow> u32" where
  "getXBlastOSSettingStartingOffset biosID =
    (if (HeaderVersion biosID = HeaderVersionV2 \<or> HeaderVersion biosID = HeaderVersionV1) \<and>
        take 9 (Name biosID) = PROG_NAME \<and>
        Option1 biosID AND Option1_SaveSettingsLocationBit \<noteq> 0
     then if ImageSize256KB \<le> BiosSize biosID then 0
          else if BiosSize biosID < 3 * FlashBlockSize_64KB then 3 * FlashBlockSize_64KB
          else (BiosSize biosID + FlashSectorSize_4KB - 1) mod FlashSectorSize_4KB
     else 0)"

definition calculateSettingsStructCRC32Value :: "u8 list \<Rightarrow> u32" where
  "calculateSettingsStructCRC32Value bs = crc32buf (take (sizeof_LPCmodSettings - 4) bs)"

definition injectSettingsInBuf :: "u32 \<Rightarrow> 's flash_drv \<Rightarrow> 's flash_drv option" where
  "injectSettingsInBuf offset d =
    (if offset \<noteq> 0
     then let settings = (LPCmodSettings d)
                \<lparr>crc32Value := calculateSettingsStructCRC32Value
                                 (settings_bytes (LPCmodSettings d))\<rparr>
          in if biosBufferSize d = 0 then None
             else buf_copy (unat (offset mod biosBufferSize d)) (settings_bytes settings)
                    (d\<lparr>LPCmodSettings := settings\<rparr>)
     else Some d)"

definition canWrite :: "u8 \<Rightarrow> u8 \<Rightarrow> bool" where
  "canWrite flashByte bufferByte \<longleftrightarrow> NOT flashByte AND bufferByte = 0"

definition getEraseMethodSize :: "'s flash_ops \<Rightarrow> 's flash_drv \<Rightarrow> u32" where
  "getEraseMethodSize ops d =
    (if m_support4KBErase (flashType (op_flashDevice ops (lowlevel d))) \<noteq> 0
     then case eraseSequenceMethod d of
            EraseSequenceMethod_Sector \<Rightarrow> FlashSectorSize_4KB
          | EraseSequenceMethod_Block \<Rightarrow> FlashBlockSize_64KB
          | EraseSequenceMethod_Chip \<Rightarrow> FlashChipSize_256KB
     else case eraseSequenceMethod d of
            EraseSequenceMethod_Sector \<Rightarrow> FlashBlockSize_64KB
          | EraseSequenceMethod_Block \<Rightarrow> FlashBlockSize_64KB
          | EraseSequenceMethod_Chip \<Rightarrow> FlashChipSize_256KB)"

definition evaluateReadBackRange :: "'s flash_ops \<Rightarrow> 's flash_drv \<Rightarrow> 's flash_drv" where
  "evaluateReadBackRange ops d =
    d\<lparr>startingOffset := startingOffset d AND NOT (getEraseMethodSize ops d - 1),
      biosBufferSize := getEraseMethodSize ops d, currentAddr := 0,
      currentFlashOp := FlashOp_ReadInProgress\<rparr>"

subsection \<open>The state machine\<close>

definition fsm_pending :: "'s flash_drv \<Rightarrow> 's flash_drv" where
  "fsm_pending d =
    (case currentFlashTask d of
       FlashTask_WriteBios \<Rightarrow> d\<lparr>currentFlashOp := FlashOp_EraseInProgress\<rparr>
     | FlashTask_ReadBios \<Rightarrow> d\<lparr>currentFlashOp := FlashOp_ReadInProgress\<rparr>
     | FlashTask_WriteSettings \<Rightarrow> d\<lparr>currentFlashOp := FlashOp_ReadInProgress\<rparr>
     | FlashTask_ReadSettings \<Rightarrow> d\<lparr>currentFlashOp := FlashOp_ReadInProgress\<rparr>
     | FlashTask_NoTask \<Rightarrow> d)"

text \<open>Byte under the cursor: read from the flash, and compared with the buffer.\<close>

definition flash_and_buffer ::
  "'s flash_ops \<Rightarrow> 's flash_drv \<Rightarrow> (u8 \<times> u8 \<times> 's flash_drv) option" where
  "flash_and_buffer ops d =
    do {
      (byteFromFlash, s) \<leftarrow> op_ReadByte ops (startingOffset d + currentAddr d) (lowlevel d);
      b \<leftarrow> buf_get d (unat (currentAddr d));
      Some (byteFromFlash, b, d\<lparr>lowlevel := s\<rparr>)
    }"

definition start_erase :: "'s flash_ops \<Rightarrow> 's flash_drv \<Rightarrow> 's flash_drv option" where
  "start_erase ops d =
    do {
      s \<leftarrow> (case eraseSequenceMethod d of
              EraseSequenceMethod_Sector \<Rightarrow>
                op_SectorErase ops (startingOffset d + currentAddr d) (lowlevel d)
            | EraseSequenceMethod_Block \<Rightarrow>
                op_BlockErase ops (startingOffset d + currentAddr d) (lowlevel d)
            | EraseSequenceMethod_Chip \<Rightarrow> op_ChipErase ops (lowlevel d));
      Some (d\<lparr>lowlevel := s, firstEraseTry := False\<rparr>)
    }"

text \<open>The second visit of the same byte when the chip hardly went busy: the erase command is
  taken to be unsupported and the next one is chosen. The flag says whether the caller returns
  at once.\<close>

definition next_erase_method :: "'s flash_ops \<Rightarrow> 's flash_drv \<Rightarrow> bool \<times> 's flash_drv" where
  "next_erase_method ops d0 =
    (let d = d0\<lparr>firstEraseTry := True, eraseBusyCount := 0\<rparr>
     in case eraseSequenceMethod d of
          EraseSequenceMethod_Sector \<Rightarrow>
            (let d1 = d\<lparr>eraseSequenceMethod :=
                   (if m_support4KBErase (flashType (op_flashDevice ops (lowlevel d))) \<noteq> 0
                    then EraseSequenceMethod_Block else EraseSequenceMethod_Chip)\<rparr>
             in if currentFlashTask d = FlashTask_WriteSettings
                then (True, evaluateReadBackRange ops d1) else (False, d1))
        | EraseSequenceMethod_Block \<Rightarrow>
            (let d1 = d\<lparr>eraseSequenceMethod := EraseSequenceMethod_Chip\<rparr>
             in if currentFlashTask d = FlashTask_WriteSettings
                then (True, evaluateReadBackRange ops d1) else (False, d1))
        | EraseSequenceMethod_Chip \<Rightarrow>
            (True, d\<lparr>currentFlashOp := FlashOp_Error,
                     flashErrorCode := FlashErrorcodes_FailedErase\<rparr>))"

definition fsm_erase_needed :: "'s flash_ops \<Rightarrow> 's flash_drv \<Rightarrow> 's flash_drv option" where
  "fsm_erase_needed ops d =
    (if \<not> firstEraseTry d \<and> eraseBusyCount d < EraseBusyCountMin
     then let (done, d1) = next_erase_method ops d
          in if done then Some d1 else start_erase ops d1
     else start_erase ops d)"

definition fsm_erase :: "'s flash_ops \<Rightarrow> 's flash_drv \<Rightarrow> 's flash_drv option" where
  "fsm_erase ops d =
    (let (busy, s) = op_DeviceIsBusy ops (lowlevel d); d1 = d\<lparr>lowlevel := s\<rparr>
     in if busy then Some (d1\<lparr>eraseBusyCount := eraseBusyCount d1 + 1\<rparr>)
        else do {
          (byteFromFlash, b, d2) \<leftarrow> flash_and_buffer ops d1;
          if canWrite byteFromFlash b
          then let d3 = d2\<lparr>currentAddr := currentAddr d2 + 1, firstEraseTry := True,
                            eraseBusyCount := 0\<rparr>
               in Some (if biosBufferSize d3 \<le> currentAddr d3
                        then d3\<lparr>currentFlashOp := FlashOp_WriteInProgress, currentAddr := 0\<rparr>
                        else d3)
          else fsm_erase_needed ops d2
        })"

definition fsm_write :: "'s flash_ops \<Rightarrow> 's flash_drv \<Rightarrow> 's flash_drv option" where
  "fsm_write ops d =
    (let (busy, s) = op_DeviceIsBusy ops (lowlevel d); d1 = d\<lparr>lowlevel := s\<rparr>
     in if busy then Some d1
        else if biosBufferSize d1 \<le> currentAddr d1
        then Some (d1\<lparr>currentFlashOp := FlashOp_VerifyInProgress, currentAddr := 0\<rparr>)
        else do {
          (byteFromFlash, b, d2) \<leftarrow> flash_and_buffer ops d1;
          s3 \<leftarrow> (if byteFromFlash \<noteq> b
                 then op_WriteByte ops b (startingOffset d2 + currentAddr d2) (lowlevel d2)
                 else Some (lowlevel d2));
          Some (d2\<lparr>lowlevel := s3, currentAddr := currentAddr d2 + 1\<rparr>)
        })"

definition fsm_verify :: "'s flash_ops \<Rightarrow> 's flash_drv \<Rightarrow> 's flash_drv option" where
  "fsm_verify ops d =
    (let (busy, s) = op_DeviceIsBusy ops (lowlevel d); d1 = d\<lparr>lowlevel := s\<rparr>
     in if busy then Some d1
        else if biosBufferSize d1 \<le> currentAddr d1
        then Some (d1\<lparr>currentFlashOp := FlashOp_Completed\<rparr>)
        else do {
          (byteFromFlash, b, d2) \<leftarrow> flash_and_buffer ops d1;
          if byteFromFlash = b then Some (d2\<lparr>currentAddr := currentAddr d2 + 1\<rparr>)
          else Some (d2\<lparr>currentFlashOp := FlashOp_Error,
                        flashErrorCode := FlashErrorcodes_FailedVerify\<rparr>)
        })"

definition fsm_read_done :: "'s flash_ops \<Rightarrow> 's flash_drv \<Rightarrow> 's flash_drv option" where
  "fsm_read_done ops d =
    (case currentFlashTask d of
       FlashTask_ReadBios \<Rightarrow> Some (d\<lparr>currentFlashOp := FlashOp_Completed\<rparr>)
     | FlashTask_ReadSettings \<Rightarrow> Some (d\<lparr>currentFlashOp := FlashOp_Completed\<rparr>)
     | FlashTask_WriteSettings \<Rightarrow>
         do {
           (biosID, d1) \<leftarrow> getBiosIdentifierFromFlash ops d;
           d2 \<leftarrow> injectSettingsInBuf (getXBlastOSSettingStartingOffset biosID) d1;
           Some (d2\<lparr>currentFlashOp := FlashOp_EraseInProgress\<rparr>)
         }
     | _ \<Rightarrow> Some d)"

definition fsm_read :: "'s flash_ops \<Rightarrow> 's flash_drv \<Rightarrow> 's flash_drv option" where
  "fsm_read ops d =
    (let (busy, s) = op_DeviceIsBusy ops (lowlevel d); d1 = d\<lparr>lowlevel := s\<rparr>
     in if busy then Some d1
        else do {
          (byteFromFlash, s2) \<leftarrow> op_ReadByte ops (startingOffset d1 + currentAddr d1) (lowlevel d1);
          d2 \<leftarrow> buf_set (unat (currentAddr d1)) byteFromFlash (d1\<lparr>lowlevel := s2\<rparr>);
          let d3 = d2\<lparr>currentAddr := currentAddr d2 + 1\<rparr>;
          if biosBufferSize d3 \<le> currentAddr d3
          then fsm_read_done ops (d3\<lparr>currentAddr := 0\<rparr>)
          else Some d3
        })"

definition Flash_executeFlashFSM :: "'s flash_ops \<Rightarrow> 's flash_drv \<Rightarrow> 's flash_drv option" where
  "Flash_executeFlashFSM ops d =
    (case currentFlashOp d of
       FlashOp_Idle \<Rightarrow> Some d
     | FlashOp_PendingOp \<Rightarrow> Some (fsm_pending d)
     | FlashOp_EraseInProgress \<Rightarrow> fsm_erase ops d
     | FlashOp_WriteInProgress \<Rightarrow> fsm_write ops d
     | FlashOp_VerifyInProgress \<Rightarrow> fsm_verify ops d
     | FlashOp_ReadInProgress \<Rightarrow> fsm_read ops d
     | FlashOp_Completed \<Rightarrow> Some d
     | FlashOp_Error \<Rightarrow> Some d)"

subsection \<open>Requests\<close>

definition Flash_freeFlashFSM :: "'s flash_drv \<Rightarrow> 's flash_drv" where
  "Flash_freeFlashFSM d =
    d\<lparr>biosBufferSize := 0, currentFlashOp := FlashOp_Idle,
      flashErrorCode := FlashErrorcodes_NoError, currentAddr := 0,
      currentFlashTask := FlashTask_NoTask, hw := switchOSBank FlashBank_OSBank (hw d)\<rparr>"

definition Flash_Init :: "'s flash_ops \<Rightarrow> 's flash_drv \<Rightarrow> 's flash_drv" where
  "Flash_Init ops d = Flash_freeFlashFSM (d\<lparr>lowlevel := op_Init ops (lowlevel d)\<rparr>)"

definition Flash_forceUserAbort :: "'s flash_drv \<Rightarrow> 's flash_drv" where
  "Flash_forceUserAbort d =
    d\<lparr>currentFlashTask := FlashTask_WriteBios, currentFlashOp := FlashOp_Error,
      flashErrorCode := FlashErrorcodes_UserAbort\<rparr>"

definition Flash_getProgress :: "'s flash_ops \<Rightarrow> 's flash_drv \<Rightarrow> FlashProgress" where
  "Flash_getProgress ops d =
    \<lparr>progressOp = currentFlashOp d, progressTask = currentFlashTask d,
     progressInPercent = (if biosBufferSize d = 0 then 0
                          else op_percent ops (currentAddr d + 1) (biosBufferSize d)),
     progressError = flashErrorCode d\<rparr>"

text \<open>The structure is returned without its task, which the code leaves unset; the output pointer
  is set exactly when the operation is \<^verbatim>\<open>FlashOp_Completed\<close>.\<close>

definition Flash_ReadDeviceInfo ::
  "'s flash_ops \<Rightarrow> 's flash_drv \<Rightarrow>
     ((FlashOp \<times> FlashErrorcodes \<times> u8 \<times> OBJECT_FLASH option) \<times> 's flash_drv) option" where
  "Flash_ReadDeviceInfo ops d =
    (if currentFlashOp d = FlashOp_Idle
     then do {
       (found, s) \<leftarrow> op_ReadDevice ops (lowlevel d);
       let d1 = Flash_freeFlashFSM (d\<lparr>lowlevel := s\<rparr>);
       Some (if found
             then ((FlashOp_Completed, FlashErrorcodes_NoError, 100, Some (op_flashDevice ops s)), d1)
             else ((FlashOp_Error, FlashErrorcodes_UnknownFlash, 0, None), d1))
     }
     else Some ((FlashOp_Error, FlashErrorcodes_UnknownFlash, 0, None), Flash_freeFlashFSM d))"

definition read_size :: "'s flash_ops \<Rightarrow> FlashBank \<Rightarrow> 's flash_drv \<Rightarrow> u32" where
  "read_size ops bank d =
    (if bank = FlashBank_OSBank \<or> bank = FlashBank_256Bank then ImageSize256KB
     else if bank = FlashBank_512Bank \<or> bank = FlashBank_SplitTSOP0Bank \<or>
             bank = FlashBank_SplitTSOP1Bank then ImageSize512KB
     else device_length ops d)"

definition Flash_ReadBIOSBank ::
  "'s flash_ops \<Rightarrow> FlashBank \<Rightarrow> 's flash_drv \<Rightarrow> (FlashProgress \<times> 's flash_drv) option" where
  "Flash_ReadBIOSBank ops bank d =
    do {
      d2 \<leftarrow> (if currentFlashOp d = FlashOp_Idle
             then do {
               (found, s) \<leftarrow> op_ReadDevice ops (lowlevel d);
               let d1 = d\<lparr>lowlevel := s\<rparr>;
               Some (if found
                     then d1\<lparr>currentFlashOp := FlashOp_PendingOp,
                             currentFlashTask := FlashTask_ReadBios,
                             biosBufferSize := read_size ops bank d1, startingOffset := 0\<rparr>
                     else d1)
             }
             else Some d);
      Some (Flash_getProgress ops d2, d2)
    }"

definition checkImageSize :: "'s flash_ops \<Rightarrow> u32 \<Rightarrow> 's flash_drv \<Rightarrow> FlashErrorcodes" where
  "checkImageSize ops sz d =
    (if 0 < sz \<and> sz \<le> device_length ops d \<and> sz mod 256 * 1024 = 0
     then FlashErrorcodes_NoError else FlashErrorcodes_FileSizeError)"

definition mirror_target :: "'s flash_ops \<Rightarrow> FlashBank \<Rightarrow> 's flash_drv \<Rightarrow> u32" where
  "mirror_target ops bank d =
    (if bank = FlashBank_512Bank \<or> bank = FlashBank_SplitTSOP0Bank \<or>
        bank = FlashBank_SplitTSOP1Bank then ImageSize512KB
     else if bank = FlashBank_FullTSOPBank \<or> bank = FlashBank_NoBank then device_length ops d
     else ImageSize256KB)"

text \<open>The doubling loop of \<^verbatim>\<open>mirrorimage\<close>; a round that would leave the buffer is \<^verbatim>\<open>None\<close>. The size
  doubles in every round, so 33 rounds end it unless it starts at 0 and never grows.\<close>

fun mirror_loop :: "nat \<Rightarrow> u32 \<Rightarrow> 's flash_drv \<Rightarrow> 's flash_drv option" where
  "mirror_loop 0 targetSize d = None"
| "mirror_loop (Suc fuel) targetSize d =
    (if biosBufferSize d < targetSize
     then if 2 * unat (biosBufferSize d) \<le> biosBuffer_len
          then mirror_loop fuel targetSize
                 (d\<lparr>biosBuffer := (\<lambda>i. if unat (biosBufferSize d) \<le> i \<and>
                                          i < 2 * unat (biosBufferSize d)
                                       then biosBuffer d (i - unat (biosBufferSize d))
                                       else biosBuffer d i),
                    biosBufferSize := biosBufferSize d + biosBufferSize d\<rparr>)
          else None
     else Some d)"

definition mirrorimage :: "'s flash_ops \<Rightarrow> FlashBank \<Rightarrow> 's flash_drv \<Rightarrow> 's flash_drv option" where
  "mirrorimage ops bank d = mirror_loop 33 (mirror_target ops bank d) d"

text \<open>\<^verbatim>\<open>buf\<close> is the caller's memory from the pointer on; \<^verbatim>\<open>None\<close> when \<^verbatim>\<open>sz\<close> reaches past it.\<close>

definition Flash_WriteBios ::
  "'s flash_ops \<Rightarrow> u8 list \<Rightarrow> u32 \<Rightarrow> u32 \<Rightarrow> FlashBank \<Rightarrow> 's flash_drv \<Rightarrow>
     (FlashErrorcodes \<times> 's flash_drv) option" where
  "Flash_WriteBios ops buf sz offset flashBank d =
    (if currentFlashOp d = FlashOp_Idle
     then do {
       (found, s) \<leftarrow> op_ReadDevice ops (lowlevel d);
       let d1 = d\<lparr>lowlevel := s\<rparr>;
       if found
       then let d2 = d1\<lparr>flashErrorCode := checkImageSize ops sz d1\<rparr>
            in if flashErrorCode d2 = FlashErrorcodes_NoError
               then if unat sz \<le> length buf
                    then do {
                      d3 \<leftarrow> buf_copy 0 (take (unat sz) buf)
                        (d2\<lparr>eraseSequenceMethod := EraseSequenceMethod_Sector, eraseBusyCount := 0,
                            firstEraseTry := True, currentFlashOp := FlashOp_PendingOp,
                            currentFlashTask := FlashTask_WriteBios, biosBufferSize := sz,
                            startingOffset := offset\<rparr>);
                      d4 \<leftarrow> mirrorimage ops flashBank d3;
                      Some (flashErrorCode d4, d4)
                    }
                    else None
               else Some (flashErrorCode d2, d2)
       else Some (FlashErrorcodes_UndefinedError, d1)
     }
     else Some (FlashErrorcodes_UndefinedError, d))"

definition validateOSImage :: "u8 list \<Rightarrow> u32 \<Rightarrow> FlashErrorcodes option" where
  "validateOSImage inBuf sz =
    (if sz \<noteq> ImageSize256KB then Some FlashErrorcodes_FileSizeError
     else if length inBuf < unat sz then None
     else let biosID = bytes_BiosIdentifier
                (chunk (unat sz - sizeof_BiosIdentifier) sizeof_BiosIdentifier inBuf)
          in if take 9 (Name biosID) \<noteq> PROG_NAME then Some FlashErrorcodes_InvalidUpdateFile
             else if HeaderVersion biosID \<noteq> HeaderVersionV2 \<and> HeaderVersion biosID \<noteq> HeaderVersionV1
             then Some FlashErrorcodes_InvalidUpdateFile
             else let md5Size = (if HeaderVersion biosID = HeaderVersionV2 then BiosSize biosID
                                 else ImageSize256KB - FlashSectorSize_4KB);
                      exitCode = (if HeaderVersion biosID = HeaderVersionV2
                                  then FlashErrorcodes_NoError
                                  else FlashErrorcodes_DowngradeWarning)
                  in if length inBuf < unat md5Size then None
                     else let md5result = fst (MD5Final (MD5Update (take (unat md5Size) inBuf)
                                                 (MD5Init md5_ctx0)))
                          in Some (if md5result \<noteq> MD5Hash biosID then FlashErrorcodes_MD5Mismatch
                                   else exitCode))"

definition Flash_XBlastOSBankFlash ::
  "'s flash_ops \<Rightarrow> u8 list \<Rightarrow> u32 \<Rightarrow> u32 \<Rightarrow> bool \<Rightarrow> 's flash_drv \<Rightarrow>
     (FlashProgress \<times> 's flash_drv) option" where
  "Flash_XBlastOSBankFlash ops inBuf sz offset overrideChecks d =
    do {
      code \<leftarrow> (if overrideChecks then Some (flashErrorCode d) else validateOSImage inBuf sz);
      let d1 = d\<lparr>flashErrorCode := code\<rparr>;
      d4 \<leftarrow> (if code = FlashErrorcodes_NoError
             then do {
               (code2, d2) \<leftarrow> Flash_WriteBios ops inBuf sz offset FlashBank_OSBank d1;
               let d3 = d2\<lparr>flashErrorCode := code2\<rparr>;
               if code2 = FlashErrorcodes_NoError
               then injectSettingsInBuf
                      (getXBlastOSSettingStartingOffset (getBiosIdentifierFromBuffer d3)) d3
               else Some d3
             }
             else Some d1);
      Some (Flash_getProgress ops d4, d4)
    }"

definition Flash_XBlastUserBankFlash ::
  "'s flash_ops \<Rightarrow> u8 list \<Rightarrow> u32 \<Rightarrow> u32 \<Rightarrow> FlashBank \<Rightarrow> 's flash_drv \<Rightarrow>
     (FlashProgress \<times> 's flash_drv) option" where
  "Flash_XBlastUserBankFlash ops inBuf sz offset bank d =
    do {
      (code, d1) \<leftarrow> Flash_WriteBios ops inBuf sz offset bank d;
      let d2 = d1\<lparr>flashErrorCode := code\<rparr>;
      Some (Flash_getProgress ops d2, d2)
    }"

definition Flash_SimpleBIOSBankFlash ::
  "'s flash_ops \<Rightarrow> u8 list \<Rightarrow> u32 \<Rightarrow> u32 \<Rightarrow> 's flash_drv \<Rightarrow>
     (FlashProgress \<times> 's flash_drv) option" where
  "Flash_SimpleBIOSBankFlash ops inBuf sz offset d =
    Flash_XBlastUserBankFlash ops inBuf sz offset FlashBank_NoBank d"

definition Flash_ReadXBlastOSSettingsRequest ::
  "'s flash_ops \<Rightarrow> 's flash_drv \<Rightarrow> (FlashProgress \<times> 's flash_drv) option" where
  "Flash_ReadXBlastOSSettingsRequest ops d =
    do {
      d4 \<leftarrow> (if currentFlashOp d = FlashOp_Idle
             then do {
               (found, s) \<leftarrow> op_ReadDevice ops (lowlevel d);
               if found \<or> isXecuter3 (hw d)
               then do {
                 let d1 = d\<lparr>lowlevel := s, currentFlashOp := FlashOp_PendingOp,
                            currentFlashTask := FlashTask_ReadSettings,
                            hw := switchOSBank FlashBank_OSBank (hw d),
                            biosBufferSize := word_of_nat sizeof_LPCmodSettings\<rparr>;
                 (biosID, d2) \<leftarrow> getBiosIdentifierFromFlash ops d1;
                 let d3 = d2\<lparr>startingOffset := getXBlastOSSettingStartingOffset biosID\<rparr>;
                 if startingOffset d3 = 0
                 then buf_set 0 0xff (d3\<lparr>currentFlashOp := FlashOp_Completed\<rparr>)
                 else Some d3
               }
               else Some (d\<lparr>lowlevel := s, currentFlashOp := FlashOp_Error\<rparr>)
             }
             else Some d);
      Some (Flash_getProgress ops d4, d4)
    }"

text \<open>\<^verbatim>\<open>Flash_LoadXBlastOSSettings\<close> fills the structure its argument points to: the second
  component. \<^verbatim>\<open>vga\<close> is the build option of the defaults.\<close>

definition Flash_LoadXBlastOSSettings :: "bool \<Rightarrow> 's flash_drv \<Rightarrow> bool \<times> LPCmodSettings_t" where
  "Flash_LoadXBlastOSSettings vga d =
    (let seeker = buf_bytes 0 sizeof_LPCmodSettings d
     in if currentFlashOp d = FlashOp_Completed \<and> currentFlashTask d = FlashTask_ReadSettings \<and>
           seeker ! 0 = CurrentSettingsVersionNumber \<and>
           calculateSettingsStructCRC32Value seeker = bytes_u32 (chunk (sizeof_LPCmodSettings - 4) 4 seeker)
        then (True, bytes_settings seeker)
        else (False, populateSettingsStructWithDefault vga (hw d)))"

text \<open>The polling loop of \<^verbatim>\<open>bootReadXBlastOSSettings\<close>; \<^verbatim>\<open>cromwellLoop\<close> always returns 1. The bound
  counts its rounds, and \<^verbatim>\<open>None\<close> also stands for a loop that has not ended by then.\<close>

fun boot_settings_loop :: "nat \<Rightarrow> 's flash_ops \<Rightarrow> 's flash_drv \<Rightarrow> 's flash_drv option" where
  "boot_settings_loop 0 ops d = None"
| "boot_settings_loop (Suc fuel) ops d =
    (if currentFlashOp d = FlashOp_Completed \<or> currentFlashOp d = FlashOp_Error then Some d
     else do {
       d1 \<leftarrow> Flash_executeFlashFSM ops d;
       boot_settings_loop fuel ops d1
     })"

definition bootReadXBlastOSSettings ::
  "nat \<Rightarrow> bool \<Rightarrow> 's flash_ops \<Rightarrow> 's flash_drv \<Rightarrow> (bool \<times> 's flash_drv) option" where
  "bootReadXBlastOSSettings fuel vga ops d =
    do {
      (progress, d1) \<leftarrow> Flash_ReadXBlastOSSettingsRequest ops
        (d\<lparr>LPCmodSettings := populateSettingsStructWithDefault vga (hw d)\<rparr>);
      d2 \<leftarrow> boot_settings_loop fuel ops d1;
      let (ok, settings) = Flash_LoadXBlastOSSettings vga d2;
      Some (ok, Flash_freeFlashFSM (d2\<lparr>LPCmodSettings := settings,
                                       LPCmodSettingsOrigFromFlash := settings\<rparr>))
    }"

definition Flash_SaveXBlastOSSettings ::
  "'s flash_ops \<Rightarrow> 's flash_drv \<Rightarrow> (FlashProgress \<times> 's flash_drv) option" where
  "Flash_SaveXBlastOSSettings ops d =
    do {
      d4 \<leftarrow> (if currentFlashOp d = FlashOp_Idle
             then do {
               (found, s) \<leftarrow> op_ReadDevice ops (lowlevel d);
               let d1 = d\<lparr>lowlevel := s\<rparr>;
               if found
               then do {
                 (biosID, d2) \<leftarrow> getBiosIdentifierFromFlash ops d1;
                 let d3 = d2\<lparr>startingOffset := getXBlastOSSettingStartingOffset biosID\<rparr>;
                 Some (if startingOffset d3 \<noteq> 0
                       then let d4 = d3\<lparr>eraseSequenceMethod := EraseSequenceMethod_Sector,
                                         eraseBusyCount := 0, firstEraseTry := True\<rparr>
                            in d4\<lparr>biosBufferSize := getEraseMethodSize ops d4,
                                  currentFlashOp := FlashOp_PendingOp,
                                  currentFlashTask := FlashTask_WriteSettings\<rparr>
                       else d3\<lparr>currentFlashOp := FlashOp_Error,
                               flashErrorCode := FlashErrorcodes_FlashContentError\<rparr>)
               }
               else Some (d1\<lparr>currentFlashOp := FlashOp_Error,
                             flashErrorCode := (if isXecuter3 (hw d1)
                                                then FlashErrorcodes_WriteProtect
                                                else FlashErrorcodes_UnknownFlash)\<rparr>)
             }
             else Some d);
      Some (Flash_getProgress ops d4, d4)
    }"

end
