(* ===== verification/Flash_Contract.thy ===== *)
theory Flash_Contract
  imports FlashDriver
begin

text \<open>
  What the flash driver may rely on. \<^verbatim>\<open>flash_reader\<close> is the contract of polling and reading: a
  device that answers ``not busy'' is ready, and a ready device reads as its memory. Nothing is
  said about erasing and writing but that they keep the device's invariant. Inside it, a write
  that ends in \<^verbatim>\<open>FlashOp_Completed\<close> has put the image into the flash, however badly the erase and
  write commands worked on the way.
\<close>

fun fsm_run :: "nat \<Rightarrow> 's flash_ops \<Rightarrow> 's flash_drv \<Rightarrow> 's flash_drv option" where
  "fsm_run 0 ops d = Some d"
| "fsm_run (Suc n) ops d = do { d1 \<leftarrow> Flash_executeFlashFSM ops d; fsm_run n ops d1 }"

lemma fsm_run_add: "fsm_run (m + n) ops d = do { d1 \<leftarrow> fsm_run m ops d; fsm_run n ops d1 }"
proof (induction m arbitrary: d)
  case (Suc m)
  then show ?case by (cases "Flash_executeFlashFSM ops d") simp_all
qed simp

lemma fsm_run_trans:
  "fsm_run m ops d = Some d1 \<Longrightarrow> fsm_run n ops d1 = Some d2 \<Longrightarrow> fsm_run (m + n) ops d = Some d2"
  by (simp add: fsm_run_add)

text \<open>The bytes of the buffer up to \<^verbatim>\<open>n\<close> are in the flash from \<^verbatim>\<open>startingOffset\<close> on.\<close>

definition image_in :: "('s \<Rightarrow> nat \<Rightarrow> u8) \<Rightarrow> nat \<Rightarrow> 's flash_drv \<Rightarrow> bool" where
  "image_in mem n d \<longleftrightarrow>
     (\<forall>i < n. mem (lowlevel d) (unat (startingOffset d) + i) = biosBuffer d i)"

text \<open>The range to be written lies inside the device and inside the buffer.\<close>

definition fits :: "nat \<Rightarrow> 's flash_drv \<Rightarrow> bool" where
  "fits len d \<longleftrightarrow> unat (startingOffset d) + unat (biosBufferSize d) \<le> len \<and> len \<le> 2 ^ 32 \<and>
     unat (biosBufferSize d) \<le> biosBuffer_len \<and> 0 < biosBufferSize d"

definition same_job :: "'s flash_drv \<Rightarrow> 's flash_drv \<Rightarrow> bool" where
  "same_job d d' \<longleftrightarrow> startingOffset d' = startingOffset d \<and> biosBufferSize d' = biosBufferSize d \<and>
     biosBuffer d' = biosBuffer d \<and> currentFlashTask d' = currentFlashTask d"

lemma same_job_refl [simp]: "same_job d d"
  by (simp add: same_job_def)

lemma same_job_trans: "same_job d d' \<Longrightarrow> same_job d' d'' \<Longrightarrow> same_job d d''"
  by (simp add: same_job_def)

lemma fits_same_job: "same_job d d' \<Longrightarrow> fits len d' = fits len d"
  by (simp add: fits_def same_job_def)

text \<open>The invariant of a BIOS write.\<close>

definition write_inv ::
  "('s \<Rightarrow> nat \<Rightarrow> u8) \<Rightarrow> nat \<Rightarrow> ('s \<Rightarrow> bool) \<Rightarrow> 's flash_drv \<Rightarrow> bool" where
  "write_inv mem len ok d \<longleftrightarrow> ok (lowlevel d) \<and> fits len d \<and> currentFlashTask d = FlashTask_WriteBios \<and>
     currentFlashOp d \<noteq> FlashOp_ReadInProgress \<and>
     (currentFlashOp d \<in> {FlashOp_PendingOp, FlashOp_EraseInProgress} \<longrightarrow>
        currentAddr d < biosBufferSize d) \<and>
     (currentFlashOp d \<in> {FlashOp_WriteInProgress, FlashOp_VerifyInProgress} \<longrightarrow>
        currentAddr d \<le> biosBufferSize d) \<and>
     (currentFlashOp d = FlashOp_VerifyInProgress \<longrightarrow> image_in mem (unat (currentAddr d)) d) \<and>
     (currentFlashOp d = FlashOp_Completed \<longrightarrow> image_in mem (unat (biosBufferSize d)) d)"

lemma unat_cursor:
  assumes "fits len d" and "currentAddr d < biosBufferSize d"
  shows "unat (startingOffset d + currentAddr d) = unat (startingOffset d) + unat (currentAddr d)"
    and "unat (startingOffset d) + unat (currentAddr d) < len"
    and "unat (currentAddr d) < biosBuffer_len"
    and "unat (currentAddr d + 1) = unat (currentAddr d) + 1"
proof -
  have c: "unat (currentAddr d) < unat (biosBufferSize d)"
    using assms(2) by (simp add: word_less_nat_alt)
  then show "unat (startingOffset d) + unat (currentAddr d) < len" "unat (currentAddr d) < biosBuffer_len"
    using assms(1) by (simp_all add: fits_def)
  have "unat (startingOffset d) + unat (currentAddr d) < 2 ^ 32"
    using c assms(1) by (simp add: fits_def)
  then show "unat (startingOffset d + currentAddr d) = unat (startingOffset d) + unat (currentAddr d)"
    by (simp add: unat_word_ariths)
  show "unat (currentAddr d + 1) = unat (currentAddr d) + 1"
    using c unat_u32_less [of "biosBufferSize d"] by (simp add: unat_word_ariths)
qed

text \<open>One step of each phase, once the answer of the poll and of the cursor read are known.\<close>

lemma fsm_erase_busy:
  "op_DeviceIsBusy ops (lowlevel d) = (True, s) \<Longrightarrow>
     fsm_erase ops d = Some (d\<lparr>lowlevel := s, eraseBusyCount := eraseBusyCount d + 1\<rparr>)"
  by (simp add: fsm_erase_def)

lemma fsm_erase_idle:
  assumes "op_DeviceIsBusy ops (lowlevel d) = (False, s)"
    "flash_and_buffer ops (d\<lparr>lowlevel := s\<rparr>) = Some (f, b, d\<lparr>lowlevel := s2\<rparr>)"
  shows "fsm_erase ops d =
    (if canWrite f b
     then Some (if biosBufferSize d \<le> currentAddr d + 1
                then d\<lparr>lowlevel := s2, firstEraseTry := True, eraseBusyCount := 0,
                       currentFlashOp := FlashOp_WriteInProgress, currentAddr := 0\<rparr>
                else d\<lparr>lowlevel := s2, firstEraseTry := True, eraseBusyCount := 0,
                       currentAddr := currentAddr d + 1\<rparr>)
     else fsm_erase_needed ops (d\<lparr>lowlevel := s2\<rparr>))"
  using assms by (simp add: fsm_erase_def Let_def)

lemma fsm_write_busy:
  "op_DeviceIsBusy ops (lowlevel d) = (True, s) \<Longrightarrow> fsm_write ops d = Some (d\<lparr>lowlevel := s\<rparr>)"
  by (simp add: fsm_write_def)

lemma fsm_write_done:
  "op_DeviceIsBusy ops (lowlevel d) = (False, s) \<Longrightarrow> biosBufferSize d \<le> currentAddr d \<Longrightarrow>
     fsm_write ops d =
       Some (d\<lparr>lowlevel := s, currentFlashOp := FlashOp_VerifyInProgress, currentAddr := 0\<rparr>)"
  by (simp add: fsm_write_def)

lemma fsm_write_byte:
  assumes "op_DeviceIsBusy ops (lowlevel d) = (False, s)" "currentAddr d < biosBufferSize d"
    "flash_and_buffer ops (d\<lparr>lowlevel := s\<rparr>) = Some (f, b, d\<lparr>lowlevel := s2\<rparr>)"
  shows "fsm_write ops d =
    map_option (\<lambda>s3. d\<lparr>lowlevel := s3, currentAddr := currentAddr d + 1\<rparr>)
      (if f = b then Some s2 else op_WriteByte ops b (startingOffset d + currentAddr d) s2)"
  using assms
  by (cases "op_WriteByte ops b (startingOffset d + currentAddr d) s2")
     (simp_all add: fsm_write_def Let_def not_le [symmetric])

lemma fsm_verify_busy:
  "op_DeviceIsBusy ops (lowlevel d) = (True, s) \<Longrightarrow> fsm_verify ops d = Some (d\<lparr>lowlevel := s\<rparr>)"
  by (simp add: fsm_verify_def)

lemma fsm_verify_done:
  "op_DeviceIsBusy ops (lowlevel d) = (False, s) \<Longrightarrow> biosBufferSize d \<le> currentAddr d \<Longrightarrow>
     fsm_verify ops d = Some (d\<lparr>lowlevel := s, currentFlashOp := FlashOp_Completed\<rparr>)"
  by (simp add: fsm_verify_def)

lemma fsm_verify_byte:
  assumes "op_DeviceIsBusy ops (lowlevel d) = (False, s)" "currentAddr d < biosBufferSize d"
    "flash_and_buffer ops (d\<lparr>lowlevel := s\<rparr>) = Some (f, b, d\<lparr>lowlevel := s2\<rparr>)"
  shows "fsm_verify ops d =
    Some (if f = b then d\<lparr>lowlevel := s2, currentAddr := currentAddr d + 1\<rparr>
          else d\<lparr>lowlevel := s2, currentFlashOp := FlashOp_Error,
                 flashErrorCode := FlashErrorcodes_FailedVerify\<rparr>)"
  using assms by (simp add: fsm_verify_def Let_def not_le [symmetric])

locale flash_reader =
  fixes ops :: "'s flash_ops"
    and mem :: "'s \<Rightarrow> nat \<Rightarrow> u8"
    and len :: nat
    and ok :: "'s \<Rightarrow> bool"
    and ready :: "'s \<Rightarrow> bool"
  assumes poll: "ok s \<Longrightarrow> op_DeviceIsBusy ops s = (b, s') \<Longrightarrow>
      ok s' \<and> mem s' = mem s \<and> (\<not> b \<longrightarrow> ready s')"
    and read: "ok s \<Longrightarrow> ready s \<Longrightarrow> unat a < len \<Longrightarrow>
      \<exists>s'. op_ReadByte ops a s = Some (mem s (unat a), s') \<and> ok s' \<and> ready s' \<and> mem s' = mem s"
    and write_ok: "ok s \<Longrightarrow> ready s \<Longrightarrow> op_WriteByte ops v a s = Some s' \<Longrightarrow> ok s'"
    and sector_ok: "ok s \<Longrightarrow> ready s \<Longrightarrow> op_SectorErase ops a s = Some s' \<Longrightarrow> ok s'"
    and block_ok: "ok s \<Longrightarrow> ready s \<Longrightarrow> op_BlockErase ops a s = Some s' \<Longrightarrow> ok s'"
    and chip_ok: "ok s \<Longrightarrow> ready s \<Longrightarrow> op_ChipErase ops s = Some s' \<Longrightarrow> ok s'"
begin

lemma poll_cases:
  assumes "ok s0"
  obtains s where "op_DeviceIsBusy ops s0 = (True, s)" "ok s" "mem s = mem s0"
  | s where "op_DeviceIsBusy ops s0 = (False, s)" "ok s" "ready s" "mem s = mem s0"
  using poll [OF assms] by (cases "op_DeviceIsBusy ops s0"; cases "fst (op_DeviceIsBusy ops s0)") auto

lemma cursor_read:
  assumes "ok s" "ready s" "fits len d" "currentAddr d < biosBufferSize d"
  obtains s2 where "flash_and_buffer ops (d\<lparr>lowlevel := s\<rparr>) =
      Some (mem s (unat (startingOffset d) + unat (currentAddr d)),
            biosBuffer d (unat (currentAddr d)), d\<lparr>lowlevel := s2\<rparr>)"
    and "ok s2" "ready s2" "mem s2 = mem s"
  using read [OF assms(1,2), of "startingOffset d + currentAddr d"] unat_cursor [OF assms(3,4)]
  by (auto simp: flash_and_buffer_def buf_get_def)

lemma start_erase_ok:
  assumes "ok (lowlevel d)" "ready (lowlevel d)" "start_erase ops d = Some d'"
  shows "ok (lowlevel d') \<and> same_job d d' \<and> currentFlashOp d' = currentFlashOp d \<and>
    currentAddr d' = currentAddr d"
  using assms
  by (auto simp: start_erase_def bind_eq_Some_conv same_job_def
      intro: sector_ok block_ok chip_ok split: EraseSequenceMethod.splits)

lemma next_method_job:
  assumes "currentFlashTask d = FlashTask_WriteBios" "next_erase_method ops d = (stop, d')"
  shows "same_job d d'" "lowlevel d' = lowlevel d" "currentAddr d' = currentAddr d"
    "currentFlashOp d' = (if stop then FlashOp_Error else currentFlashOp d)"
  using assms
  by (auto simp: next_erase_method_def same_job_def Let_def split: EraseSequenceMethod.splits)

lemma erase_needed_inv:
  assumes "write_inv mem len ok d" "currentFlashOp d = FlashOp_EraseInProgress" "ready (lowlevel d)"
    "fsm_erase_needed ops d = Some d'"
  shows "write_inv mem len ok d' \<and> same_job d d'"
proof (cases "\<not> firstEraseTry d \<and> eraseBusyCount d < EraseBusyCountMin")
  case True
  obtain stop d1 where n: "next_erase_method ops d = (stop, d1)" by (meson surj_pair)
  note job = next_method_job [OF _ n]
  show ?thesis
  proof (cases stop)
    case True
    then show ?thesis using \<open>\<not> firstEraseTry d \<and> _\<close> assms job n
      by (auto simp: fsm_erase_needed_def write_inv_def fits_same_job) (simp_all add: same_job_def)
  next
    case False
    then have "start_erase ops d1 = Some d'"
      using \<open>\<not> firstEraseTry d \<and> _\<close> assms n by (simp add: fsm_erase_needed_def)
    then show ?thesis
      using start_erase_ok [of d1 d'] assms job False same_job_trans [of d d1 d']
      by (auto simp: write_inv_def fits_same_job) (simp_all add: same_job_def)
  qed
next
  case False
  then show ?thesis
    using assms start_erase_ok [of d d']
    by (auto simp: fsm_erase_needed_def write_inv_def fits_same_job) (simp_all add: same_job_def)
qed

lemma erase_inv:
  assumes "write_inv mem len ok d" "currentFlashOp d = FlashOp_EraseInProgress"
    "fsm_erase ops d = Some d'"
  shows "write_inv mem len ok d' \<and> same_job d d'"
proof -
  have d: "ok (lowlevel d)" "fits len d" "currentAddr d < biosBufferSize d"
      "currentFlashTask d = FlashTask_WriteBios"
    using assms by (simp_all add: write_inv_def)
  show ?thesis
  proof (cases rule: poll_cases [OF d(1)])
    case (1 s)
    then show ?thesis using assms d
      by (auto simp: fsm_erase_busy write_inv_def fits_def same_job_def)
  next
    case (2 s)
    let ?d1 = "d\<lparr>lowlevel := s\<rparr>"
    from cursor_read [OF 2(2,3) d(2,3)] obtain s2 where r: "flash_and_buffer ops ?d1 =
        Some (mem s (unat (startingOffset d) + unat (currentAddr d)),
              biosBuffer d (unat (currentAddr d)), d\<lparr>lowlevel := s2\<rparr>)"
        and s2: "ok s2" "ready s2" .
    let ?d2 = "d\<lparr>lowlevel := s2\<rparr>"
    have inv2: "write_inv mem len ok ?d2" using assms(1,2) s2 by (simp add: write_inv_def fits_def)
    show ?thesis
    proof (cases "canWrite (mem s (unat (startingOffset d) + unat (currentAddr d)))
                    (biosBuffer d (unat (currentAddr d)))")
      case True
      then show ?thesis using assms s2 d fsm_erase_idle [OF 2(1) r]
        by (auto simp: write_inv_def fits_def same_job_def not_le split: if_splits)
    next
      case False
      then have "fsm_erase_needed ops ?d2 = Some d'" using assms fsm_erase_idle [OF 2(1) r] by simp
      from erase_needed_inv [OF inv2 _ _ this] show ?thesis using assms(2) s2
        by (simp add: same_job_def)
    qed
  qed
qed

lemma write_phase_inv:
  assumes "write_inv mem len ok d" "currentFlashOp d = FlashOp_WriteInProgress"
    "fsm_write ops d = Some d'"
  shows "write_inv mem len ok d' \<and> same_job d d'"
proof -
  have d: "ok (lowlevel d)" "fits len d" "currentFlashTask d = FlashTask_WriteBios"
    using assms by (simp_all add: write_inv_def)
  show ?thesis
  proof (cases rule: poll_cases [OF d(1)])
    case (1 s)
    then show ?thesis using assms
      by (auto simp: fsm_write_busy write_inv_def fits_def same_job_def)
  next
    case (2 s)
    let ?d1 = "d\<lparr>lowlevel := s\<rparr>"
    show ?thesis
    proof (cases "currentAddr d < biosBufferSize d")
      case True
      from cursor_read [OF 2(2,3) d(2) True] obtain s2 where r: "flash_and_buffer ops ?d1 =
          Some (mem s (unat (startingOffset d) + unat (currentAddr d)),
                biosBuffer d (unat (currentAddr d)), d\<lparr>lowlevel := s2\<rparr>)"
          and s2: "ok s2" "ready s2" .
      have "currentAddr d + 1 \<le> biosBufferSize d"
        using True by (simp add: inc_le)
      then show ?thesis using assms s2 fsm_write_byte [OF 2(1) True r]
        by (auto simp: write_inv_def fits_def same_job_def intro: write_ok split: if_splits)
    next
      case False
      then show ?thesis using assms 2
        by (auto simp: fsm_write_done write_inv_def fits_def same_job_def not_less image_in_def)
    qed
  qed
qed

lemma verify_inv:
  assumes "write_inv mem len ok d" "currentFlashOp d = FlashOp_VerifyInProgress"
    "fsm_verify ops d = Some d'"
  shows "write_inv mem len ok d' \<and> same_job d d'"
proof -
  have d: "ok (lowlevel d)" "fits len d" "image_in mem (unat (currentAddr d)) d"
      "currentAddr d \<le> biosBufferSize d"
    using assms by (simp_all add: write_inv_def)
  show ?thesis
  proof (cases rule: poll_cases [OF d(1)])
    case (1 s)
    then show ?thesis using assms
      by (auto simp: fsm_verify_busy write_inv_def fits_def same_job_def image_in_def)
  next
    case (2 s)
    let ?d1 = "d\<lparr>lowlevel := s\<rparr>"
    show ?thesis
    proof (cases "currentAddr d < biosBufferSize d")
      case True
      from cursor_read [OF 2(2,3) d(2) True] obtain s2 where r: "flash_and_buffer ops ?d1 =
          Some (mem s (unat (startingOffset d) + unat (currentAddr d)),
                biosBuffer d (unat (currentAddr d)), d\<lparr>lowlevel := s2\<rparr>)"
          and s2: "ok s2" "ready s2" "mem s2 = mem s" .
      have "currentAddr d + 1 \<le> biosBufferSize d" using True by (simp add: inc_le)
      then show ?thesis
        using assms 2(4) s2 d(3) unat_cursor(4) [OF d(2) True] fsm_verify_byte [OF 2(1) True r]
        by (auto simp: write_inv_def fits_def same_job_def image_in_def less_Suc_eq split: if_splits)
    next
      case False
      then have "currentAddr d = biosBufferSize d" using d(4) by simp
      then show ?thesis using assms 2 d(3)
        by (auto simp: fsm_verify_done write_inv_def fits_def same_job_def image_in_def)
    qed
  qed
qed

lemma step_inv:
  assumes "write_inv mem len ok d" "Flash_executeFlashFSM ops d = Some d'"
  shows "write_inv mem len ok d' \<and> same_job d d'"
proof (cases "currentFlashOp d")
  case FlashOp_PendingOp
  then show ?thesis using assms
    by (auto simp: Flash_executeFlashFSM_def fsm_pending_def write_inv_def fits_def same_job_def)
next
  case FlashOp_ReadInProgress
  then show ?thesis using assms by (simp add: write_inv_def)
next
  case FlashOp_EraseInProgress
  then show ?thesis using assms erase_inv [of d d'] by (simp add: Flash_executeFlashFSM_def)
next
  case FlashOp_WriteInProgress
  then show ?thesis using assms write_phase_inv [of d d'] by (simp add: Flash_executeFlashFSM_def)
next
  case FlashOp_VerifyInProgress
  then show ?thesis using assms verify_inv [of d d'] by (simp add: Flash_executeFlashFSM_def)
qed (use assms in \<open>simp_all add: Flash_executeFlashFSM_def\<close>)

lemma run_inv:
  "write_inv mem len ok d \<Longrightarrow> fsm_run n ops d = Some d' \<Longrightarrow> write_inv mem len ok d' \<and> same_job d d'"
proof (induction n arbitrary: d)
  case (Suc n)
  then obtain d1 where "Flash_executeFlashFSM ops d = Some d1" "fsm_run n ops d1 = Some d'"
    by (auto simp: bind_eq_Some_conv)
  then show ?case using Suc step_inv same_job_trans by blast
qed simp

lemma completed_write_is_exact:
  assumes "ok (lowlevel d)" "fits len d" "currentFlashTask d = FlashTask_WriteBios"
    "currentFlashOp d = FlashOp_PendingOp" "currentAddr d = 0"
    "fsm_run n ops d = Some d'" "currentFlashOp d' = FlashOp_Completed"
  shows "i < unat (biosBufferSize d) \<Longrightarrow>
    mem (lowlevel d') (unat (startingOffset d) + i) = biosBuffer d i"
proof -
  have "write_inv mem len ok d" using assms by (auto simp: write_inv_def fits_def)
  then have "write_inv mem len ok d' \<and> same_job d d'" using run_inv assms by blast
  then show "i < unat (biosBufferSize d) \<Longrightarrow>
      mem (lowlevel d') (unat (startingOffset d) + i) = biosBuffer d i"
    using assms(7) by (auto simp: write_inv_def same_job_def image_in_def)
qed

end

end
