(* ===== verification/Flash_Progress.thy ===== *)
theory Flash_Progress
  imports Flash_Contract
begin

text \<open>
  \<^verbatim>\<open>flash_device\<close> extends the contract of the flash driver with what makes a write succeed: erasing
  clears bytes to 0xFF or does nothing, writing a writable byte stores it, and the device stops
  being busy. Inside it every BIOS write ends in \<^verbatim>\<open>FlashOp_Completed\<close>. The measure is the phase,
  the bytes left in it, the erase commands left to try, and the polls until the device is idle.
\<close>

definition all_writable :: "('s \<Rightarrow> nat \<Rightarrow> u8) \<Rightarrow> nat \<Rightarrow> 's flash_drv \<Rightarrow> bool" where
  "all_writable mem n d \<longleftrightarrow>
     (\<forall>i < n. canWrite (mem (lowlevel d) (unat (startingOffset d) + i)) (biosBuffer d i))"

text \<open>An erase may clear any byte to 0xFF; it clears the one it was asked for, or it does nothing
  and leaves the device settled.\<close>

definition erases :: "('s \<Rightarrow> nat \<Rightarrow> u8) \<Rightarrow> ('s \<Rightarrow> nat) \<Rightarrow> nat \<Rightarrow> 's \<Rightarrow> 's \<Rightarrow> bool" where
  "erases mem pending a s s' \<longleftrightarrow> (\<forall>i. mem s' i = mem s i \<or> mem s' i = 0xFF) \<and>
     (mem s' a = 0xFF \<or> mem s' = mem s \<and> pending s' \<le> 1)"

text \<open>Bookkeeping of the erase phase: before the first try of a byte the device is settled, and
  after it either the byte is clear or another command is left to try.\<close>

definition erase_track :: "('s \<Rightarrow> nat \<Rightarrow> u8) \<Rightarrow> ('s \<Rightarrow> nat) \<Rightarrow> 's flash_drv \<Rightarrow> bool" where
  "erase_track mem pending d \<longleftrightarrow>
    (if firstEraseTry d then unat (eraseBusyCount d) + pending (lowlevel d) \<le> 1
     else mem (lowlevel d) (unat (startingOffset d) + unat (currentAddr d)) = 0xFF \<or>
          eraseSequenceMethod d \<noteq> EraseSequenceMethod_Chip \<and>
          unat (eraseBusyCount d) + pending (lowlevel d) \<le> 2)"

definition live_inv ::
  "('s \<Rightarrow> nat \<Rightarrow> u8) \<Rightarrow> nat \<Rightarrow> ('s \<Rightarrow> bool) \<Rightarrow> ('s \<Rightarrow> nat) \<Rightarrow> (nat \<Rightarrow> bool) \<Rightarrow> 's flash_drv \<Rightarrow> bool" where
  "live_inv mem len ok pending erasable d \<longleftrightarrow> write_inv mem len ok d \<and>
     (\<forall>i < unat (biosBufferSize d). erasable (unat (startingOffset d) + i)) \<and>
     currentFlashOp d \<notin> {FlashOp_Idle, FlashOp_Error} \<and>
     (currentFlashOp d = FlashOp_PendingOp \<longrightarrow> currentAddr d = 0 \<and> firstEraseTry d \<and>
        eraseBusyCount d = 0 \<and> pending (lowlevel d) \<le> 1) \<and>
     (currentFlashOp d = FlashOp_EraseInProgress \<longrightarrow>
        erase_track mem pending d \<and> all_writable mem (unat (currentAddr d)) d) \<and>
     (currentFlashOp d = FlashOp_WriteInProgress \<longrightarrow>
        image_in mem (unat (currentAddr d)) d \<and> all_writable mem (unat (biosBufferSize d)) d) \<and>
     (currentFlashOp d = FlashOp_VerifyInProgress \<longrightarrow> image_in mem (unat (biosBufferSize d)) d)"

definition method_rank :: "EraseSequenceMethod \<Rightarrow> nat" where
  "method_rank m = (case m of EraseSequenceMethod_Sector \<Rightarrow> 2 | EraseSequenceMethod_Block \<Rightarrow> 1
                            | EraseSequenceMethod_Chip \<Rightarrow> 0)"

definition op_rank :: "FlashOp \<Rightarrow> nat" where
  "op_rank p = (case p of FlashOp_PendingOp \<Rightarrow> 4 | FlashOp_EraseInProgress \<Rightarrow> 3
                        | FlashOp_WriteInProgress \<Rightarrow> 2 | FlashOp_VerifyInProgress \<Rightarrow> 1 | _ \<Rightarrow> 0)"

text \<open>What is left to do: the phase, the bytes of the phase, the erase commands to try for the
  current byte, and the polls until the device is idle.\<close>

definition work_left :: "('s \<Rightarrow> nat) \<Rightarrow> 's flash_drv \<Rightarrow> nat \<times> nat \<times> nat \<times> nat" where
  "work_left pending d =
    (op_rank (currentFlashOp d), unat (biosBufferSize d) - unat (currentAddr d),
     2 * method_rank (eraseSequenceMethod d) + (if firstEraseTry d then 1 else 0),
     pending (lowlevel d))"

definition less_work :: "((nat \<times> nat \<times> nat \<times> nat) \<times> (nat \<times> nat \<times> nat \<times> nat)) set" where
  "less_work = less_than <*lex*> less_than <*lex*> less_than <*lex*> less_than"

lemma wf_less_work: "wf less_work"
  by (simp add: less_work_def wf_lex_prod)

lemma less_work_iff:
  "((a, b, c, e), (a', b', c', e')) \<in> less_work \<longleftrightarrow>
     a < a' \<or> a = a' \<and> (b < b' \<or> b = b' \<and> (c < c' \<or> c = c' \<and> e < e'))"
  by (auto simp: less_work_def)

lemma canWrite_same [simp]: "canWrite x x"
  by (simp add: canWrite_def)

lemma canWrite_FF [simp]: "canWrite 0xFF x"
proof -
  have "(NOT 0xFF :: u8) = 0" by code_simp
  then show ?thesis by (simp only: canWrite_def zero_and_eq)
qed

lemma all_writable_erased:
  assumes "all_writable mem n d" "\<forall>i. mem s' i = mem (lowlevel d) i \<or> mem s' i = 0xFF"
    "same_job d d'" "lowlevel d' = s'"
  shows "all_writable mem n d'"
  using assms by (auto simp: all_writable_def same_job_def) (metis canWrite_FF)

locale flash_device = flash_reader ops mem len ok ready
  for ops :: "'s flash_ops"
    and mem :: "'s \<Rightarrow> nat \<Rightarrow> u8"
    and len :: nat
    and ok :: "'s \<Rightarrow> bool"
    and ready :: "'s \<Rightarrow> bool" +
  fixes pending :: "'s \<Rightarrow> nat"
    and erasable :: "nat \<Rightarrow> bool"
  assumes poll_progress: "ok s \<Longrightarrow> op_DeviceIsBusy ops s = (True, s') \<Longrightarrow> pending s' < pending s"
    and poll_settled: "ok s \<Longrightarrow> op_DeviceIsBusy ops s = (False, s') \<Longrightarrow> pending s' \<le> 1"
    and read_settled: "ok s \<Longrightarrow> ready s \<Longrightarrow> pending s \<le> 1 \<Longrightarrow> unat a < len \<Longrightarrow>
      op_ReadByte ops a s = Some (v, s') \<Longrightarrow>
      pending s' \<le> 1"
    and sector_erase: "ok s \<Longrightarrow> ready s \<Longrightarrow> pending s \<le> 1 \<Longrightarrow> unat a < len \<Longrightarrow> erasable (unat a) \<Longrightarrow>
      \<exists>s'. op_SectorErase ops a s = Some s' \<and> erases mem pending (unat a) s s'"
    and block_erase: "ok s \<Longrightarrow> ready s \<Longrightarrow> pending s \<le> 1 \<Longrightarrow> unat a < len \<Longrightarrow> erasable (unat a) \<Longrightarrow>
      \<exists>s'. op_BlockErase ops a s = Some s' \<and> erases mem pending (unat a) s s'"
    and chip_erase: "ok s \<Longrightarrow> ready s \<Longrightarrow>
      \<exists>s'. op_ChipErase ops s = Some s' \<and> (\<forall>i. mem s' i = mem s i \<or> mem s' i = 0xFF) \<and>
           (\<forall>i < len. mem s' i = 0xFF)"
    and write_byte: "ok s \<Longrightarrow> ready s \<Longrightarrow> unat a < len \<Longrightarrow> canWrite (mem s (unat a)) v \<Longrightarrow>
      \<exists>s'. op_WriteByte ops v a s = Some s' \<and> mem s' = (mem s)(unat a := v)"
begin

lemma settled_read:
  assumes "ok s" "ready s" "pending s \<le> 1" "fits len d" "currentAddr d < biosBufferSize d"
  obtains s2 where "flash_and_buffer ops (d\<lparr>lowlevel := s\<rparr>) =
      Some (mem s (unat (startingOffset d) + unat (currentAddr d)),
            biosBuffer d (unat (currentAddr d)), d\<lparr>lowlevel := s2\<rparr>)"
    and "ok s2" "ready s2" "mem s2 = mem s" "pending s2 \<le> 1"
  using read [OF assms(1,2), of "startingOffset d + currentAddr d"] unat_cursor [OF assms(4,5)]
    read_settled [OF assms(1,2,3), of "startingOffset d + currentAddr d"]
  by (auto simp: flash_and_buffer_def buf_get_def)

lemma start_erase_effect:
  assumes "ok (lowlevel d)" "ready (lowlevel d)" "pending (lowlevel d) \<le> 1" "fits len d"
    "currentAddr d < biosBufferSize d" "erasable (unat (startingOffset d) + unat (currentAddr d))"
  obtains s where "start_erase ops d = Some (d\<lparr>lowlevel := s, firstEraseTry := False\<rparr>)"
    "erases mem pending (unat (startingOffset d) + unat (currentAddr d)) (lowlevel d) s"
    "eraseSequenceMethod d = EraseSequenceMethod_Chip \<Longrightarrow>
       mem s (unat (startingOffset d) + unat (currentAddr d)) = 0xFF"
proof (cases "eraseSequenceMethod d")
  case EraseSequenceMethod_Sector
  then show thesis
    using that sector_erase [OF assms(1-3), of "startingOffset d + currentAddr d"] assms(6)
      unat_cursor [OF assms(4,5)]
    by (auto simp: start_erase_def)
next
  case EraseSequenceMethod_Block
  then show thesis
    using that block_erase [OF assms(1-3), of "startingOffset d + currentAddr d"] assms(6)
      unat_cursor [OF assms(4,5)]
    by (auto simp: start_erase_def)
next
  case EraseSequenceMethod_Chip
  then show thesis
    using that chip_erase [OF assms(1,2)] unat_cursor [OF assms(4,5)]
    by (auto simp: start_erase_def erases_def)
qed

abbreviation live :: "'s flash_drv \<Rightarrow> bool" where
  "live \<equiv> live_inv mem len ok pending erasable"

abbreviation less_left :: "'s flash_drv \<Rightarrow> 's flash_drv \<Rightarrow> bool" where
  "less_left d' d \<equiv> (work_left pending d', work_left pending d) \<in> less_work"

text \<open>An erase command issued for the byte under the cursor.\<close>

lemma live_start_erase:
  assumes "write_inv mem len ok d" "currentFlashOp d = FlashOp_EraseInProgress"
    "ready (lowlevel d)" "pending (lowlevel d) \<le> 1" "unat (eraseBusyCount d) \<le> 1"
    "\<forall>i < unat (biosBufferSize d). erasable (unat (startingOffset d) + i)"
    "all_writable mem (unat (currentAddr d)) d"
  obtains d' where "start_erase ops d = Some d'" "live d'" "same_job d d'"
    "currentFlashOp d' = FlashOp_EraseInProgress" "currentAddr d' = currentAddr d"
    "eraseSequenceMethod d' = eraseSequenceMethod d" "\<not> firstEraseTry d'"
proof -
  have d: "ok (lowlevel d)" "fits len d" "currentAddr d < biosBufferSize d"
    using assms(1,2) by (simp_all add: write_inv_def)
  have "erasable (unat (startingOffset d) + unat (currentAddr d))"
    using assms(6) d(3) by (simp add: word_less_nat_alt)
  from start_erase_effect [OF d(1) assms(3,4) d(2,3) this] obtain s where
    s: "start_erase ops d = Some (d\<lparr>lowlevel := s, firstEraseTry := False\<rparr>)"
      "erases mem pending (unat (startingOffset d) + unat (currentAddr d)) (lowlevel d) s"
      "eraseSequenceMethod d = EraseSequenceMethod_Chip \<Longrightarrow>
        mem s (unat (startingOffset d) + unat (currentAddr d)) = 0xFF" by blast
  let ?d = "d\<lparr>lowlevel := s, firstEraseTry := False\<rparr>"
  have job: "same_job d ?d" by (simp add: same_job_def)
  have "ok s" using start_erase_ok [OF d(1) assms(3) s(1)] by simp
  then have inv: "write_inv mem len ok ?d" using assms(1,2) by (auto simp: write_inv_def fits_def)
  have "all_writable mem (unat (currentAddr d)) ?d"
    using all_writable_erased [OF assms(7) _ job] s(2) by (simp add: erases_def)
  moreover have "erase_track mem pending ?d"
    using s(2,3) assms(5) by (cases "eraseSequenceMethod d") (auto simp: erase_track_def erases_def)
  ultimately have "live ?d" using inv assms(2,6) by (simp add: live_inv_def)
  then show thesis using that [of ?d] s(1) job assms(2) by simp
qed

lemma next_method_rank:
  assumes "currentFlashTask d = FlashTask_WriteBios" "eraseSequenceMethod d \<noteq> EraseSequenceMethod_Chip"
  obtains d1 where "next_erase_method ops d = (False, d1)" "same_job d d1" "lowlevel d1 = lowlevel d"
    "currentAddr d1 = currentAddr d" "currentFlashOp d1 = currentFlashOp d" "eraseBusyCount d1 = 0"
    "method_rank (eraseSequenceMethod d1) < method_rank (eraseSequenceMethod d)"
  using assms
  by (cases "eraseSequenceMethod d")
     (simp_all add: next_erase_method_def same_job_def method_rank_def Let_def)

lemma live_erase_needed:
  assumes inv: "write_inv mem len ok d" "all_writable mem (unat (currentAddr d)) d"
      "\<forall>i < unat (biosBufferSize d). erasable (unat (startingOffset d) + i)"
    and track: "firstEraseTry d \<Longrightarrow> unat (eraseBusyCount d) \<le> 1"
      "\<not> firstEraseTry d \<Longrightarrow>
         mem (lowlevel d) (unat (startingOffset d) + unat (currentAddr d)) = 0xFF \<or>
         eraseSequenceMethod d \<noteq> EraseSequenceMethod_Chip \<and> unat (eraseBusyCount d) \<le> 2"
    and d: "currentFlashOp d = FlashOp_EraseInProgress" "ready (lowlevel d)"
      "pending (lowlevel d) \<le> 1"
    and blocked: "\<not> canWrite (mem (lowlevel d) (unat (startingOffset d) + unat (currentAddr d)))
         (biosBuffer d (unat (currentAddr d)))"
  obtains d' where "fsm_erase_needed ops d = Some d'" "live d'" "same_job d d'"
    "\<And>s. less_left d' (d\<lparr>lowlevel := s\<rparr>)"
proof (cases "firstEraseTry d")
  case True
  from live_start_erase [OF inv(1) d track(1) inv(3,2)] True obtain d' where
    "start_erase ops d = Some d'" "live d'" "same_job d d'" "currentFlashOp d' = FlashOp_EraseInProgress"
    "currentAddr d' = currentAddr d" "eraseSequenceMethod d' = eraseSequenceMethod d" "\<not> firstEraseTry d'"
    by blast
  then show thesis using that True d(1)
    by (simp add: fsm_erase_needed_def work_left_def less_work_iff same_job_def)
next
  case False
  have t: "eraseSequenceMethod d \<noteq> EraseSequenceMethod_Chip" "unat (eraseBusyCount d) \<le> 2"
    using track(2) [OF False] blocked by auto
  then have few: "eraseBusyCount d < EraseBusyCountMin"
    by (simp add: word_less_nat_alt EraseBusyCountMin_def)
  have task: "currentFlashTask d = FlashTask_WriteBios" using inv(1) by (simp add: write_inv_def)
  from next_method_rank [OF task t(1)] obtain d1 where d1:
    "next_erase_method ops d = (False, d1)" "same_job d d1" "lowlevel d1 = lowlevel d"
    "currentAddr d1 = currentAddr d" "currentFlashOp d1 = currentFlashOp d" "eraseBusyCount d1 = 0"
    "method_rank (eraseSequenceMethod d1) < method_rank (eraseSequenceMethod d)" by blast
  have "write_inv mem len ok d1" "all_writable mem (unat (currentAddr d1)) d1"
      "\<forall>i < unat (biosBufferSize d1). erasable (unat (startingOffset d1) + i)"
    using inv d(1) d1
    by (auto simp: write_inv_def fits_def same_job_def all_writable_def)
  from live_start_erase [OF this(1) _ _ _ _ this(3,2)] d d1 obtain d' where d':
    "start_erase ops d1 = Some d'" "live d'" "same_job d1 d'" "currentFlashOp d' = FlashOp_EraseInProgress"
    "currentAddr d' = currentAddr d1" "eraseSequenceMethod d' = eraseSequenceMethod d1" "\<not> firstEraseTry d'"
    by auto
  have "fsm_erase_needed ops d = Some d'"
    using False few d1(1) d'(1) by (simp add: fsm_erase_needed_def)
  moreover have "less_left d' (d\<lparr>lowlevel := s\<rparr>)" for s
    using False d(1) d1 d' by (simp add: work_left_def less_work_iff same_job_def)
  ultimately show thesis using that d'(2) same_job_trans [OF d1(2) d'(3)] by blast
qed

lemma live_erase_advance:
  assumes "live d" "currentFlashOp d = FlashOp_EraseInProgress" "ok s2" "pending s2 \<le> 1"
    "mem s2 = mem (lowlevel d)"
    "canWrite (mem s2 (unat (startingOffset d) + unat (currentAddr d)))
       (biosBuffer d (unat (currentAddr d)))"
  defines "d' \<equiv> (if biosBufferSize d \<le> currentAddr d + 1
                then d\<lparr>lowlevel := s2, firstEraseTry := True, eraseBusyCount := 0,
                       currentFlashOp := FlashOp_WriteInProgress, currentAddr := 0\<rparr>
                else d\<lparr>lowlevel := s2, firstEraseTry := True, eraseBusyCount := 0,
                       currentAddr := currentAddr d + 1\<rparr>)"
  shows "live d'" "same_job d d'" "less_left d' d"
proof -
  have fit: "fits len d" "currentAddr d < biosBufferSize d"
    using assms(1,2) by (simp_all add: live_inv_def write_inv_def)
  have c: "unat (currentAddr d + 1) = unat (currentAddr d) + 1" by (rule unat_cursor(4) [OF fit])
  have lt: "unat (currentAddr d) < unat (biosBufferSize d)"
    using fit(2) by (simp add: word_less_nat_alt)
  have aw: "canWrite (mem s2 (unat (startingOffset d) + i)) (biosBuffer d i)"
    if "i \<le> unat (currentAddr d)" for i
    using that assms(1,2,5,6) by (cases "i = unat (currentAddr d)")
      (auto simp: live_inv_def all_writable_def)
  show "same_job d d'" by (simp add: d'_def same_job_def)
  show "less_left d' d"
    using assms(2) c lt by (auto simp: d'_def work_left_def less_work_iff op_rank_def)
  show "live d'"
  proof (cases "biosBufferSize d \<le> currentAddr d + 1")
    case True
    then have "unat (biosBufferSize d) = unat (currentAddr d) + 1"
      using c lt by (simp add: word_le_nat_alt)
    then show ?thesis using True assms(1-3) aw
      by (simp add: d'_def live_inv_def write_inv_def fits_def all_writable_def image_in_def)
  next
    case False
    then show ?thesis using assms(1-4) aw c
      by (simp add: d'_def live_inv_def write_inv_def fits_def all_writable_def erase_track_def)
  qed
qed

lemma live_erase:
  assumes "live d" "currentFlashOp d = FlashOp_EraseInProgress"
  obtains d' where "fsm_erase ops d = Some d'" "live d'" "same_job d d'" "less_left d' d"
proof -
  have inv: "write_inv mem len ok d" "all_writable mem (unat (currentAddr d)) d"
      "erase_track mem pending d"
    using assms by (simp_all add: live_inv_def)
  then have d: "ok (lowlevel d)" "fits len d" "currentAddr d < biosBufferSize d"
    using assms(2) by (simp_all add: write_inv_def)
  show thesis
  proof (cases rule: poll_cases [OF d(1)])
    case (1 s)
    let ?d = "d\<lparr>lowlevel := s, eraseBusyCount := eraseBusyCount d + 1\<rparr>"
    have less: "pending s < pending (lowlevel d)" by (rule poll_progress [OF d(1) 1(1)])
    have "unat (eraseBusyCount d + 1) \<le> unat (eraseBusyCount d) + 1"
      by (simp add: unat_word_ariths)
    then have "erase_track mem pending ?d"
      using inv(3) 1(3) less by (auto simp: erase_track_def)
    then have "live ?d"
      using assms inv 1 erase_inv [OF inv(1) assms(2) fsm_erase_busy [OF 1(1)]]
      by (simp add: live_inv_def all_writable_def)
    then show thesis using that [OF fsm_erase_busy [OF 1(1)]] assms(2) less
      by (simp add: same_job_def work_left_def less_work_iff)
  next
    case (2 s)
    have ps: "pending s \<le> 1" by (rule poll_settled [OF d(1) 2(1)])
    from settled_read [OF 2(2,3) ps d(2,3)] obtain s2 where
      r: "flash_and_buffer ops (d\<lparr>lowlevel := s\<rparr>) =
          Some (mem s (unat (startingOffset d) + unat (currentAddr d)),
                biosBuffer d (unat (currentAddr d)), d\<lparr>lowlevel := s2\<rparr>)"
      and s2: "ok s2" "ready s2" "mem s2 = mem s" "pending s2 \<le> 1" .
    show thesis
    proof (cases "canWrite (mem s (unat (startingOffset d) + unat (currentAddr d)))
                    (biosBuffer d (unat (currentAddr d)))")
      case True
      then have "mem s2 = mem (lowlevel d)" and cw: "canWrite (mem s2 (unat (startingOffset d) +
          unat (currentAddr d))) (biosBuffer d (unat (currentAddr d)))"
        using s2(3) 2(4) by simp_all
      from live_erase_advance [OF assms s2(1,4) this] True that fsm_erase_idle [OF 2(1) r]
      show thesis by simp
    next
      case False
      let ?d2 = "d\<lparr>lowlevel := s2\<rparr>"
      have "write_inv mem len ok ?d2" "all_writable mem (unat (currentAddr ?d2)) ?d2"
        using inv(1,2) s2(1,3) 2(4) assms(2)
        by (simp_all add: write_inv_def fits_def all_writable_def)
      moreover have "\<forall>i < unat (biosBufferSize d). erasable (unat (startingOffset d) + i)"
        using assms(1) by (simp add: live_inv_def)
      moreover have "if firstEraseTry d then unat (eraseBusyCount d) \<le> 1
          else mem s2 (unat (startingOffset d) + unat (currentAddr d)) = 0xFF \<or>
            eraseSequenceMethod d \<noteq> EraseSequenceMethod_Chip \<and> unat (eraseBusyCount d) \<le> 2"
        using inv(3) s2(3) 2(4) by (auto simp: erase_track_def split: if_splits)
      ultimately obtain d' where d': "fsm_erase_needed ops ?d2 = Some d'" "live d'" "same_job ?d2 d'"
          "\<And>s. less_left d' (?d2\<lparr>lowlevel := s\<rparr>)"
        using live_erase_needed [of ?d2] assms(2) s2 False by (auto split: if_splits)
      from d'(4) [of "lowlevel d"] show thesis
        using that [of d'] False fsm_erase_idle [OF 2(1) r] d'(1-3) by (simp add: same_job_def)
    qed
  qed
qed

lemma written_byte:
  assumes "fits len d" "currentAddr d < biosBufferSize d" "ok s2" "ready s2"
    "mem s2 = mem (lowlevel d)" "all_writable mem (unat (biosBufferSize d)) d"
    "f = mem (lowlevel d) (unat (startingOffset d) + unat (currentAddr d))"
  obtains s3 where "(if f = biosBuffer d (unat (currentAddr d)) then Some s2
      else op_WriteByte ops (biosBuffer d (unat (currentAddr d)))
             (startingOffset d + currentAddr d) s2) = Some s3"
    "mem s3 = (mem (lowlevel d))
       (unat (startingOffset d) + unat (currentAddr d) := biosBuffer d (unat (currentAddr d)))"
    "ok s3"
proof (cases "f = biosBuffer d (unat (currentAddr d))")
  case True
  then show thesis using that [of s2] assms(3,5,7) by (auto simp: fun_eq_iff)
next
  case False
  have "unat (currentAddr d) < unat (biosBufferSize d)" using assms(2) by (simp add: word_less_nat_alt)
  then have "canWrite (mem s2 (unat (startingOffset d + currentAddr d))) (biosBuffer d (unat (currentAddr d)))"
    using assms(5,6) by (simp add: all_writable_def unat_cursor [OF assms(1,2)])
  from write_byte [OF assms(3,4) _ this] unat_cursor [OF assms(1,2)] obtain s3 where
    "op_WriteByte ops (biosBuffer d (unat (currentAddr d))) (startingOffset d + currentAddr d) s2 = Some s3"
    "mem s3 = (mem s2)(unat (startingOffset d) + unat (currentAddr d) := biosBuffer d (unat (currentAddr d)))"
    by auto
  then show thesis using that [of s3] False assms(5) write_ok [OF assms(3,4)] by auto
qed

lemma live_write:
  assumes "live d" "currentFlashOp d = FlashOp_WriteInProgress"
  obtains d' where "fsm_write ops d = Some d'" "live d'" "same_job d d'" "less_left d' d"
proof -
  have inv: "write_inv mem len ok d" "image_in mem (unat (currentAddr d)) d"
      "all_writable mem (unat (biosBufferSize d)) d"
    using assms by (simp_all add: live_inv_def)
  then have d: "ok (lowlevel d)" "fits len d" "currentAddr d \<le> biosBufferSize d"
    using assms(2) by (simp_all add: write_inv_def)
  show thesis
  proof (cases rule: poll_cases [OF d(1)])
    case (1 s)
    have "live (d\<lparr>lowlevel := s\<rparr>)"
      using assms inv 1 by (simp add: live_inv_def write_inv_def fits_def image_in_def all_writable_def)
    then show thesis using that [OF fsm_write_busy [OF 1(1)]] assms(2) poll_progress [OF d(1) 1(1)]
      by (simp add: same_job_def work_left_def less_work_iff)
  next
    case (2 s)
    show thesis
    proof (cases "currentAddr d < biosBufferSize d")
      case False
      then have "currentAddr d = biosBufferSize d" using d(3) by simp
      then have "live (d\<lparr>lowlevel := s, currentFlashOp := FlashOp_VerifyInProgress, currentAddr := 0\<rparr>)"
        using assms inv 2 by (simp add: live_inv_def write_inv_def fits_def image_in_def)
      then show thesis using that [OF fsm_write_done [OF 2(1)]] False assms(2)
        by (simp add: same_job_def work_left_def less_work_iff op_rank_def)
    next
      case True
      from cursor_read [OF 2(2,3) d(2) True] obtain s2 where
        r: "flash_and_buffer ops (d\<lparr>lowlevel := s\<rparr>) =
            Some (mem s (unat (startingOffset d) + unat (currentAddr d)),
                  biosBuffer d (unat (currentAddr d)), d\<lparr>lowlevel := s2\<rparr>)"
        and s2: "ok s2" "ready s2" "mem s2 = mem s" .
      obtain s3 where s3: "(if mem s (unat (startingOffset d) + unat (currentAddr d)) =
              biosBuffer d (unat (currentAddr d)) then Some s2
            else op_WriteByte ops (biosBuffer d (unat (currentAddr d)))
                   (startingOffset d + currentAddr d) s2) = Some s3"
          "mem s3 = (mem (lowlevel d))
             (unat (startingOffset d) + unat (currentAddr d) := biosBuffer d (unat (currentAddr d)))"
          "ok s3"
        by (rule written_byte [OF d(2) True s2(1,2) _ inv(3)]) (use s2(3) 2(4) in simp_all)
      let ?d = "d\<lparr>lowlevel := s3, currentAddr := currentAddr d + 1\<rparr>"
      have step: "fsm_write ops d = Some ?d"
        using fsm_write_byte [OF 2(1) True r] s3(1) by simp
      note c = unat_cursor(4) [OF d(2) True]
      have "image_in mem (unat (currentAddr d + 1)) ?d"
        using inv(2) c by (auto simp: image_in_def s3(2) less_Suc_eq)
      moreover have "all_writable mem (unat (biosBufferSize d)) ?d"
        using inv(3) by (auto simp: all_writable_def s3(2))
      ultimately have "live ?d"
        using assms write_phase_inv [OF inv(1) assms(2) step]
        by (simp add: live_inv_def image_in_def all_writable_def)
      moreover have "less_left ?d d"
        using True c by (auto simp: work_left_def less_work_iff word_less_nat_alt)
      ultimately show thesis using that [OF step] by (simp add: same_job_def)
    qed
  qed
qed

lemma live_verify:
  assumes "live d" "currentFlashOp d = FlashOp_VerifyInProgress"
  obtains d' where "fsm_verify ops d = Some d'" "live d'" "same_job d d'" "less_left d' d"
proof -
  have inv: "write_inv mem len ok d" "image_in mem (unat (biosBufferSize d)) d"
    using assms by (simp_all add: live_inv_def)
  then have d: "ok (lowlevel d)" "fits len d" "currentAddr d \<le> biosBufferSize d"
    using assms(2) by (simp_all add: write_inv_def)
  show thesis
  proof (cases rule: poll_cases [OF d(1)])
    case (1 s)
    have "live (d\<lparr>lowlevel := s\<rparr>)"
      using assms inv 1 by (simp add: live_inv_def write_inv_def fits_def image_in_def)
    then show thesis using that [OF fsm_verify_busy [OF 1(1)]] assms(2) poll_progress [OF d(1) 1(1)]
      by (simp add: same_job_def work_left_def less_work_iff)
  next
    case (2 s)
    show thesis
    proof (cases "currentAddr d < biosBufferSize d")
      case False
      then have "live (d\<lparr>lowlevel := s, currentFlashOp := FlashOp_Completed\<rparr>)"
        using assms inv 2 by (simp add: live_inv_def write_inv_def fits_def image_in_def)
      then show thesis using that [OF fsm_verify_done [OF 2(1)]] False assms(2)
        by (simp add: same_job_def work_left_def less_work_iff op_rank_def)
    next
      case True
      from cursor_read [OF 2(2,3) d(2) True] obtain s2 where
        r: "flash_and_buffer ops (d\<lparr>lowlevel := s\<rparr>) =
            Some (mem s (unat (startingOffset d) + unat (currentAddr d)),
                  biosBuffer d (unat (currentAddr d)), d\<lparr>lowlevel := s2\<rparr>)"
        and s2: "ok s2" "ready s2" "mem s2 = mem s" .
      let ?d = "d\<lparr>lowlevel := s2, currentAddr := currentAddr d + 1\<rparr>"
      have "unat (currentAddr d) < unat (biosBufferSize d)" using True by (simp add: word_less_nat_alt)
      then have "mem s (unat (startingOffset d) + unat (currentAddr d)) = biosBuffer d (unat (currentAddr d))"
        using inv(2) 2(4) by (simp add: image_in_def)
      then have step: "fsm_verify ops d = Some ?d" using fsm_verify_byte [OF 2(1) True r] by simp
      have "live ?d"
        using assms inv(2) s2(3) 2(4) verify_inv [OF inv(1) assms(2) step]
        by (simp add: live_inv_def image_in_def)
      moreover have "less_left ?d d"
        using True unat_cursor(4) [OF d(2) True]
        by (auto simp: work_left_def less_work_iff word_less_nat_alt)
      ultimately show thesis using that [OF step] by (simp add: same_job_def)
    qed
  qed
qed

lemma live_step:
  assumes "live d" "currentFlashOp d \<noteq> FlashOp_Completed"
  obtains d' where "Flash_executeFlashFSM ops d = Some d'" "live d'" "same_job d d'" "less_left d' d"
proof (cases "currentFlashOp d")
  case FlashOp_PendingOp
  let ?d = "d\<lparr>currentFlashOp := FlashOp_EraseInProgress\<rparr>"
  have task: "currentFlashTask d = FlashTask_WriteBios" using assms by (simp add: live_inv_def write_inv_def)
  have "live ?d"
    using assms FlashOp_PendingOp
    by (simp add: live_inv_def write_inv_def fits_def erase_track_def all_writable_def)
  moreover have "Flash_executeFlashFSM ops d = Some ?d"
    using FlashOp_PendingOp task by (simp add: Flash_executeFlashFSM_def fsm_pending_def)
  ultimately show thesis using that FlashOp_PendingOp
    by (simp add: same_job_def work_left_def less_work_iff op_rank_def)
next
  case FlashOp_EraseInProgress
  then show thesis using live_erase [OF assms(1)] that by (auto simp: Flash_executeFlashFSM_def)
next
  case FlashOp_WriteInProgress
  then show thesis using live_write [OF assms(1)] that by (auto simp: Flash_executeFlashFSM_def)
next
  case FlashOp_VerifyInProgress
  then show thesis using live_verify [OF assms(1)] that by (auto simp: Flash_executeFlashFSM_def)
qed (use assms in \<open>simp_all add: live_inv_def write_inv_def\<close>)

lemma live_completes:
  assumes "live d"
  shows "\<exists>n d'. fsm_run n ops d = Some d' \<and> live d' \<and> same_job d d' \<and>
    currentFlashOp d' = FlashOp_Completed"
  using assms
proof (induction "work_left pending d" arbitrary: d rule: wf_induct_rule [OF wf_less_work])
  case 1
  show ?case
  proof (cases "currentFlashOp d = FlashOp_Completed")
    case True
    then have "fsm_run 0 ops d = Some d \<and> live d \<and> same_job d d \<and> currentFlashOp d = FlashOp_Completed"
      using 1 by simp
    then show ?thesis by blast
  next
    case False
    from live_step [OF 1(2) False] obtain d1 where
      d1: "Flash_executeFlashFSM ops d = Some d1" "live d1" "same_job d d1" "less_left d1 d" .
    from 1(1) [OF d1(4) d1(2)] obtain n d' where
      "fsm_run n ops d1 = Some d'" "live d'" "same_job d1 d'" "currentFlashOp d' = FlashOp_Completed"
      by blast
    then have "fsm_run (Suc n) ops d = Some d' \<and> live d' \<and> same_job d d' \<and>
        currentFlashOp d' = FlashOp_Completed"
      using d1 same_job_trans by auto
    then show ?thesis by blast
  qed
qed

lemma write_completes:
  assumes "ok (lowlevel d)" "pending (lowlevel d) \<le> 1" "fits len d"
    "currentFlashTask d = FlashTask_WriteBios" "currentFlashOp d = FlashOp_PendingOp"
    "currentAddr d = 0" "firstEraseTry d" "eraseBusyCount d = 0"
    "\<forall>i < unat (biosBufferSize d). erasable (unat (startingOffset d) + i)"
  shows "\<exists>n d'. fsm_run n ops d = Some d' \<and> currentFlashOp d' = FlashOp_Completed \<and>
    (\<forall>i < unat (biosBufferSize d).
       mem (lowlevel d') (unat (startingOffset d) + i) = biosBuffer d i)"
proof -
  have "live d" using assms by (auto simp: live_inv_def write_inv_def fits_def)
  then obtain n d' where "fsm_run n ops d = Some d'" "live d'" "same_job d d'"
      "currentFlashOp d' = FlashOp_Completed"
    using live_completes by blast
  moreover from this have "image_in mem (unat (biosBufferSize d')) d'"
    by (simp add: live_inv_def write_inv_def)
  ultimately show ?thesis by (auto simp: image_in_def same_job_def)
qed

end

end
