(* ===== verification/Flash_Jedec.thy ===== *)
theory Flash_Jedec
  imports FlashLowLevel Flash_Progress
begin

text \<open>
  The flash driver on top of drivers/flash/FlashLowLevel.c, for the 29xxx (JEDEC) family.
  \<^verbatim>\<open>jedec_chip\<close> states what the data sheets of that family promise of a chip behind the bus: the
  unlock sequences 0xAA/0x55 at 0x5555/0x2AAA, that programming only clears bits, that erasing sets
  bits, and that bit 6 of the status toggles from read to read until an operation ends. From this
  the contract of the flash driver follows, so the driver's theorems hold for such a chip.
  \<^verbatim>\<open>sst_bus\<close> is a chip with 4 KB sectors and 64 KB blocks that keeps the promise.
\<close>

definition lowlevel_ops :: "(u32 \<Rightarrow> u32 \<Rightarrow> u8) \<Rightarrow> 'c lpc_bus \<Rightarrow> 'c flash_ll flash_ops" where
  "lowlevel_ops percent bus =
    \<lparr>op_Init = FlashLowLevel_Init, op_ReadDevice = FlashLowLevel_ReadDevice bus,
     op_DeviceIsBusy = FlashLowLevel_DeviceIsBusy bus,
     op_ReadByte = (\<lambda>a s. Some (FlashLowLevel_ReadByte bus a s)),
     op_WriteByte = (\<lambda>b a s. Some (FlashLowLevel_WriteByte bus b a s)),
     op_SectorErase = (\<lambda>a s. Some (FlashLowLevel_InititiateSectorErase bus a s)),
     op_BlockErase = (\<lambda>a s. Some (FlashLowLevel_InititiateBlockErase bus a s)),
     op_ChipErase = (\<lambda>s. Some (FlashLowLevel_InititiateChipErase bus s)),
     op_flashDevice = flashDevice, op_percent = percent\<rparr>"

lemma lowlevel_ops_simps [simp]:
  "op_Init (lowlevel_ops p bus) = FlashLowLevel_Init"
  "op_ReadDevice (lowlevel_ops p bus) = FlashLowLevel_ReadDevice bus"
  "op_DeviceIsBusy (lowlevel_ops p bus) = FlashLowLevel_DeviceIsBusy bus"
  "op_ReadByte (lowlevel_ops p bus) a s = Some (FlashLowLevel_ReadByte bus a s)"
  "op_WriteByte (lowlevel_ops p bus) b a s = Some (FlashLowLevel_WriteByte bus b a s)"
  "op_SectorErase (lowlevel_ops p bus) a s = Some (FlashLowLevel_InititiateSectorErase bus a s)"
  "op_BlockErase (lowlevel_ops p bus) a s = Some (FlashLowLevel_InititiateBlockErase bus a s)"
  "op_ChipErase (lowlevel_ops p bus) s = Some (FlashLowLevel_InititiateChipErase bus s)"
  "op_flashDevice (lowlevel_ops p bus) = flashDevice"
  by (simp_all add: lowlevel_ops_def)

text \<open>A sequence of write cycles, each an address and a byte.\<close>

definition cycles :: "'c lpc_bus \<Rightarrow> u32 \<Rightarrow> (u32 \<times> u8) list \<Rightarrow> 'c \<Rightarrow> 'c" where
  "cycles bus base ws c = fold (\<lambda>(a, v) c. bus_write bus c (base + a) v) ws c"

abbreviation unlock :: "(u32 \<times> u8) list" where
  "unlock \<equiv> [(0x5555, 0xaa), (0x2aaa, 0x55)]"

abbreviation erase_unlock :: "(u32 \<times> u8) list" where
  "erase_unlock \<equiv> unlock @ [(0x5555, 0x80)] @ unlock"

definition clears :: "(nat \<Rightarrow> u8) \<Rightarrow> (nat \<Rightarrow> u8) \<Rightarrow> bool" where
  "clears m m' \<longleftrightarrow> (\<forall>i. m' i = m i \<or> m' i = 0xFF)"

locale jedec_chip =
  fixes bus :: "'c lpc_bus"
    and base :: u32
    and cells :: "'c \<Rightarrow> nat \<Rightarrow> u8"
    and len :: nat
    and sane :: "'c \<Rightarrow> bool"
    and polls :: "'c \<Rightarrow> nat"
    and toggle :: "'c \<Rightarrow> bool"
    and manufacturer :: u8
    and device :: u8
  assumes len: "0 < len" "len \<le> 2 ^ 32"
    and read_array: "sane c \<Longrightarrow> polls c = 0 \<Longrightarrow> unat a < len \<Longrightarrow>
      bus_read bus c (base + a) = (cells c (unat a), c)"
    and read_status: "sane c \<Longrightarrow> polls c = Suc k \<Longrightarrow>
      \<exists>v c'. bus_read bus c base = (v, c') \<and> sane c' \<and> polls c' = k \<and> cells c' = cells c \<and>
        bit v 6 = toggle c \<and> toggle c' = (\<not> toggle c)"
    and program: "sane c \<Longrightarrow> polls c = 0 \<Longrightarrow>
      sane (cycles bus base (unlock @ [(0x5555, 0xa0), (a, v)]) c) \<and>
      (unat a < len \<longrightarrow> cells (cycles bus base (unlock @ [(0x5555, 0xa0), (a, v)]) c) =
         (cells c)(unat a := cells c (unat a) AND v))"
    and erase_sector: "sane c \<Longrightarrow> polls c = 0 \<Longrightarrow>
      c' = cycles bus base (erase_unlock @ [(a, 0x30)]) c \<Longrightarrow> sane c' \<and>
      clears (cells c) (cells c') \<and>
      (unat a < len \<longrightarrow> cells c' (unat a) = 0xFF \<or> polls c' = 0 \<and> cells c' = cells c)"
    and erase_block: "sane c \<Longrightarrow> polls c = 0 \<Longrightarrow>
      c' = cycles bus base (erase_unlock @ [(a, 0x50)]) c \<Longrightarrow> sane c' \<and>
      clears (cells c) (cells c') \<and>
      (unat a < len \<longrightarrow> cells c' (unat a) = 0xFF \<or> polls c' = 0 \<and> cells c' = cells c)"
    and erase_chip: "sane c \<Longrightarrow> polls c = 0 \<Longrightarrow>
      c' = cycles bus base (erase_unlock @ [(0x5555, 0x10)]) c \<Longrightarrow> sane c' \<and>
      clears (cells c) (cells c') \<and> (\<forall>i < len. cells c' i = 0xFF)"
    and reset: "sane c \<Longrightarrow> polls c = 0 \<Longrightarrow> c' = cycles bus base (unlock @ [(0x5555, 0xf0)]) c \<Longrightarrow>
      sane c' \<and> polls c' = 0 \<and> cells c' = cells c"
    and autoselect: "sane c \<Longrightarrow> polls c = 0 \<Longrightarrow>
      \<exists>c1 c2. bus_read bus (cycles bus base (unlock @ [(0x5555, 0x90)]) c) base = (manufacturer, c1) \<and>
        bus_read bus c1 (base + 1) = (device, c2) \<and> sane (cycles bus base [(0x5555, 0xf0)] c2) \<and>
        polls (cycles bus base [(0x5555, 0xf0)] c2) = 0 \<and>
        cells (cycles bus base [(0x5555, 0xf0)] c2) = cells c"
begin

text \<open>A status already read while the chip is busy differs in bit 6 from the next one.\<close>

definition ll_ok :: "'c flash_ll \<Rightarrow> bool" where
  "ll_ok s \<longleftrightarrow> \<not> is28xxxProtocol s \<and> m_pbMemoryMappedStartAddress (flashDevice s) = base \<and>
     sane (chip s) \<and>
     (\<not> firstBusyRead s \<and> polls (chip s) > 0 \<longrightarrow>
        bit (lastStatusRegisterState s) 6 = (\<not> toggle (chip s)))"

definition ll_ready :: "'c flash_ll \<Rightarrow> bool" where
  "ll_ready s \<longleftrightarrow> polls (chip s) = 0 \<and> firstBusyRead s"

definition ll_pending :: "'c flash_ll \<Rightarrow> nat" where
  "ll_pending s =
    (if firstBusyRead s then (if polls (chip s) = 0 then 1 else polls (chip s) + 2)
     else if polls (chip s) > 0 then polls (chip s) + 1
     else if bit (lastStatusRegisterState s) 6 = bit (cells (chip s) 0) 6 then 0 else 1)"

lemma status_bit: "(x AND 0x40 = y AND (0x40 :: u8)) = (bit x 6 = bit y 6)"
proof -
  have 1: "bit (z AND (0x40 :: u8)) n = (bit z n \<and> n = 6)" for z n
    using bit_exp_iff [of 6 n, where ?'a = u8] by (auto simp: bit_and_iff possible_bit_word)
  have "x AND 0x40 = y AND 0x40 \<longleftrightarrow> (\<forall>n < 8. (bit x n \<and> n = 6) = (bit y n \<and> n = 6))"
    unfolding bit_eq_iff [where ?'a = u8] 1 by (simp add: possible_bit_word)
  also have "\<dots> \<longleftrightarrow> bit x 6 = bit y 6"
  proof -
    have "(6 :: nat) < 8" by simp
    then show ?thesis by blast
  qed
  finally show ?thesis .
qed

lemma poll_busy:
  assumes "ll_ok s" "polls (chip s) = Suc k"
  obtains v c where "FlashLowLevel_DeviceIsBusy bus s =
      (True, s\<lparr>chip := c, lastStatusRegisterState := v, firstBusyRead := False\<rparr>)"
    "sane c" "polls c = k" "cells c = cells (chip s)" "bit v 6 = (\<not> toggle c)"
proof -
  obtain v c where r: "bus_read bus (chip s) base = (v, c)" "sane c" "polls c = k"
      "cells c = cells (chip s)" "bit v 6 = toggle (chip s)" "toggle c = (\<not> toggle (chip s))"
    using read_status assms unfolding ll_ok_def by blast
  have "firstBusyRead s \<or> bit (lastStatusRegisterState s) 6 \<noteq> bit v 6"
    using assms r(5) unfolding ll_ok_def by (cases "firstBusyRead s") simp_all
  moreover have "mmio_read bus 0 s = (v, s\<lparr>chip := c\<rparr>)"
    using assms(1) r(1) unfolding mmio_read_def ll_ok_def by simp
  ultimately have "FlashLowLevel_DeviceIsBusy bus s =
      (True, s\<lparr>chip := c, lastStatusRegisterState := v, firstBusyRead := False\<rparr>)"
    using assms(1) unfolding ll_ok_def FlashLowLevel_DeviceIsBusy_def DeviceIsBusy_29xxx_def status_bit
    by simp
  then show thesis using that r by simp
qed

lemma poll_idle:
  assumes "ll_ok s" "polls (chip s) = 0"
  shows "FlashLowLevel_DeviceIsBusy bus s =
    (if firstBusyRead s \<or> bit (lastStatusRegisterState s) 6 \<noteq> bit (cells (chip s) 0) 6
     then (True, s\<lparr>lastStatusRegisterState := cells (chip s) 0, firstBusyRead := False\<rparr>)
     else (False, s\<lparr>lastStatusRegisterState := cells (chip s) 0, firstBusyRead := True\<rparr>))"
proof -
  have "mmio_read bus 0 s = (cells (chip s) 0, s)"
    using assms read_array [of "chip s" 0] len(1) unfolding mmio_read_def ll_ok_def by simp
  then show ?thesis
    using assms(1) unfolding ll_ok_def FlashLowLevel_DeviceIsBusy_def DeviceIsBusy_29xxx_def status_bit
    by simp
qed

lemma poll_ll:
  assumes "ll_ok s" "FlashLowLevel_DeviceIsBusy bus s = (b, s')"
  shows "ll_ok s' \<and> cells (chip s') = cells (chip s) \<and> (\<not> b \<longrightarrow> ll_ready s' \<and> ll_pending s' \<le> 1) \<and>
    (b \<longrightarrow> ll_pending s' < ll_pending s)"
proof (cases "polls (chip s)")
  case 0
  show ?thesis
  proof (cases "firstBusyRead s \<or> bit (lastStatusRegisterState s) 6 \<noteq> bit (cells (chip s) 0) 6")
    case True
    then have "b \<and> s' = s\<lparr>lastStatusRegisterState := cells (chip s) 0, firstBusyRead := False\<rparr>"
      using assms(2) poll_idle [OF assms(1) 0] by simp
    moreover have "ll_pending s = 1" using True 0 unfolding ll_pending_def by (cases "firstBusyRead s") simp_all
    ultimately show ?thesis using assms(1) 0 unfolding ll_ok_def ll_pending_def by simp
  next
    case False
    then have "\<not> b \<and> s' = s\<lparr>lastStatusRegisterState := cells (chip s) 0, firstBusyRead := True\<rparr>"
      using assms(2) poll_idle [OF assms(1) 0] by simp
    then show ?thesis using assms(1) 0 unfolding ll_ok_def ll_pending_def ll_ready_def by simp
  qed
next
  case (Suc k)
  obtain v c where "FlashLowLevel_DeviceIsBusy bus s =
      (True, s\<lparr>chip := c, lastStatusRegisterState := v, firstBusyRead := False\<rparr>)"
    "sane c" "polls c = k" "cells c = cells (chip s)" "bit v 6 = (\<not> toggle c)"
    by (rule poll_busy [OF assms(1) Suc])
  then show ?thesis using assms Suc unfolding ll_ok_def ll_pending_def by auto
qed

lemma mmio_writes:
  assumes "ll_ok s"
  shows "mmio_write bus a v s = s\<lparr>chip := cycles bus base [(a, v)] (chip s)\<rparr>"
  using assms by (simp add: mmio_write_def cycles_def ll_ok_def)

lemma ll_commands:
  assumes "ll_ok s"
  shows "FlashLowLevel_WriteByte bus v a s =
      s\<lparr>chip := cycles bus base (unlock @ [(0x5555, 0xa0), (a, v)]) (chip s)\<rparr>"
    "FlashLowLevel_InititiateSectorErase bus a s =
      s\<lparr>chip := cycles bus base (erase_unlock @ [(a, 0x30)]) (chip s)\<rparr>"
    "FlashLowLevel_InititiateBlockErase bus a s =
      s\<lparr>chip := cycles bus base (erase_unlock @ [(a, 0x50)]) (chip s)\<rparr>"
    "FlashLowLevel_InititiateChipErase bus s =
      s\<lparr>chip := cycles bus base (erase_unlock @ [(0x5555, 0x10)]) (chip s)\<rparr>"
  using assms
  by (simp_all add: ll_ok_def FlashLowLevel_WriteByte_def WriteBytes_29xxx_def
      FlashLowLevel_InititiateSectorErase_def SectorErase_29xxx_def
      FlashLowLevel_InititiateBlockErase_def BlockErase_29xxx_def
      FlashLowLevel_InititiateChipErase_def ChipErase_29xxx_def
      CommonEraseSequence_29xxx_def mmio_write_def cycles_def)

lemma ll_ok_chip: "ll_ok s \<Longrightarrow> ll_ready s \<Longrightarrow> sane c \<Longrightarrow> ll_ok (s\<lparr>chip := c\<rparr>)"
  by (simp add: ll_ok_def ll_ready_def)

lemma ll_read:
  assumes "ll_ok s" "ll_ready s" "unat a < len"
  shows "FlashLowLevel_ReadByte bus a s = (cells (chip s) (unat a), s)"
  using assms read_array
  by (simp add: FlashLowLevel_ReadByte_def mmio_read_def ll_ok_def ll_ready_def)

lemma canWrite_and: "canWrite f v \<Longrightarrow> f AND v = v"
proof (rule bit_word_eqI)
  fix n assume "canWrite f v" "n < LENGTH(8)"
  then have "\<not> bit (NOT f AND v) n" by (simp add: canWrite_def)
  then show "bit (f AND v) n = bit v n" using \<open>n < LENGTH(8)\<close> by (auto simp: bit_simps)
qed

lemma ll_erased:
  assumes "ll_ready s" "clears (cells (chip s)) (cells c)"
    "cells c a = 0xFF \<or> polls c = 0 \<and> cells c = cells (chip s)"
  shows "erases (\<lambda>s. cells (chip s)) ll_pending a s (s\<lparr>chip := c\<rparr>)"
  using assms by (auto simp: erases_def clears_def ll_pending_def ll_ready_def)

lemma ll_erase_ok:
  assumes "ll_ok s" "ll_ready s"
  shows "ll_ok (FlashLowLevel_WriteByte bus v a s)"
    "ll_ok (FlashLowLevel_InititiateSectorErase bus a s)"
    "ll_ok (FlashLowLevel_InititiateBlockErase bus a s)"
    "ll_ok (FlashLowLevel_InititiateChipErase bus s)"
proof -
  have c: "sane (chip s)" "polls (chip s) = 0"
    using assms by (auto simp: ll_ok_def ll_ready_def)
  note k = ll_ok_chip [OF assms] ll_commands [OF assms(1)]
  show "ll_ok (FlashLowLevel_WriteByte bus v a s)" using k program [OF c] by simp
  show "ll_ok (FlashLowLevel_InititiateSectorErase bus a s)" using k erase_sector [OF c refl] by simp
  show "ll_ok (FlashLowLevel_InititiateBlockErase bus a s)" using k erase_block [OF c refl] by simp
  show "ll_ok (FlashLowLevel_InititiateChipErase bus s)" using k erase_chip [OF c refl] by simp
qed

lemma ll_erase_effect:
  assumes "ll_ok s" "ll_ready s"
  shows "unat a < len \<Longrightarrow> erases (\<lambda>s. cells (chip s)) ll_pending (unat a) s
      (FlashLowLevel_InititiateSectorErase bus a s)"
    "unat a < len \<Longrightarrow> erases (\<lambda>s. cells (chip s)) ll_pending (unat a) s
      (FlashLowLevel_InititiateBlockErase bus a s)"
    "clears (cells (chip s)) (cells (chip (FlashLowLevel_InititiateChipErase bus s)))"
    "i < len \<Longrightarrow> cells (chip (FlashLowLevel_InititiateChipErase bus s)) i = 0xFF"
proof -
  have c: "sane (chip s)" "polls (chip s) = 0"
    using assms by (auto simp: ll_ok_def ll_ready_def)
  note k = ll_erased [OF assms(2)] ll_commands [OF assms(1)]
  show "unat a < len \<Longrightarrow> erases (\<lambda>s. cells (chip s)) ll_pending (unat a) s
      (FlashLowLevel_InititiateSectorErase bus a s)"
    using k erase_sector [OF c refl] by simp
  show "unat a < len \<Longrightarrow> erases (\<lambda>s. cells (chip s)) ll_pending (unat a) s
      (FlashLowLevel_InititiateBlockErase bus a s)"
    using k erase_block [OF c refl] by simp
  show "clears (cells (chip s)) (cells (chip (FlashLowLevel_InititiateChipErase bus s)))"
    "i < len \<Longrightarrow> cells (chip (FlashLowLevel_InititiateChipErase bus s)) i = 0xFF"
    using k erase_chip [OF c refl] by simp_all
qed

lemma ll_write_effect:
  assumes "ll_ok s" "ll_ready s" "unat a < len" "canWrite (cells (chip s) (unat a)) v"
  shows "cells (chip (FlashLowLevel_WriteByte bus v a s)) = (cells (chip s))(unat a := v)"
proof -
  have "sane (chip s)" "polls (chip s) = 0"
    using assms by (auto simp: ll_ok_def ll_ready_def)
  from program [OF this, of a v] assms(3) canWrite_and [OF assms(4)]
  have "cells (cycles bus base (unlock @ [(0x5555, 0xa0), (a, v)]) (chip s)) =
      (cells (chip s))(unat a := v)" by presburger
  then show ?thesis unfolding ll_commands(1) [OF assms(1)] by simp
qed

lemma ll_identifies:
  assumes "ll_ok s" "ll_ready s"
    and t: "flash_search aknownflashtypesDefault manufacturer device = Some (Some t)"
  shows "\<exists>s'. FlashLowLevel_ReadDevice bus s = Some (True, s') \<and> ll_ok s' \<and> ll_ready s' \<and>
    cells (chip s') = cells (chip s) \<and> flashType (flashDevice s') = t"
proof -
  let ?c = "cycles bus base (unlock @ [(0x5555, 0xf0)]) (chip s)"
  have c: "sane ?c" "polls ?c = 0" "cells ?c = cells (chip s)"
    using assms reset [OF _ _ refl, of "chip s"] by (auto simp: ll_ok_def ll_ready_def)
  obtain c1 c2 where r:
      "bus_read bus (cycles bus base (unlock @ [(0x5555, 0x90)]) ?c) base = (manufacturer, c1)"
      "bus_read bus c1 (base + 1) = (device, c2)" "sane (cycles bus base [(0x5555, 0xf0)] c2)"
      "polls (cycles bus base [(0x5555, 0xf0)] c2) = 0"
      "cells (cycles bus base [(0x5555, 0xf0)] c2) = cells ?c"
    using autoselect [OF c(1,2)] by blast
  let ?s = "s\<lparr>chip := cycles bus base [(0x5555, 0xf0)] c2\<rparr>"
  have "s\<lparr>firstBusyRead := True\<rparr> = s" using assms by (simp add: ll_ready_def)
  moreover have "ReadDeviceIDBytes bus (ResetFlashICStateMachine bus s) = ((manufacturer, device), ?s)"
    using assms(1) r(1,2)
    by (simp add: ll_ok_def ReadDeviceIDBytes_def ReadDeviceID_29xxx_def
        ResetFlashICStateMachine_def ResetFlashICStateMachine_29xxx_def mmio_write_def mmio_read_def
        FlashLowLevel_ReadByte_def cycles_def)
  ultimately have "FlashLowLevel_ReadDevice bus s = Some (True, ?s\<lparr>flashDevice := (flashDevice s)
      \<lparr>flashType := t, m_szAdditionalErrorInfo := [], m_fIsBelievedCapableOfWriteAndErase := True\<rparr>\<rparr>)"
    using assms(1) t
    by (simp add: FlashLowLevel_ReadDevice_def ReadDevice_round_def MatchDevice_def ll_ok_def)
  then show ?thesis using assms(1,2) r(3-5) c(3) by (simp add: ll_ok_def ll_ready_def)
qed

end

sublocale jedec_chip \<subseteq> ll: flash_device "lowlevel_ops p bus" "\<lambda>s. cells (chip s)" len ll_ok ll_ready
  ll_pending "\<lambda>_. True"
proof (unfold_locales, unfold lowlevel_ops_simps option.inject)
  fix s b s'
  assume "ll_ok s" "FlashLowLevel_DeviceIsBusy bus s = (b, s')"
  from poll_ll [OF this]
  show "ll_ok s' \<and> cells (chip s') = cells (chip s) \<and> (\<not> b \<longrightarrow> ll_ready s')" by blast
next
  fix s s'
  assume "ll_ok s" "FlashLowLevel_DeviceIsBusy bus s = (True, s')"
  from poll_ll [OF this] show "ll_pending s' < ll_pending s" by blast
next
  fix s s'
  assume "ll_ok s" "FlashLowLevel_DeviceIsBusy bus s = (False, s')"
  from poll_ll [OF this] show "ll_pending s' \<le> 1" by blast
next
  fix s s' and a :: u32 and v
  assume "ll_ok s" "ll_ready s" "unat a < len" "ll_pending s \<le> 1"
    "FlashLowLevel_ReadByte bus a s = (v, s')"
  then show "ll_pending s' \<le> 1" using ll_read by simp
next
  fix s and a :: u32
  assume "ll_ok s" "ll_ready s" "unat a < len"
  then show "\<exists>s'. FlashLowLevel_ReadByte bus a s = (cells (chip s) (unat a), s') \<and> ll_ok s' \<and>
      ll_ready s' \<and> cells (chip s') = cells (chip s)"
    using ll_read by blast
next
  fix s assume "ll_ok s" "ll_ready s"
  then show "\<exists>s'. FlashLowLevel_InititiateChipErase bus s = s' \<and>
      (\<forall>i. cells (chip s') i = cells (chip s) i \<or> cells (chip s') i = 0xFF) \<and>
      (\<forall>i < len. cells (chip s') i = 0xFF)"
    using ll_erase_effect(3,4) unfolding clears_def by blast
qed (use ll_erase_ok ll_erase_effect(1,2) ll_write_effect in blast)+

subsection \<open>A chip that keeps the promise\<close>

text \<open>A megabyte of SST flash (49LF080A): 4 KB sectors, 64 KB blocks. Between commands it is in
  \<^verbatim>\<open>Cyc_Array\<close>; the other cycles are the prefixes of the command sequences.\<close>

datatype jedec_cycle =
    Cyc_Array | Cyc_Unlock1 | Cyc_Unlock2 | Cyc_Program | Cyc_Erase | Cyc_Erase1 | Cyc_Erase2
  | Cyc_Id

record sst_chip =
  sst_cells :: "nat \<Rightarrow> u8"
  sst_cycle :: jedec_cycle
  sst_busy :: nat
  sst_toggle :: bool

definition sst_len :: nat where "sst_len = 1048576"

definition sst_erase :: "(nat \<Rightarrow> bool) \<Rightarrow> nat \<Rightarrow> sst_chip \<Rightarrow> sst_chip" where
  "sst_erase hit n c =
    c\<lparr>sst_cells := (\<lambda>i. if hit i then 0xFF else sst_cells c i), sst_cycle := Cyc_Array,
      sst_busy := n\<rparr>"

definition sst_command :: "u32 \<Rightarrow> u8 \<Rightarrow> sst_chip \<Rightarrow> sst_chip" where
  "sst_command a v c =
    (case sst_cycle c of
       Cyc_Array \<Rightarrow> if a = 0x5555 \<and> v = 0xaa then c\<lparr>sst_cycle := Cyc_Unlock1\<rparr> else c
     | Cyc_Unlock1 \<Rightarrow> if a = 0x2aaa \<and> v = 0x55 then c\<lparr>sst_cycle := Cyc_Unlock2\<rparr>
                      else c\<lparr>sst_cycle := Cyc_Array\<rparr>
     | Cyc_Unlock2 \<Rightarrow> if a = 0x5555 \<and> v = 0xa0 then c\<lparr>sst_cycle := Cyc_Program\<rparr>
                      else if a = 0x5555 \<and> v = 0x80 then c\<lparr>sst_cycle := Cyc_Erase\<rparr>
                      else if a = 0x5555 \<and> v = 0x90 then c\<lparr>sst_cycle := Cyc_Id\<rparr>
                      else c\<lparr>sst_cycle := Cyc_Array\<rparr>
     | Cyc_Program \<Rightarrow> c\<lparr>sst_cells := (sst_cells c)(unat a := sst_cells c (unat a) AND v),
                       sst_cycle := Cyc_Array, sst_busy := 1\<rparr>
     | Cyc_Erase \<Rightarrow> if a = 0x5555 \<and> v = 0xaa then c\<lparr>sst_cycle := Cyc_Erase1\<rparr>
                    else c\<lparr>sst_cycle := Cyc_Array\<rparr>
     | Cyc_Erase1 \<Rightarrow> if a = 0x2aaa \<and> v = 0x55 then c\<lparr>sst_cycle := Cyc_Erase2\<rparr>
                     else c\<lparr>sst_cycle := Cyc_Array\<rparr>
     | Cyc_Erase2 \<Rightarrow> if v = 0x30 then sst_erase (\<lambda>i. i div 4096 = unat a div 4096) 20 c
                     else if v = 0x50 then sst_erase (\<lambda>i. i div 65536 = unat a div 65536) 20 c
                     else if a = 0x5555 \<and> v = 0x10 then sst_erase (\<lambda>i. i < sst_len) 100 c
                     else c\<lparr>sst_cycle := Cyc_Array\<rparr>
     | Cyc_Id \<Rightarrow> if v = 0xf0 then c\<lparr>sst_cycle := Cyc_Array\<rparr> else c)"

definition sst_bus :: "sst_chip lpc_bus" where
  "sst_bus =
    \<lparr>bus_read = (\<lambda>c addr.
       if sst_busy c \<noteq> 0
       then (if sst_toggle c then 0x40 else 0,
             c\<lparr>sst_busy := sst_busy c - 1, sst_toggle := \<not> sst_toggle c\<rparr>)
       else if sst_cycle c = Cyc_Id then (if addr = LPCFlashadress then 0xbf else 0x5b, c)
       else (sst_cells c (unat (addr - LPCFlashadress)), c)),
     bus_write = (\<lambda>c addr v.
       if sst_busy c \<noteq> 0 then c else sst_command (addr - LPCFlashadress) v c)\<rparr>"

lemma bit_0x40 [simp]: "bit (0x40 :: u8) 6"
  by code_simp

lemmas sst_defs = sst_bus_def sst_command_def sst_erase_def cycles_def clears_def sst_len_def

interpretation sst: jedec_chip sst_bus LPCFlashadress sst_cells sst_len
  "\<lambda>c. sst_cycle c = Cyc_Array" sst_busy sst_toggle "0xbf" "0x5b"
  by unfold_locales (auto simp: sst_defs)

end
