(* ===== verification/FlashSpoof.thy ===== *)
theory FlashSpoof
  imports Flash_Progress
begin

text \<open>
  pc_tools/FlashSimulator/spoof_FlashLowLevel.c: the simulated flash device with which the
  repository tests the flash driver on a PC, as an instance of \<^verbatim>\<open>flash_ops\<close>. A memset or an access
  outside its one-megabyte array is \<^verbatim>\<open>None\<close>.
\<close>

record flash_spoof =
  forceDeviceNotBusy :: bool
  busyCheckCount :: u32
  howManyTimeBusyShouldReportTrue :: u32
  spoof_firstBusyRead :: bool
  spoof_lastStatusRegisterState :: u8
  memoryBuffer :: "nat \<Rightarrow> u8"
  blockEraseSupported :: bool
  sectorEraseSupported :: bool
  chipEraseSupported :: bool
  spoof_flashDevice :: OBJECT_FLASH

definition spoof_FlashSize :: nat where
  "spoof_FlashSize = 1048576"

definition spoof_memset :: "nat \<Rightarrow> u8 \<Rightarrow> nat \<Rightarrow> flash_spoof \<Rightarrow> flash_spoof option" where
  "spoof_memset start v n s =
    (if start + n \<le> spoof_FlashSize
     then Some (s\<lparr>memoryBuffer :=
            (\<lambda>i. if start \<le> i \<and> i < start + n then v else memoryBuffer s i)\<rparr>)
     else None)"

definition spoof_Init :: "flash_spoof \<Rightarrow> flash_spoof" where
  "spoof_Init s =
    s\<lparr>busyCheckCount := 0, howManyTimeBusyShouldReportTrue := 3, spoof_firstBusyRead := True,
      spoof_lastStatusRegisterState := 0, forceDeviceNotBusy := True,
      memoryBuffer := (\<lambda>i. if i < spoof_FlashSize then 0x22 else memoryBuffer s i),
      blockEraseSupported := False, sectorEraseSupported := True, chipEraseSupported := True\<rparr>"

definition spoof_ReadDevice :: "flash_spoof \<Rightarrow> bool \<times> flash_spoof" where
  "spoof_ReadDevice s =
    (True, s\<lparr>spoof_flashDevice := (spoof_flashDevice s)
       \<lparr>flashType := (flashType (spoof_flashDevice s))
          \<lparr>m_bDeviceId := 0x05, m_bManufacturerId := 0xAA,
           m_dwLengthInBytes := word_of_nat spoof_FlashSize,
           m_szFlashDescription := ''Spoof flash device''\<rparr>,
        m_fIsBelievedCapableOfWriteAndErase := True, m_pbMemoryMappedStartAddress := 0,
        m_szAdditionalErrorInfo := []\<rparr>\<rparr>)"

definition spoof_DeviceIsBusy :: "flash_spoof \<Rightarrow> bool \<times> flash_spoof" where
  "spoof_DeviceIsBusy s =
    (if forceDeviceNotBusy s then (False, s)
     else if howManyTimeBusyShouldReportTrue s \<le> busyCheckCount s
     then (False, s\<lparr>forceDeviceNotBusy := True, busyCheckCount := 0\<rparr>)
     else (True, s\<lparr>busyCheckCount := busyCheckCount s + 1\<rparr>))"

definition spoof_go_busy :: "u32 \<Rightarrow> flash_spoof \<Rightarrow> flash_spoof" where
  "spoof_go_busy polls s =
    s\<lparr>forceDeviceNotBusy := False, busyCheckCount := 0, howManyTimeBusyShouldReportTrue := polls\<rparr>"

definition spoof_BlockErase :: "u32 \<Rightarrow> flash_spoof \<Rightarrow> flash_spoof option" where
  "spoof_BlockErase addr s =
    (if blockEraseSupported s then spoof_memset (unat addr) 0xff (4 * 1024) (spoof_go_busy 4 s)
     else Some s)"

definition spoof_SectorErase :: "u32 \<Rightarrow> flash_spoof \<Rightarrow> flash_spoof option" where
  "spoof_SectorErase addr s =
    (if sectorEraseSupported s then spoof_memset (unat addr) 0xff (64 * 1024) (spoof_go_busy 10 s)
     else Some s)"

definition spoof_ChipErase :: "flash_spoof \<Rightarrow> flash_spoof option" where
  "spoof_ChipErase s =
    (if chipEraseSupported s then spoof_memset 0 0xff spoof_FlashSize (spoof_go_busy 20 s)
     else Some s)"

definition spoof_WriteByte :: "u8 \<Rightarrow> u32 \<Rightarrow> flash_spoof \<Rightarrow> flash_spoof option" where
  "spoof_WriteByte byte addr s =
    (if forceDeviceNotBusy s then spoof_memset (unat addr) byte 1 (spoof_go_busy 4 s) else Some s)"

definition spoof_ReadByte :: "u32 \<Rightarrow> flash_spoof \<Rightarrow> (u8 \<times> flash_spoof) option" where
  "spoof_ReadByte addr s =
    (if unat addr < spoof_FlashSize then Some (memoryBuffer s (unat addr), s) else None)"

definition spoof_ops :: "(u32 \<Rightarrow> u32 \<Rightarrow> u8) \<Rightarrow> flash_spoof flash_ops" where
  "spoof_ops percent =
    \<lparr>op_Init = spoof_Init, op_ReadDevice = (\<lambda>s. Some (spoof_ReadDevice s)),
     op_DeviceIsBusy = spoof_DeviceIsBusy, op_ReadByte = spoof_ReadByte,
     op_WriteByte = spoof_WriteByte, op_SectorErase = spoof_SectorErase,
     op_BlockErase = spoof_BlockErase, op_ChipErase = spoof_ChipErase,
     op_flashDevice = spoof_flashDevice, op_percent = percent\<rparr>"

subsection \<open>The simulator keeps the contract\<close>

definition spoof_pending :: "flash_spoof \<Rightarrow> nat" where
  "spoof_pending s =
    (if forceDeviceNotBusy s then 0
     else unat (howManyTimeBusyShouldReportTrue s) - unat (busyCheckCount s))"

text \<open>An erase command starts at the address it is given and clears up to 64 KB from there.\<close>

definition spoof_erasable :: "nat \<Rightarrow> bool" where
  "spoof_erasable a \<longleftrightarrow> a + 64 * 1024 \<le> spoof_FlashSize"

lemma spoof_ops_simps [simp]:
  "op_DeviceIsBusy (spoof_ops p) = spoof_DeviceIsBusy"
  "op_ReadByte (spoof_ops p) = spoof_ReadByte"
  "op_WriteByte (spoof_ops p) = spoof_WriteByte"
  "op_SectorErase (spoof_ops p) = spoof_SectorErase"
  "op_BlockErase (spoof_ops p) = spoof_BlockErase"
  "op_ChipErase (spoof_ops p) = spoof_ChipErase"
  "op_flashDevice (spoof_ops p) = spoof_flashDevice"
  "op_ReadDevice (spoof_ops p) = (\<lambda>s. Some (spoof_ReadDevice s))"
  by (simp_all add: spoof_ops_def)

lemmas spoof_op_defs =
  spoof_DeviceIsBusy_def spoof_ReadByte_def spoof_WriteByte_def spoof_SectorErase_def
  spoof_BlockErase_def spoof_ChipErase_def spoof_memset_def spoof_go_busy_def

lemma spoof_poll_progress:
  "spoof_DeviceIsBusy s = (True, s') \<Longrightarrow> spoof_pending s' < spoof_pending s"
proof -
  assume b: "spoof_DeviceIsBusy s = (True, s')"
  then have c: "busyCheckCount s < howManyTimeBusyShouldReportTrue s"
    by (auto simp: spoof_DeviceIsBusy_def not_le split: if_splits)
  then have "unat (busyCheckCount s + 1) = unat (busyCheckCount s) + 1"
    using unat_u32_less [of "howManyTimeBusyShouldReportTrue s"]
    by (simp add: word_less_nat_alt unat_word_ariths)
  then show ?thesis using b c
    by (auto simp: spoof_DeviceIsBusy_def spoof_pending_def word_less_nat_alt split: if_splits)
qed

interpretation spoof: flash_device "spoof_ops p" memoryBuffer spoof_FlashSize chipEraseSupported
  forceDeviceNotBusy spoof_pending spoof_erasable
proof unfold_locales
  fix s s' assume "op_DeviceIsBusy (spoof_ops p) s = (True, s')"
  then show "spoof_pending s' < spoof_pending s" by (simp add: spoof_poll_progress)
qed (auto simp: spoof_op_defs spoof_pending_def spoof_erasable_def erases_def fun_eq_iff
      split: if_splits)

text \<open>C8: On the simulator with chip erase enabled, a BIOS write of any range that stays 64 KB clear of
  the end of the array ends in \<^verbatim>\<open>FlashOp_Completed\<close> with the buffer copied into the array, also
  when sector and block erase are disabled and the driver has to fall back.\<close>

theorem spoof_write_completes:
  assumes "chipEraseSupported (lowlevel d)" and "forceDeviceNotBusy (lowlevel d)"
    and "unat (startingOffset d) + unat (biosBufferSize d) + 65535 \<le> spoof_FlashSize"
    and "0 < biosBufferSize d" and "currentFlashTask d = FlashTask_WriteBios"
    and "currentFlashOp d = FlashOp_PendingOp" and "currentAddr d = 0" and "firstEraseTry d"
    and "eraseBusyCount d = 0"
  shows "\<exists>n d'. fsm_run n (spoof_ops p) d = Some d' \<and> currentFlashOp d' = FlashOp_Completed \<and>
    (\<forall>i < unat (biosBufferSize d).
       memoryBuffer (lowlevel d') (unat (startingOffset d) + i) = biosBuffer d i)"
  using assms
  by (intro spoof.write_completes)
     (simp_all add: fits_def spoof_pending_def spoof_erasable_def spoof_FlashSize_def biosBuffer_len_def)

definition spoof_drv :: "flash_spoof flash_drv" where
  "spoof_drv =
    \<lparr>biosBuffer = (\<lambda>_. 0x5A), biosBufferSize = 0x40000, currentFlashOp = FlashOp_PendingOp,
     flashErrorCode = FlashErrorcodes_NoError, startingOffset = 0x80000, currentAddr = 0,
     currentFlashTask = FlashTask_WriteBios, eraseSequenceMethod = EraseSequenceMethod_Sector,
     eraseBusyCount = 0, firstEraseTry = True,
     lowlevel = \<lparr>forceDeviceNotBusy = True, busyCheckCount = 0, howManyTimeBusyShouldReportTrue = 3,
       spoof_firstBusyRead = True, spoof_lastStatusRegisterState = 0, memoryBuffer = (\<lambda>_. 0x22),
       blockEraseSupported = False, sectorEraseSupported = False, chipEraseSupported = True,
       spoof_flashDevice = \<lparr>m_pbMemoryMappedStartAddress = 0, flashType = known_flash 0xAA 5 [] 0x100000 0,
         m_szAdditionalErrorInfo = [], m_fIsBelievedCapableOfWriteAndErase = True\<rparr>\<rparr>,
     hw = lpc_hw_v1, LPCmodSettings = populateSettingsStructWithDefault False lpc_hw_v1,
     LPCmodSettingsOrigFromFlash = populateSettingsStructWithDefault False lpc_hw_v1\<rparr>"

theorem spoof_write_completes_witness:
  "\<exists>n d'. fsm_run n (spoof_ops (\<lambda>_ _. 0)) spoof_drv = Some d' \<and> currentFlashOp d' = FlashOp_Completed \<and>
    (\<forall>i < unat (0x40000 :: u32). memoryBuffer (lowlevel d') (unat (0x80000 :: u32) + i) = 0x5A)"
  using spoof_write_completes [of spoof_drv "\<lambda>_ _. 0"]
  by (simp add: spoof_drv_def spoof_FlashSize_def)

end
