(* ===== verification/Flash_Correct.thy ===== *)
theory Flash_Correct
  imports Flash_Jedec FlashSpoof
begin

text \<open>
  The requests of drivers/flash/FlashDriver.c together with the state machine that serves them:
  what \<^verbatim>\<open>checkImageSize\<close> and \<^verbatim>\<open>mirrorimage\<close> let through, that a completed BIOS write has put the
  mirrored image into the flash, and that on a JEDEC chip and on the simulator it does complete.
\<close>

text \<open>An idle driver on the SST chip, for the examples below.\<close>

definition sst_drv :: "sst_chip flash_ll flash_drv" where
  "sst_drv =
    \<lparr>biosBuffer = (\<lambda>_. 0), biosBufferSize = 0, currentFlashOp = FlashOp_Idle,
     flashErrorCode = FlashErrorcodes_NoError, startingOffset = 0, currentAddr = 0,
     currentFlashTask = FlashTask_NoTask, eraseSequenceMethod = EraseSequenceMethod_Sector,
     eraseBusyCount = 0, firstEraseTry = True,
     lowlevel = \<lparr>is28xxxProtocol = False, firstBusyRead = True, lastStatusRegisterState = 0,
       flashDevice = zeroed_flash\<lparr>m_pbMemoryMappedStartAddress := LPCFlashadress\<rparr>,
       chip = \<lparr>sst_cells = (\<lambda>_. 0), sst_cycle = Cyc_Array, sst_busy = 0, sst_toggle = False\<rparr>\<rparr>,
     hw = lpc_hw_v1, LPCmodSettings = populateSettingsStructWithDefault False lpc_hw_v1,
     LPCmodSettingsOrigFromFlash = populateSettingsStructWithDefault False lpc_hw_v1\<rparr>"

lemma sst_known: "flash_search aknownflashtypesDefault 0xbf 0x5b =
    Some (Some (known_flash 0xbf 0x5b ''SST_49LF080A'' 0x100000 1))"
  by code_simp

subsection \<open>Checking and mirroring the image\<close>

lemma checkImageSize_NoError:
  "checkImageSize ops sz d = FlashErrorcodes_NoError \<longleftrightarrow>
     0 < unat sz \<and> unat sz \<le> unat (device_length ops d) \<and> 256 dvd unat sz"
proof -
  have "sz mod 256 * 1024 = 0 \<longleftrightarrow> 256 dvd unat sz"
  proof -
    have "unat sz mod 256 * 1024 < 2 ^ 32"
      using mod_less_divisor [of 256 "unat sz"] by simp
    then have "unat (sz mod 256 * 1024) = unat sz mod 256 * 1024"
      by (simp add: unat_word_ariths unat_mod_distrib)
    then have "sz mod 256 * 1024 = 0 \<longleftrightarrow> unat sz mod 256 * 1024 = 0"
      by (metis unat_0 unat_eq_zero)
    then show ?thesis by (simp add: dvd_eq_mod_eq_0)
  qed
  then show ?thesis
    by (simp add: checkImageSize_def word_le_nat_alt word_less_nat_alt)
qed

text \<open>Because the macro 256 * 1024 is not parenthesised in \<^verbatim>\<open>size % 256 * 1024\<close>, a file is accepted
  exactly when its size is a positive multiple of 256 bytes that the device can hold, not a
  multiple of 256 KB.\<close>

lemma checkImageSize_accepts:
  "checkImageSize ops sz d = FlashErrorcodes_NoError \<longleftrightarrow>
     0 < unat sz \<and> unat sz \<le> unat (device_length ops d) \<and> 256 dvd unat sz"
  by (rule checkImageSize_NoError)

lemma unat_double: "2 * unat (x :: u32) \<le> biosBuffer_len \<Longrightarrow> unat (x + x) = 2 * unat x"
  by (simp add: unat_word_ariths biosBuffer_len_def)

lemma mirror_period:
  fixes s :: nat
  assumes "i mod (2 * s) = j" "0 < s"
  shows "(if s \<le> j \<and> j < 2 * s then f (j - s) else f j) = f (i mod s)"
proof -
  have j: "j < 2 * s" "j mod s = i mod s"
    using assms by (auto simp: mod_mod_cancel)
  show ?thesis
  proof (cases "s \<le> j")
    case True
    then have "j mod s = j - s" using j(1) by (simp add: le_mod_geq)
    then show ?thesis using True j by simp
  qed (use j in simp)
qed

lemma mirror_loop_image:
  assumes "mirror_loop fuel t d = Some d'" "0 < unat (biosBufferSize d)"
  shows "\<exists>k. unat (biosBufferSize d') = unat (biosBufferSize d) * 2 ^ k"
    and "t \<le> biosBufferSize d'"
    and "\<forall>i < unat (biosBufferSize d').
           biosBuffer d' i = biosBuffer d (i mod unat (biosBufferSize d))"
    and "\<exists>g n. d' = d\<lparr>biosBuffer := g, biosBufferSize := n\<rparr>"
    and "unat (biosBufferSize d) \<le> biosBuffer_len \<Longrightarrow> unat (biosBufferSize d') \<le> biosBuffer_len"
proof -
  have "(\<exists>k. unat (biosBufferSize d') = unat (biosBufferSize d) * 2 ^ k) \<and> t \<le> biosBufferSize d' \<and>
    (\<forall>i < unat (biosBufferSize d').
       biosBuffer d' i = biosBuffer d (i mod unat (biosBufferSize d))) \<and>
    (\<exists>g n. d' = d\<lparr>biosBuffer := g, biosBufferSize := n\<rparr>) \<and>
    (unat (biosBufferSize d) \<le> biosBuffer_len \<longrightarrow> unat (biosBufferSize d') \<le> biosBuffer_len)"
    using assms
  proof (induction fuel arbitrary: d)
    case (Suc fuel)
    show ?case
    proof (cases "biosBufferSize d < t")
      case True
      let ?s = "unat (biosBufferSize d)"
      let ?b = "\<lambda>i. if ?s \<le> i \<and> i < 2 * ?s then biosBuffer d (i - ?s) else biosBuffer d i"
      let ?d = "d\<lparr>biosBuffer := ?b, biosBufferSize := biosBufferSize d + biosBufferSize d\<rparr>"
      have le: "2 * ?s \<le> biosBuffer_len" and m: "mirror_loop fuel t ?d = Some d'"
        using Suc.prems(1) True by (auto split: if_splits)
      have sz: "unat (biosBufferSize ?d) = 2 * ?s" using unat_double [OF le] by simp
      note ih = Suc.IH [OF m, unfolded sz]
      then obtain k where "unat (biosBufferSize d') = ?s * 2 ^ Suc k"
        using Suc.prems(2) by auto
      moreover have "?b (i mod (2 * ?s)) = biosBuffer d (i mod ?s)" for i
        using mirror_period [OF refl Suc.prems(2)] .
      ultimately show ?thesis using ih Suc.prems(2) le by (intro conjI) (auto simp del: power_Suc)
    next
      case False
      then have d: "d' = d" using Suc.prems(1) by simp
      have "\<exists>g n. d = d\<lparr>biosBuffer := g, biosBufferSize := n\<rparr>"
        by (rule exI [of _ "biosBuffer d"], rule exI [of _ "biosBufferSize d"]) simp
      then show ?thesis using False unfolding d by (intro conjI) (auto intro: exI [of _ 0])
    qed
  qed simp
  then show "\<exists>k. unat (biosBufferSize d') = unat (biosBufferSize d) * 2 ^ k"
    "t \<le> biosBufferSize d'"
    "\<forall>i < unat (biosBufferSize d').
           biosBuffer d' i = biosBuffer d (i mod unat (biosBufferSize d))"
    "\<exists>g n. d' = d\<lparr>biosBuffer := g, biosBufferSize := n\<rparr>"
    "unat (biosBufferSize d) \<le> biosBuffer_len \<Longrightarrow> unat (biosBufferSize d') \<le> biosBuffer_len"
    by blast+
qed

lemma mirror_loop_reaches:
  assumes "unat (biosBufferSize d) * 2 ^ k = unat t" "unat t \<le> biosBuffer_len"
    "0 < unat (biosBufferSize d)" "k < fuel"
  shows "\<exists>d'. mirror_loop fuel t d = Some d' \<and> biosBufferSize d' = t"
  using assms
proof (induction k arbitrary: d fuel)
  case 0
  then have "biosBufferSize d = t" by (simp add: word_unat_eq_iff)
  then show ?case using 0 by (cases fuel) auto
next
  case (Suc k)
  obtain f where f: "fuel = Suc f" using Suc.prems(4) by (cases fuel) auto
  have k: "2 * unat (biosBufferSize d) * 2 ^ k = unat t" using Suc.prems(1) by simp
  have "2 * unat (biosBufferSize d) * 1 \<le> 2 * unat (biosBufferSize d) * 2 ^ k"
    by (intro mult_le_mono2) simp
  then have le: "2 * unat (biosBufferSize d) \<le> unat t" using k by simp
  then have "biosBufferSize d < t" using Suc.prems(3) by (simp add: word_less_nat_alt)
  then show ?case
    using Suc.IH [of "d\<lparr>biosBuffer := _, biosBufferSize := biosBufferSize d + biosBufferSize d\<rparr>" f]
      Suc.prems k le f unat_double [of "biosBufferSize d"] by simp
qed

lemma mirrorimage_exists:
  assumes "unat (biosBufferSize d) * 2 ^ k = unat (mirror_target ops bank d)"
    and "unat (mirror_target ops bank d) \<le> biosBuffer_len" and "0 < unat (biosBufferSize d)"
  shows "\<exists>d'. mirrorimage ops bank d = Some d' \<and> biosBufferSize d' = mirror_target ops bank d"
proof -
  have "(2 :: nat) ^ k \<le> unat (mirror_target ops bank d)"
    using assms(1,3) by (metis mult_le_mono1 nat_mult_1 Suc_leI One_nat_def)
  then have "(2 :: nat) ^ k < 2 ^ 33" using assms(2) by (simp add: biosBuffer_len_def)
  then have "k < 33" by (rule power_less_imp_less_exp [rotated]) simp
  from mirror_loop_reaches [OF assms this] show ?thesis unfolding mirrorimage_def .
qed

text \<open>C16: When the image size times a power of two is the size of the target (a bank or the whole
  device) and the target fits the buffer, the doubling loop ends with an image of exactly the
  target size that repeats the file.\<close>

theorem mirrorimage_fills_target:
  assumes "unat (biosBufferSize d) * 2 ^ k = unat (mirror_target ops bank d)"
    and "unat (mirror_target ops bank d) \<le> biosBuffer_len" and "0 < unat (biosBufferSize d)"
  shows "\<exists>d'. mirrorimage ops bank d = Some d' \<and> biosBufferSize d' = mirror_target ops bank d \<and>
    (\<forall>i < unat (mirror_target ops bank d).
       biosBuffer d' i = biosBuffer d (i mod unat (biosBufferSize d)))"
proof -
  obtain d' where "mirrorimage ops bank d = Some d'" "biosBufferSize d' = mirror_target ops bank d"
    using mirrorimage_exists [OF assms] by blast
  with mirror_loop_image(3) [OF _ assms(3)] show ?thesis by (auto simp: mirrorimage_def)
qed

theorem mirrorimage_fills_target_witness:
  "\<exists>d'. mirrorimage (lowlevel_ops (\<lambda>_ _. 0) sst_bus) FlashBank_256Bank
      (sst_drv\<lparr>biosBufferSize := 0x20000\<rparr>) = Some d' \<and> biosBufferSize d' = 0x40000 \<and>
    (\<forall>i < unat (0x40000 :: u32). biosBuffer d' i = 0)"
  using mirrorimage_fills_target [of "sst_drv\<lparr>biosBufferSize := 0x20000\<rparr>" 1
      "lowlevel_ops (\<lambda>_ _. 0) sst_bus" FlashBank_256Bank]
  by (simp add: mirror_target_def flash_bank_defs flash_size_defs sst_drv_def)

subsection \<open>The write request\<close>

lemma buf_copy_image:
  assumes "buf_copy 0 (take n buf) d = Some d1" "n \<le> length buf"
  obtains g where "d1 = d\<lparr>biosBuffer := g\<rparr>" "n \<le> biosBuffer_len" "\<forall>i < n. g i = buf ! i"
  using assms by (auto simp: buf_copy_def overlay_def split: if_splits)

definition write_started ::
  "u8 list \<Rightarrow> u32 \<Rightarrow> u32 \<Rightarrow> 's flash_drv \<Rightarrow> 's flash_drv \<Rightarrow> bool" where
  "write_started buf sz offset d d1 \<longleftrightarrow>
     currentFlashTask d1 = FlashTask_WriteBios \<and> currentFlashOp d1 = FlashOp_PendingOp \<and>
     startingOffset d1 = offset \<and> firstEraseTry d1 \<and> eraseBusyCount d1 = 0 \<and>
     currentAddr d1 = currentAddr d \<and> flashErrorCode d1 = FlashErrorcodes_NoError \<and> 0 < unat (biosBufferSize d1) \<and>
     unat (biosBufferSize d1) \<le> biosBuffer_len \<and>
     (\<forall>i < unat (biosBufferSize d1). biosBuffer d1 i = buf ! (i mod unat sz))"

lemma WriteBios_cases:
  assumes "Flash_WriteBios ops buf sz offset bank d = Some (FlashErrorcodes_NoError, d1)"
  obtains s d3 where "op_ReadDevice ops (lowlevel d) = Some (True, s)"
    "checkImageSize ops sz (d\<lparr>lowlevel := s\<rparr>) = FlashErrorcodes_NoError" "unat sz \<le> length buf"
    "buf_copy 0 (take (unat sz) buf)
       (d\<lparr>lowlevel := s, flashErrorCode := FlashErrorcodes_NoError,
          eraseSequenceMethod := EraseSequenceMethod_Sector, eraseBusyCount := 0, firstEraseTry := True,
          currentFlashOp := FlashOp_PendingOp, currentFlashTask := FlashTask_WriteBios,
          biosBufferSize := sz, startingOffset := offset\<rparr>) = Some d3"
    "mirrorimage ops bank d3 = Some d1"
proof -
  note w = assms [unfolded Flash_WriteBios_def]
  have 1: "currentFlashOp d = FlashOp_Idle"
    using w by (cases "currentFlashOp d = FlashOp_Idle") simp_all
  note w = w [unfolded 1 simp_thms if_True]
  have "\<exists>s. op_ReadDevice ops (lowlevel d) = Some (True, s)"
  proof (cases "op_ReadDevice ops (lowlevel d)")
    case (Some r)
    then show ?thesis using w by (cases r; cases "fst r") simp_all
  qed (use w in simp)
  then obtain s where 2: "op_ReadDevice ops (lowlevel d) = Some (True, s)" ..
  note w = w [unfolded 2, simplified]
  have 4: "checkImageSize ops sz (d\<lparr>lowlevel := s\<rparr>) = FlashErrorcodes_NoError"
    using w by (cases "checkImageSize ops sz (d\<lparr>lowlevel := s\<rparr>) = FlashErrorcodes_NoError")
      (simp_all add: Let_def)
  have 5: "unat sz \<le> length buf"
    using w 4 by (cases "unat sz \<le> length buf") (simp_all add: Let_def)
  show thesis using that [OF 2 4 5] w 4 5 by (auto simp: Let_def bind_eq_Some_conv)
qed

lemma WriteBios_started:
  assumes "Flash_WriteBios ops buf sz offset bank d = Some (FlashErrorcodes_NoError, d1)"
  shows "write_started buf sz offset d d1"
proof -
  from assms obtain s d3 where r: "op_ReadDevice ops (lowlevel d) = Some (True, s)"
    "checkImageSize ops sz (d\<lparr>lowlevel := s\<rparr>) = FlashErrorcodes_NoError" "unat sz \<le> length buf"
    "buf_copy 0 (take (unat sz) buf)
       (d\<lparr>lowlevel := s, flashErrorCode := FlashErrorcodes_NoError,
          eraseSequenceMethod := EraseSequenceMethod_Sector, eraseBusyCount := 0, firstEraseTry := True,
          currentFlashOp := FlashOp_PendingOp, currentFlashTask := FlashTask_WriteBios,
          biosBufferSize := sz, startingOffset := offset\<rparr>) = Some d3"
    "mirrorimage ops bank d3 = Some d1"
    by (rule WriteBios_cases)
  obtain g where g: "d3 = d\<lparr>lowlevel := s, flashErrorCode := FlashErrorcodes_NoError,
      eraseSequenceMethod := EraseSequenceMethod_Sector, eraseBusyCount := 0, firstEraseTry := True,
      currentFlashOp := FlashOp_PendingOp, currentFlashTask := FlashTask_WriteBios,
      biosBufferSize := sz, startingOffset := offset, biosBuffer := g\<rparr>"
      "unat sz \<le> biosBuffer_len" "\<forall>i < unat sz. g i = buf ! i"
    by (rule buf_copy_image [OF r(4,3)])
  have sz: "0 < unat sz"
    using r(2) by (auto simp: checkImageSize_def word_less_nat_alt split: if_splits)
  have f: "biosBufferSize d3 = sz" "biosBuffer d3 = g" by (simp_all add: g(1))
  note m = mirror_loop_image [OF r(5) [unfolded mirrorimage_def], unfolded f, OF sz]
  have "0 < unat (biosBufferSize d1)" using m(1) sz by auto
  moreover have "\<forall>i < unat (biosBufferSize d1). biosBuffer d1 i = buf ! (i mod unat sz)"
    using m(3) g(3) sz by simp
  moreover obtain g' n where "d1 = d3\<lparr>biosBuffer := g', biosBufferSize := n\<rparr>" using m(4) by blast
  ultimately show ?thesis
    using m(5) [OF g(2)] unfolding write_started_def by (simp add: g(1))
qed

lemma write_started_fits:
  assumes "write_started buf sz offset d d1" "unat offset + unat (biosBufferSize d1) \<le> len"
    "len \<le> 2 ^ 32"
  shows "fits len d1"
  using assms by (simp add: write_started_def fits_def word_less_nat_alt)

text \<open>C2: Whatever the device does with erase and write commands, as long as it can be polled and
  read: when \<^verbatim>\<open>Flash_WriteBios\<close> accepted an image and the state machine has reached
  \<^verbatim>\<open>FlashOp_Completed\<close>, the flash holds the file, repeated to the size that was written.\<close>

theorem WriteBios_completed_exact:
  assumes "flash_reader ops mem len ok ready" and "len \<le> 2 ^ 32"
    and "Flash_WriteBios ops buf sz offset bank d = Some (FlashErrorcodes_NoError, d1)"
    and "currentAddr d = 0" and "ok (lowlevel d1)"
    and "unat offset + unat (biosBufferSize d1) \<le> len"
    and "fsm_run n ops d1 = Some d'" and "currentFlashOp d' = FlashOp_Completed"
    and "i < unat (biosBufferSize d1)"
  shows "mem (lowlevel d') (unat offset + i) = buf ! (i mod unat sz)"
proof -
  have w: "write_started buf sz offset d d1" using assms(3) by (rule WriteBios_started)
  then have "mem (lowlevel d') (unat (startingOffset d1) + i) = biosBuffer d1 i"
    using assms write_started_fits [OF w assms(6,2)]
    by (intro flash_reader.completed_write_is_exact [OF assms(1)]) (simp_all add: write_started_def)
  then show ?thesis using w assms(9) by (simp add: write_started_def)
qed

subsection \<open>A write on a JEDEC chip, from the request to the end\<close>

lemma WriteBios_accepts:
  assumes "currentFlashOp d = FlashOp_Idle" "op_ReadDevice ops (lowlevel d) = Some (True, s)"
    "checkImageSize ops sz (d\<lparr>lowlevel := s\<rparr>) = FlashErrorcodes_NoError" "unat sz \<le> length buf"
    "unat sz * 2 ^ k = unat (mirror_target ops bank (d\<lparr>lowlevel := s\<rparr>))"
    "unat (mirror_target ops bank (d\<lparr>lowlevel := s\<rparr>)) \<le> biosBuffer_len"
  shows "\<exists>d1. Flash_WriteBios ops buf sz offset bank d = Some (FlashErrorcodes_NoError, d1) \<and>
    lowlevel d1 = s \<and> biosBufferSize d1 = mirror_target ops bank (d\<lparr>lowlevel := s\<rparr>)"
proof -
  let ?t = "mirror_target ops bank (d\<lparr>lowlevel := s\<rparr>)"
  let ?d2 = "d\<lparr>lowlevel := s, flashErrorCode := FlashErrorcodes_NoError,
      eraseSequenceMethod := EraseSequenceMethod_Sector, eraseBusyCount := 0, firstEraseTry := True,
      currentFlashOp := FlashOp_PendingOp, currentFlashTask := FlashTask_WriteBios,
      biosBufferSize := sz, startingOffset := offset\<rparr>"
  let ?d3 = "?d2\<lparr>biosBuffer := overlay 0 (take (unat sz) buf) (biosBuffer d)\<rparr>"
  have sz: "0 < unat sz"
    using assms(3) by (auto simp: checkImageSize_def word_less_nat_alt split: if_splits)
  have "unat sz * 1 \<le> unat sz * 2 ^ k" by (intro mult_le_mono2) simp
  then have "unat sz \<le> biosBuffer_len" using assms(5,6) by simp
  then have c: "buf_copy 0 (take (unat sz) buf) ?d2 = Some ?d3"
    using assms(4) by (simp add: buf_copy_def)
  have t: "mirror_target ops bank ?d3 = ?t" by (simp add: mirror_target_def device_length_def)
  obtain d1 where m: "mirrorimage ops bank ?d3 = Some d1" "biosBufferSize d1 = ?t"
    using mirrorimage_exists [of ?d3 k ops bank] assms(5,6) sz unfolding t by auto
  moreover obtain g n where "d1 = ?d3\<lparr>biosBuffer := g, biosBufferSize := n\<rparr>"
    using mirror_loop_image(4) [OF m(1) [unfolded mirrorimage_def]] sz by auto
  moreover have "Flash_WriteBios ops buf sz offset bank d =
      map_option (\<lambda>d. (flashErrorCode d, d)) (mirrorimage ops bank ?d3)"
    using assms(1-4) c by (simp add: Flash_WriteBios_def map_option_case Let_def split: option.split)
  ultimately show ?thesis by auto
qed

context jedec_chip
begin

lemma request_accepted:
  assumes "flash_search aknownflashtypesDefault manufacturer device = Some (Some t)"
    and "unat (m_dwLengthInBytes t) = len" and "len \<le> biosBuffer_len"
    and "currentFlashOp d = FlashOp_Idle" and "ll_ok (lowlevel d)" and "ll_ready (lowlevel d)"
    and "0 < unat sz" and "256 dvd unat sz" and "unat sz * 2 ^ k = len" and "unat sz \<le> length buf"
  shows "\<exists>d1. Flash_WriteBios (lowlevel_ops p bus) buf sz 0 FlashBank_NoBank d =
      Some (FlashErrorcodes_NoError, d1) \<and> ll_ok (lowlevel d1) \<and> ll_ready (lowlevel d1) \<and>
      unat (biosBufferSize d1) = len"
proof -
  obtain s where s: "FlashLowLevel_ReadDevice bus (lowlevel d) = Some (True, s)" "ll_ok s" "ll_ready s"
      "flashType (flashDevice s) = t"
    using ll_identifies [OF assms(5,6,1)] by blast
  have dl: "device_length (lowlevel_ops p bus) (d\<lparr>lowlevel := s\<rparr>) = m_dwLengthInBytes t"
    using s(4) by (simp add: device_length_def)
  have mt: "mirror_target (lowlevel_ops p bus) FlashBank_NoBank (d\<lparr>lowlevel := s\<rparr>) = m_dwLengthInBytes t"
    using dl by (simp add: mirror_target_def flash_bank_defs)
  have "unat sz * 1 \<le> unat sz * 2 ^ k" by (intro mult_le_mono2) simp
  then have "checkImageSize (lowlevel_ops p bus) sz (d\<lparr>lowlevel := s\<rparr>) = FlashErrorcodes_NoError"
    using assms(2,7-9) by (simp add: checkImageSize_NoError dl)
  from WriteBios_accepts [OF assms(4) _ this assms(10), where k = k and bank = FlashBank_NoBank and offset = 0]
  show ?thesis using s assms(2,3,9) unfolding mt by auto
qed

lemma request_completes:
  assumes "Flash_WriteBios (lowlevel_ops p bus) buf sz 0 bank d = Some (FlashErrorcodes_NoError, d1)"
    and "ll_ok (lowlevel d1)" "ll_ready (lowlevel d1)" "currentAddr d = 0"
    and "unat (biosBufferSize d1) \<le> len"
  shows "\<exists>n d'. fsm_run n (lowlevel_ops p bus) d1 = Some d' \<and> currentFlashOp d' = FlashOp_Completed \<and>
    (\<forall>i < unat (biosBufferSize d1). cells (chip (lowlevel d')) i = buf ! (i mod unat sz))"
proof -
  have w: "write_started buf sz 0 d d1" using assms(1) by (rule WriteBios_started)
  have "ll_pending (lowlevel d1) \<le> 1" using assms(3) by (simp add: ll_pending_def ll_ready_def)
  then have "\<exists>n d'. fsm_run n (lowlevel_ops p bus) d1 = Some d' \<and> currentFlashOp d' = FlashOp_Completed \<and>
      (\<forall>i < unat (biosBufferSize d1).
         cells (chip (lowlevel d')) (unat (startingOffset d1) + i) = biosBuffer d1 i)"
    using w assms(2,4,5) len write_started_fits [OF w _ len(2)]
    by (intro ll.write_completes) (simp_all add: write_started_def)
  then show ?thesis using w by (auto simp: write_started_def)
qed

lemma simple_flash_completes:
  assumes "flash_search aknownflashtypesDefault manufacturer device = Some (Some t)"
    and "unat (m_dwLengthInBytes t) = len" and "len \<le> biosBuffer_len"
    and "currentFlashOp d = FlashOp_Idle" and "currentAddr d = 0"
    and "ll_ok (lowlevel d)" and "ll_ready (lowlevel d)"
    and "0 < unat sz" and "256 dvd unat sz" and "unat sz * 2 ^ k = len" and "unat sz \<le> length buf"
  shows "\<exists>pr d1 n d'. Flash_SimpleBIOSBankFlash (lowlevel_ops p bus) buf sz 0 d = Some (pr, d1) \<and>
    progressError pr = FlashErrorcodes_NoError \<and>
    fsm_run n (lowlevel_ops p bus) d1 = Some d' \<and> currentFlashOp d' = FlashOp_Completed \<and>
    (\<forall>i < len. cells (chip (lowlevel d')) i = buf ! (i mod unat sz))"
proof -
  obtain d1 where d1: "Flash_WriteBios (lowlevel_ops p bus) buf sz 0 FlashBank_NoBank d =
      Some (FlashErrorcodes_NoError, d1)" "ll_ok (lowlevel d1)" "ll_ready (lowlevel d1)"
      "unat (biosBufferSize d1) = len"
    using request_accepted [OF assms(1-4,6-11)] by blast
  have c: "flashErrorCode d1 = FlashErrorcodes_NoError"
    using WriteBios_started [OF d1(1)] by (simp add: write_started_def)
  then have e: "d1\<lparr>flashErrorCode := FlashErrorcodes_NoError\<rparr> = d1" by simp
  obtain n d' where "fsm_run n (lowlevel_ops p bus) d1 = Some d'" "currentFlashOp d' = FlashOp_Completed"
      "\<forall>i < len. cells (chip (lowlevel d')) i = buf ! (i mod unat sz)"
    using request_completes [OF d1(1-3) assms(5)] d1(4) by auto
  moreover have "Flash_SimpleBIOSBankFlash (lowlevel_ops p bus) buf sz 0 d =
      Some (Flash_getProgress (lowlevel_ops p bus) d1, d1)"
    by (simp add: Flash_SimpleBIOSBankFlash_def Flash_XBlastUserBankFlash_def d1(1) e)
  moreover have "progressError (Flash_getProgress (lowlevel_ops p bus) d1) = FlashErrorcodes_NoError"
    using c by (simp add: Flash_getProgress_def)
  ultimately show ?thesis by blast
qed

end

text \<open>C1: Flashing a BIOS onto a JEDEC chip that the table of known chips knows. An image whose size
  divides the chip by a power of two is accepted, the state machine ends in
  \<^verbatim>\<open>FlashOp_Completed\<close>, and then the whole chip holds the image over and over.\<close>

theorem SimpleBIOSBankFlash_succeeds:
  assumes "jedec_chip bus base cells len sane polls toggle man dev"
    and "flash_search aknownflashtypesDefault man dev = Some (Some t)"
    and "unat (m_dwLengthInBytes t) = len"
    and "currentFlashOp d = FlashOp_Idle" and "currentAddr d = 0"
    and "\<not> is28xxxProtocol (lowlevel d)" and "firstBusyRead (lowlevel d)"
    and "m_pbMemoryMappedStartAddress (flashDevice (lowlevel d)) = base"
    and "sane (chip (lowlevel d))" and "polls (chip (lowlevel d)) = 0"
    and "0 < unat sz" and "256 dvd unat sz" and "unat sz * 2 ^ k = len" and "unat sz \<le> length buf"
  shows "\<exists>pr d1 n d'. Flash_SimpleBIOSBankFlash (lowlevel_ops p bus) buf sz 0 d = Some (pr, d1) \<and>
    progressError pr = FlashErrorcodes_NoError \<and>
    fsm_run n (lowlevel_ops p bus) d1 = Some d' \<and> currentFlashOp d' = FlashOp_Completed \<and>
    (\<forall>i < len. cells (chip (lowlevel d')) i = buf ! (i mod unat sz))"
proof -
  have "real_chip t" using flash_search_default [of man dev] assms(2) by fastforce
  then have "len \<le> biosBuffer_len"
    using real_chip_length assms(3) by (fastforce simp: biosBuffer_len_def word_le_nat_alt)
  then show ?thesis
    using assms(4-10) assms(11-14)
    by (intro jedec_chip.simple_flash_completes [OF assms(1-3)])
       (simp_all add: jedec_chip.ll_ok_def [OF assms(1)] jedec_chip.ll_ready_def [OF assms(1)])
qed

text \<open>A 256 KB image on the one-megabyte SST chip.\<close>

theorem SimpleBIOSBankFlash_succeeds_witness:
  "\<exists>pr d1 n d'. Flash_SimpleBIOSBankFlash (lowlevel_ops (\<lambda>_ _. 0) sst_bus)
      (replicate 262144 0x5A) 0x40000 0 sst_drv = Some (pr, d1) \<and>
    progressError pr = FlashErrorcodes_NoError \<and>
    fsm_run n (lowlevel_ops (\<lambda>_ _. 0) sst_bus) d1 = Some d' \<and> currentFlashOp d' = FlashOp_Completed \<and>
    (\<forall>i < sst_len. sst_cells (chip (lowlevel d')) i = replicate 262144 0x5A ! (i mod unat (0x40000 :: u32)))"
  by (rule SimpleBIOSBankFlash_succeeds [OF sst.jedec_chip_axioms sst_known, where k = 2])
     (simp_all add: sst_drv_def sst_len_def zeroed_flash_def known_flash_def)

lemma sst_drv_ready: "sst.ll_ok (lowlevel sst_drv) \<and> sst.ll_ready (lowlevel sst_drv)"
  by (simp add: sst.ll_ok_def sst.ll_ready_def sst_drv_def zeroed_flash_def)

theorem WriteBios_completed_exact_witness:
  "\<exists>d1 n d'. Flash_WriteBios (lowlevel_ops (\<lambda>_ _. 0) sst_bus) (replicate 262144 0x5A) 0x40000 0
      FlashBank_NoBank sst_drv = Some (FlashErrorcodes_NoError, d1) \<and>
    fsm_run n (lowlevel_ops (\<lambda>_ _. 0) sst_bus) d1 = Some d' \<and> currentFlashOp d' = FlashOp_Completed \<and>
    sst_cells (chip (lowlevel d')) (unat (0 :: u32) + 7) = replicate 262144 0x5A ! (7 mod unat (0x40000 :: u32))"
proof -
  obtain d1 where d1: "Flash_WriteBios (lowlevel_ops (\<lambda>_ _. 0) sst_bus) (replicate 262144 0x5A) 0x40000 0
      FlashBank_NoBank sst_drv = Some (FlashErrorcodes_NoError, d1)"
      "sst.ll_ok (lowlevel d1)" "sst.ll_ready (lowlevel d1)" "unat (biosBufferSize d1) = sst_len"
    using sst.request_accepted [OF sst_known, of sst_drv "0x40000" 2 "replicate 262144 0x5A" "\<lambda>_ _. 0"]
      sst_drv_ready by (auto simp: known_flash_def sst_len_def biosBuffer_len_def sst_drv_def)
  obtain n d' where r: "fsm_run n (lowlevel_ops (\<lambda>_ _. 0) sst_bus) d1 = Some d'"
      "currentFlashOp d' = FlashOp_Completed"
    using sst.request_completes [OF d1(1-3)] d1(4) by (auto simp: sst_drv_def)
  from WriteBios_completed_exact [OF sst.ll.flash_reader_axioms _ d1(1) _ d1(2) _ r, of 7]
  have "sst_cells (chip (lowlevel d')) (unat (0 :: u32) + 7) =
      replicate 262144 0x5A ! (7 mod unat (0x40000 :: u32))"
    using d1(4) by (simp add: sst_len_def sst_drv_def)
  then show ?thesis using d1(1) r by blast
qed

end
