(* ===== verification/Flash_Settings.thy ===== *)
theory Flash_Settings
  imports FlashDriver
begin

text \<open>
  The settings sector of drivers/flash/FlashDriver.c: where the settings are kept, that what
  \<^verbatim>\<open>injectSettingsInBuf\<close> puts into the buffer is what \<^verbatim>\<open>Flash_LoadXBlastOSSettings\<close> takes out of it,
  and that a damaged copy is replaced by the defaults.
\<close>

lemma length_buf_bytes [simp]: "length (buf_bytes start n d) = n"
  by (simp add: buf_bytes_def)

lemma buf_bytes_overlay:
  assumes "start + length bs \<le> biosBuffer_len" "buf_copy start bs d = Some d'"
  shows "buf_bytes start (length bs) d' = bs"
  using assms by (auto simp: buf_copy_def buf_bytes_def overlay_def intro: nth_equalityI)

definition stamped :: "LPCmodSettings_t \<Rightarrow> LPCmodSettings_t" where
  "stamped s = s\<lparr>crc32Value := calculateSettingsStructCRC32Value (settings_bytes s)\<rparr>"

lemma settings_wf_stamped [simp]: "settings_wf (stamped s) = settings_wf s"
  by (simp add: stamped_def settings_wf_def)

lemma settings_body_stamped [simp]: "settings_body (stamped s) = settings_body s"
  by (simp add: stamped_def settings_body_def)

lemma crc_of_settings:
  "settings_wf s \<Longrightarrow> calculateSettingsStructCRC32Value (settings_bytes s) = crc32buf (settings_body s)"
  by (simp add: calculateSettingsStructCRC32Value_def settings_bytes_def length_settings_body
      settings_size_defs)

lemma stored_crc:
  "settings_wf s \<Longrightarrow>
     bytes_u32 (chunk (sizeof_LPCmodSettings - 4) 4 (settings_bytes s)) = crc32Value s"
  by (simp add: settings_bytes_def chunk_def length_settings_body settings_size_defs)

lemma crc32Value_stamped: "settings_wf s \<Longrightarrow> crc32Value (stamped s) = crc32buf (settings_body s)"
  by (simp add: stamped_def crc_of_settings)

lemma injected_bytes:
  assumes "settings_wf (LPCmodSettings d)" "injectSettingsInBuf offset d = Some d1" "offset \<noteq> 0"
    "offset mod biosBufferSize d = 0"
  shows "buf_bytes 0 sizeof_LPCmodSettings d1 = settings_bytes (stamped (LPCmodSettings d))"
    and "LPCmodSettings d1 = stamped (LPCmodSettings d)"
proof -
  let ?s = "stamped (LPCmodSettings d)"
  have c: "buf_copy 0 (settings_bytes ?s) (d\<lparr>LPCmodSettings := ?s\<rparr>) = Some d1"
    using assms by (auto simp: injectSettingsInBuf_def stamped_def Let_def split: if_splits)
  have l: "length (settings_bytes ?s) = sizeof_LPCmodSettings"
    using assms(1) by (simp add: length_settings_bytes settings_size_defs)
  from buf_bytes_overlay [OF _ c] show "buf_bytes 0 sizeof_LPCmodSettings d1 = settings_bytes ?s"
    by (simp add: l biosBuffer_len_def settings_size_defs)
  show "LPCmodSettings d1 = ?s" using c by (auto simp: buf_copy_def split: if_splits)
qed

text \<open>C4: Saving and loading the settings. The settings that were put at the start of the sector buffer
  are found again, checksum included, when that buffer has been read back.\<close>

theorem injected_settings_load:
  assumes "settings_wf (LPCmodSettings d)"
    and "settingsVersion (LPCmodSettings d) = CurrentSettingsVersionNumber"
    and "injectSettingsInBuf offset d = Some d1" and "offset \<noteq> 0"
    and "offset mod biosBufferSize d = 0"
    and "currentFlashOp d2 = FlashOp_Completed" and "currentFlashTask d2 = FlashTask_ReadSettings"
    and "buf_bytes 0 sizeof_LPCmodSettings d2 = buf_bytes 0 sizeof_LPCmodSettings d1"
  shows "Flash_LoadXBlastOSSettings vga d2 = (True, LPCmodSettings d1)"
proof -
  let ?s = "stamped (LPCmodSettings d)"
  have wf: "settings_wf ?s" using assms(1) by simp
  have b: "buf_bytes 0 sizeof_LPCmodSettings d2 = settings_bytes ?s" "LPCmodSettings d1 = ?s"
    using injected_bytes [OF assms(1,3,4,5)] assms(8) by simp_all
  have "settings_bytes ?s ! 0 = CurrentSettingsVersionNumber"
    using assms(2) by (simp add: settings_bytes_def settings_body_def stamped_def)
  then show ?thesis
    using assms(6,7) wf bytes_settings_of_settings_bytes [OF wf] stored_crc [OF wf]
      crc_of_settings [OF wf] crc32Value_stamped [OF assms(1)]
    by (simp add: Flash_LoadXBlastOSSettings_def Let_def b)
qed

text \<open>A driver that has read a settings sector.\<close>

definition settings_drv :: "FlashOp \<Rightarrow> FlashTask \<Rightarrow> u32 \<Rightarrow> (nat \<Rightarrow> u8) \<Rightarrow> unit flash_drv" where
  "settings_drv op task sz buf =
    \<lparr>biosBuffer = buf, biosBufferSize = sz, currentFlashOp = op,
     flashErrorCode = FlashErrorcodes_NoError, startingOffset = 0x30000, currentAddr = 0,
     currentFlashTask = task, eraseSequenceMethod = EraseSequenceMethod_Sector,
     eraseBusyCount = 0, firstEraseTry = True, lowlevel = (),
     hw = lpc_hw_v1, LPCmodSettings = populateSettingsStructWithDefault False lpc_hw_v1,
     LPCmodSettingsOrigFromFlash = populateSettingsStructWithDefault False lpc_hw_v1\<rparr>"

lemma defaults_version:
  "settingsVersion (populateSettingsStructWithDefault vga h) = CurrentSettingsVersionNumber"
  by (simp add: populateSettingsStructWithDefault_def Let_def)

theorem injected_settings_load_witness:
  "\<exists>d1. injectSettingsInBuf 0x30000
      (settings_drv FlashOp_ReadInProgress FlashTask_WriteSettings 0x1000 (\<lambda>_. 0xFF)) = Some d1 \<and>
    Flash_LoadXBlastOSSettings False
      (settings_drv FlashOp_Completed FlashTask_ReadSettings 3840 (biosBuffer d1)) = (True, LPCmodSettings d1)"
proof -
  let ?d = "settings_drv FlashOp_ReadInProgress FlashTask_WriteSettings 0x1000 (\<lambda>_. 0xFF)"
  have wf: "settings_wf (LPCmodSettings ?d)" by (simp add: settings_drv_def settings_wf_defaults)
  then have "length (settings_bytes (stamped (LPCmodSettings ?d))) = 3840"
    by (simp add: length_settings_bytes)
  then obtain d1 where d1: "injectSettingsInBuf 0x30000 ?d = Some d1"
    by (simp add: injectSettingsInBuf_def stamped_def settings_drv_def buf_copy_def biosBuffer_len_def Let_def)
  have "Flash_LoadXBlastOSSettings False
      (settings_drv FlashOp_Completed FlashTask_ReadSettings 3840 (biosBuffer d1)) = (True, LPCmodSettings d1)"
    by (rule injected_settings_load [OF wf _ d1])
       (simp_all add: settings_drv_def defaults_version buf_bytes_def)
  with d1 show ?thesis by blast
qed

lemma bytes_u32_update_neq:
  assumes "i < 4" "b \<noteq> u32_bytes w ! i"
  shows "bytes_u32 ((u32_bytes w)[i := b]) \<noteq> w"
proof
  assume "bytes_u32 ((u32_bytes w)[i := b]) = w"
  then have "(u32_bytes w)[i := b] = u32_bytes w"
    using u32_bytes_of_bytes_u32 [of "(u32_bytes w)[i := b]"] by simp
  then show False using assms by (metis length_u32_bytes nth_list_update_eq)
qed

lemma damaged_checksum:
  assumes "settings_wf s" "i < sizeof_LPCmodSettings" "b \<noteq> settings_bytes (stamped s) ! i"
  defines "bs \<equiv> (settings_bytes (stamped s))[i := b]"
  shows "calculateSettingsStructCRC32Value bs \<noteq> bytes_u32 (chunk (sizeof_LPCmodSettings - 4) 4 bs)"
proof (cases "i < 3836")
  case True
  have "bs = (settings_body s)[i := b] @ u32_bytes (crc32buf (settings_body s))"
    using True assms(1) by (simp add: bs_def settings_bytes_def length_settings_body list_update_append
        crc32Value_stamped)
  moreover have "b \<noteq> settings_body s ! i"
    using assms(1,3) True by (simp add: settings_bytes_def nth_append length_settings_body)
  ultimately show ?thesis
    using crc32buf_update_neq [of i "settings_body s" b] True assms(1)
    by (simp add: calculateSettingsStructCRC32Value_def chunk_def length_settings_body settings_size_defs)
next
  case False
  let ?c = "crc32buf (settings_body s)"
  have i: "i - 3836 < 4" using assms(2) False by (simp add: settings_size_defs)
  have "bs = settings_body s @ (u32_bytes ?c)[i - 3836 := b]"
    using False assms(1) by (simp add: bs_def settings_bytes_def length_settings_body list_update_append
        crc32Value_stamped)
  moreover have "b \<noteq> u32_bytes ?c ! (i - 3836)"
    using assms(1,3) False
    by (simp add: settings_bytes_def nth_append length_settings_body crc32Value_stamped)
  ultimately show ?thesis
    using bytes_u32_update_neq [OF i, of b ?c, THEN not_sym] assms(1)
    by (simp add: calculateSettingsStructCRC32Value_def chunk_def length_settings_body settings_size_defs)
qed

text \<open>C3: A settings sector in which any single byte has been altered, checksum and version bytes
  included, is refused, and the default settings are used.\<close>

theorem damaged_settings_refused:
  assumes "settings_wf s" and "i < sizeof_LPCmodSettings" and "b \<noteq> settings_bytes (stamped s) ! i"
    and "buf_bytes 0 sizeof_LPCmodSettings d = (settings_bytes (stamped s))[i := b]"
  shows "Flash_LoadXBlastOSSettings vga d = (False, populateSettingsStructWithDefault vga (hw d))"
  using damaged_checksum [OF assms(1-3)] by (simp add: Flash_LoadXBlastOSSettings_def Let_def assms(4))

definition damaged_defaults :: "u8 list" where
  "damaged_defaults = (settings_bytes (stamped (populateSettingsStructWithDefault False lpc_hw_v1)))[7 := 0]"

theorem damaged_settings_refused_witness:
  "Flash_LoadXBlastOSSettings False
     (settings_drv FlashOp_Completed FlashTask_ReadSettings 3840 (\<lambda>k. damaged_defaults ! k)) =
   (False, populateSettingsStructWithDefault False lpc_hw_v1)"
proof -
  let ?d = "settings_drv FlashOp_Completed FlashTask_ReadSettings 3840 (\<lambda>k. damaged_defaults ! k)"
  let ?s = "populateSettingsStructWithDefault False lpc_hw_v1"
  have 7: "settings_bytes (stamped ?s) ! 7 = 1"
    by (simp add: settings_bytes_def settings_body_def os_bytes_def stamped_def
        populateSettingsStructWithDefault_def default_os_def)
  have "length damaged_defaults = 3840"
    using settings_wf_defaults by (simp add: damaged_defaults_def length_settings_bytes)
  then have "buf_bytes 0 sizeof_LPCmodSettings ?d = damaged_defaults"
    using map_nth [of damaged_defaults] by (simp add: buf_bytes_def settings_drv_def settings_size_defs)
  then have "Flash_LoadXBlastOSSettings False ?d = (False, populateSettingsStructWithDefault False (hw ?d))"
    using 7 by (intro damaged_settings_refused [OF settings_wf_defaults, of 7 0])
      (simp_all add: settings_size_defs damaged_defaults_def)
  then show ?thesis by (simp add: settings_drv_def)
qed

text \<open>Whatever bytes are in the buffer, the settings that \<^verbatim>\<open>Flash_LoadXBlastOSSettings\<close> leaves in
  memory are well formed, each field of its length.\<close>

lemma loaded_settings_wf: "settings_wf (snd (Flash_LoadXBlastOSSettings vga d))"
  by (auto simp: Flash_LoadXBlastOSSettings_def Let_def settings_wf_defaults settings_size_defs
      intro: settings_wf_bytes_settings)

text \<open>The only places the settings can be kept at. A header that asks for a BIOS of at least
  192 KB and less than 256 KB gets an offset below 4 KB (the remainder of the rounding, not the
  rounded size), inside the BIOS itself.\<close>

lemma settings_offset_values:
  "getXBlastOSSettingStartingOffset b = 0 \<or> getXBlastOSSettingStartingOffset b = 0x30000 \<or>
   0x30000 \<le> BiosSize b \<and> BiosSize b < 0x40000 \<and>
   getXBlastOSSettingStartingOffset b = (BiosSize b + 0xFFF) mod 0x1000 \<and>
   getXBlastOSSettingStartingOffset b < 0x1000"
proof -
  have "(BiosSize b + 0xFFF) mod 0x1000 < (0x1000 :: u32)"
    by (simp add: word_less_nat_alt unat_mod_distrib)
  moreover have "BiosSize b + 0x1000 - 1 = BiosSize b + (0xFFF :: u32)" by simp
  ultimately show ?thesis
    by (simp add: getXBlastOSSettingStartingOffset_def flash_size_defs not_le not_less add.commute)
qed

end
