(* ===== verification/Flash_Read.thy ===== *)
theory Flash_Read
  imports Flash_Correct Flash_Settings
begin

text \<open>
  Reading through the state machine of drivers/flash/FlashDriver.c, and the settings at boot:
  \<^verbatim>\<open>bootReadXBlastOSSettings\<close> asks for the settings sector, polls the state machine until it is done and loads
  what it finds in the buffer. On a device that meets the contract \<^verbatim>\<open>flash_device\<close> the loop ends, and what is
  loaded is decided by the bytes in the flash alone.
\<close>

definition read_part :: "('s \<Rightarrow> nat \<Rightarrow> u8) \<Rightarrow> 's flash_drv \<Rightarrow> bool" where
  "read_part mem d \<longleftrightarrow>
    (\<forall>i < unat (currentAddr d). biosBuffer d i = mem (lowlevel d) (unat (startingOffset d) + i))"

definition read_left :: "'s flash_drv \<Rightarrow> nat" where
  "read_left d = unat (biosBufferSize d) - unat (currentAddr d)"

definition read_result :: "('s \<Rightarrow> nat \<Rightarrow> u8) \<Rightarrow> 's flash_drv \<Rightarrow> 's flash_drv \<Rightarrow> bool" where
  "read_result mem d d' \<longleftrightarrow>
    currentFlashOp d' = FlashOp_Completed \<and> currentFlashTask d' = FlashTask_ReadSettings \<and> hw d' = hw d \<and>
    mem (lowlevel d') = mem (lowlevel d) \<and>
    (\<forall>i < unat (biosBufferSize d). biosBuffer d' i = mem (lowlevel d) (unat (startingOffset d) + i))"

lemma boot_loop_done:
  "currentFlashOp d = FlashOp_Completed \<Longrightarrow> 1 \<le> fuel \<Longrightarrow> boot_settings_loop fuel ops d = Some d"
  by (cases fuel) auto

lemma boot_loop_step:
  assumes "currentFlashOp d \<noteq> FlashOp_Completed" "currentFlashOp d \<noteq> FlashOp_Error"
    "Flash_executeFlashFSM ops d = Some d1" "\<forall>fuel \<ge> n. boot_settings_loop fuel ops d1 = Some d'" "Suc n \<le> fuel"
  shows "boot_settings_loop fuel ops d = Some d'"
  using assms by (cases fuel) auto

definition reading :: "('s \<Rightarrow> nat \<Rightarrow> u8) \<Rightarrow> nat \<Rightarrow> ('s \<Rightarrow> bool) \<Rightarrow> 's flash_drv \<Rightarrow> bool" where
  "reading mem len ok d \<longleftrightarrow> currentFlashOp d = FlashOp_ReadInProgress \<and> currentFlashTask d = FlashTask_ReadSettings \<and>
     ok (lowlevel d) \<and> fits len d \<and> currentAddr d < biosBufferSize d \<and> read_part mem d"

text \<open>What the driver takes from the bytes \<^verbatim>\<open>m\<close> of a flash: the place its own function computes from the header,
  and the settings found there.\<close>

definition settings_place :: "(nat \<Rightarrow> u8) \<Rightarrow> u32" where
  "settings_place m =
    getXBlastOSSettingStartingOffset (bytes_BiosIdentifier (map m [unat ImageSize256KB - sizeof_BiosIdentifier..<unat ImageSize256KB]))"

definition settings_sector :: "(nat \<Rightarrow> u8) \<Rightarrow> u8 list" where
  "settings_sector m = map (\<lambda>i. m (unat (settings_place m) + i)) [0..<sizeof_LPCmodSettings]"

definition stored_settings :: "(nat \<Rightarrow> u8) \<Rightarrow> LPCmodSettings_t option" where
  "stored_settings m =
    (let bs = settings_sector m
     in if settings_place m \<noteq> 0 \<and> bs ! 0 = CurrentSettingsVersionNumber \<and>
           calculateSettingsStructCRC32Value bs = bytes_u32 (chunk (sizeof_LPCmodSettings - 4) 4 bs)
        then Some (bytes_settings bs) else None)"

definition loads_stored :: "bool \<Rightarrow> (nat \<Rightarrow> u8) \<Rightarrow> 's flash_drv \<Rightarrow> bool" where
  "loads_stored vga m d \<longleftrightarrow>
    Flash_LoadXBlastOSSettings vga d =
      (case stored_settings m of None \<Rightarrow> (False, populateSettingsStructWithDefault vga (hw d)) | Some x \<Rightarrow> (True, x))"

lemma settings_place_fits: "unat (settings_place m) + sizeof_LPCmodSettings \<le> 0x40000"
  using settings_offset_values [of "bytes_BiosIdentifier (map m [unat ImageSize256KB - sizeof_BiosIdentifier..<unat ImageSize256KB])"]
  unfolding settings_place_def by (auto simp: settings_size_defs word_less_nat_alt)

lemma read_result_loads:
  assumes "read_result mem d d'" "startingOffset d = settings_place (mem (lowlevel d))" "startingOffset d \<noteq> 0"
    "unat (biosBufferSize d) = sizeof_LPCmodSettings"
  shows "loads_stored vga (mem (lowlevel d)) d'"
proof -
  have "buf_bytes 0 sizeof_LPCmodSettings d' = settings_sector (mem (lowlevel d))"
    using assms by (simp add: buf_bytes_def settings_sector_def read_result_def)
  then show ?thesis
    using assms by (simp add: loads_stored_def Flash_LoadXBlastOSSettings_def stored_settings_def Let_def read_result_def)
qed

lemma blank_loads:
  assumes "settings_place m = 0" "biosBuffer d 0 = 0xff"
  shows "loads_stored vga m d"
proof -
  have "buf_bytes 0 sizeof_LPCmodSettings d ! 0 = 0xff"
    using assms(2) by (simp add: buf_bytes_def settings_size_defs)
  then show ?thesis
    using assms(1) by (simp add: loads_stored_def Flash_LoadXBlastOSSettings_def stored_settings_def Let_def CurrentSettingsVersionNumber_def)
qed

definition boot_outcome :: "bool \<Rightarrow> (nat \<Rightarrow> u8) \<Rightarrow> lpc_hw \<Rightarrow> bool \<Rightarrow> 's flash_drv \<Rightarrow> bool" where
  "boot_outcome vga m h found d \<longleftrightarrow>
    (found \<longleftrightarrow> stored_settings m \<noteq> None) \<and>
    LPCmodSettings d = (case stored_settings m of Some x \<Rightarrow> x
       | None \<Rightarrow> populateSettingsStructWithDefault vga (switchOSBank FlashBank_OSBank h)) \<and>
    LPCmodSettingsOrigFromFlash d = LPCmodSettings d \<and> currentFlashOp d = FlashOp_Idle"

context flash_device
begin

lemma fsm_read_busy:
  assumes "currentFlashOp d = FlashOp_ReadInProgress" "op_DeviceIsBusy ops (lowlevel d) = (True, s)"
  shows "Flash_executeFlashFSM ops d = Some (d\<lparr>lowlevel := s\<rparr>)"
  using assms by (simp add: Flash_executeFlashFSM_def fsm_read_def)

lemma fsm_read_byte:
  assumes "currentFlashOp d = FlashOp_ReadInProgress" "currentFlashTask d = FlashTask_ReadSettings"
    "op_DeviceIsBusy ops (lowlevel d) = (False, s)" "ok s" "ready s" "fits len d"
    "currentAddr d < biosBufferSize d"
  obtains s2 where "ok s2" "mem s2 = mem s"
    "Flash_executeFlashFSM ops d =
      Some (let d' = d\<lparr>lowlevel := s2,
              biosBuffer := (biosBuffer d)(unat (currentAddr d) := mem s (unat (startingOffset d) + unat (currentAddr d))),
              currentAddr := currentAddr d + 1\<rparr>
            in if biosBufferSize d \<le> currentAddr d + 1 then d'\<lparr>currentAddr := 0, currentFlashOp := FlashOp_Completed\<rparr> else d')"
proof -
  obtain s2 where s2: "op_ReadByte ops (startingOffset d + currentAddr d) s =
      Some (mem s (unat (startingOffset d) + unat (currentAddr d)), s2)" "ok s2" "mem s2 = mem s"
    using read [OF assms(4,5), of "startingOffset d + currentAddr d"] unat_cursor [OF assms(6,7)] by auto
  have "unat (currentAddr d) < biosBuffer_len"
    using assms(6,7) by (simp add: fits_def word_less_nat_alt)
  then show thesis
    using that [OF s2(2,3)] s2(1) assms(1-3)
    by (simp add: Flash_executeFlashFSM_def fsm_read_def fsm_read_done_def buf_set_def Let_def)
qed

lemma reading_step:
  assumes "reading mem len ok d"
  shows "\<exists>d1. Flash_executeFlashFSM ops d = Some d1 \<and>
    (read_result mem d d1 \<or>
     reading mem len ok d1 \<and> hw d1 = hw d \<and> mem (lowlevel d1) = mem (lowlevel d) \<and> biosBufferSize d1 = biosBufferSize d \<and>
     startingOffset d1 = startingOffset d \<and>
     (read_left d1 < read_left d \<or> read_left d1 = read_left d \<and> pending (lowlevel d1) < pending (lowlevel d)))"
proof -
  have r: "currentFlashOp d = FlashOp_ReadInProgress" "currentFlashTask d = FlashTask_ReadSettings" "ok (lowlevel d)"
    "fits len d" "currentAddr d < biosBufferSize d" "read_part mem d"
    using assms by (simp_all add: reading_def)
  from r(3) show ?thesis
  proof (cases rule: poll_cases)
    case (1 s)
    then show ?thesis
      using r fsm_read_busy [OF r(1) 1(1)] poll_progress [OF r(3) 1(1)]
      by (simp add: reading_def fits_def read_part_def read_left_def)
  next
    case (2 s)
    obtain s2 where s2: "ok s2" "mem s2 = mem s"
      "Flash_executeFlashFSM ops d =
        Some (let d' = d\<lparr>lowlevel := s2,
                biosBuffer := (biosBuffer d)(unat (currentAddr d) := mem s (unat (startingOffset d) + unat (currentAddr d))),
                currentAddr := currentAddr d + 1\<rparr>
              in if biosBufferSize d \<le> currentAddr d + 1 then d'\<lparr>currentAddr := 0, currentFlashOp := FlashOp_Completed\<rparr> else d')"
      by (rule fsm_read_byte [OF r(1,2) 2(1-3) r(4,5)])
    note c = unat_cursor(4) [OF r(4,5)]
    show ?thesis
    proof (cases "biosBufferSize d \<le> currentAddr d + 1")
      case True
      then have "unat (biosBufferSize d) \<le> Suc (unat (currentAddr d))" using c by (simp add: word_le_nat_alt)
      then show ?thesis
        using True s2 2(4) r(2,6) by (auto simp: read_result_def read_part_def less_Suc_eq dest: less_le_trans)
    next
      case False
      have l: "unat (currentAddr d) < unat (biosBufferSize d)" using r(5) by (simp add: word_less_nat_alt)
      define d1 where "d1 = d\<lparr>lowlevel := s2,
        biosBuffer := (biosBuffer d)(unat (currentAddr d) := mem s (unat (startingOffset d) + unat (currentAddr d))),
        currentAddr := currentAddr d + 1\<rparr>"
      have e: "Flash_executeFlashFSM ops d = Some d1" using False s2(3) by (simp add: Let_def d1_def)
      have f: "lowlevel d1 = s2" "currentAddr d1 = currentAddr d + 1" "biosBufferSize d1 = biosBufferSize d" "hw d1 = hw d"
        "startingOffset d1 = startingOffset d" "currentFlashOp d1 = FlashOp_ReadInProgress" "currentFlashTask d1 = FlashTask_ReadSettings"
        using r(1,2) by (simp_all add: d1_def)
      have "read_part mem d1" using r(6) s2(2) 2(4) c by (simp add: read_part_def d1_def less_Suc_eq)
      then have "reading mem len ok d1" using False r(4) s2(1) by (simp add: reading_def fits_def f not_le)
      moreover have "read_left d1 < read_left d" using l c by (simp add: read_left_def f)
      ultimately show ?thesis using e f s2(2) 2(4) by simp
    qed
  qed
qed

lemma boot_loop_reads: "reading mem len ok d \<Longrightarrow> \<exists>n d'. (\<forall>fuel \<ge> n. boot_settings_loop fuel ops d = Some d') \<and> read_result mem d d'"
proof (induction "(read_left d, pending (lowlevel d))" arbitrary: d
    rule: wf_induct_rule [OF wf_lex_prod [OF wf_less_than wf_less_than]])
  case (1 d)
  have op: "currentFlashOp d \<noteq> FlashOp_Completed" "currentFlashOp d \<noteq> FlashOp_Error"
    using "1.prems" by (simp_all add: reading_def)
  obtain d1 where d1: "Flash_executeFlashFSM ops d = Some d1"
    "read_result mem d d1 \<or>
     reading mem len ok d1 \<and> hw d1 = hw d \<and> mem (lowlevel d1) = mem (lowlevel d) \<and> biosBufferSize d1 = biosBufferSize d \<and>
     startingOffset d1 = startingOffset d \<and>
     (read_left d1 < read_left d \<or> read_left d1 = read_left d \<and> pending (lowlevel d1) < pending (lowlevel d))"
    using reading_step [OF "1.prems"] by blast
  from d1(2) show ?case
  proof
    assume "read_result mem d d1"
    moreover from this have "\<forall>fuel \<ge> 1. boot_settings_loop fuel ops d1 = Some d1"
      by (simp add: boot_loop_done read_result_def)
    ultimately show ?thesis
      using boot_loop_step [OF op d1(1)] by blast
  next
    assume a: "reading mem len ok d1 \<and> hw d1 = hw d \<and> mem (lowlevel d1) = mem (lowlevel d) \<and> biosBufferSize d1 = biosBufferSize d \<and>
     startingOffset d1 = startingOffset d \<and>
     (read_left d1 < read_left d \<or> read_left d1 = read_left d \<and> pending (lowlevel d1) < pending (lowlevel d))"
    then have "\<exists>n d'. (\<forall>fuel \<ge> n. boot_settings_loop fuel ops d1 = Some d') \<and> read_result mem d1 d'"
      by (intro "1.hyps") auto
    then obtain n d' where n: "\<forall>fuel \<ge> n. boot_settings_loop fuel ops d1 = Some d'" "read_result mem d1 d'" by blast
    have "\<forall>fuel \<ge> Suc n. boot_settings_loop fuel ops d = Some d'"
      using boot_loop_step [OF op d1(1) n(1)] by blast
    moreover have "read_result mem d d'" using n(2) a by (simp add: read_result_def)
    ultimately show ?thesis by blast
  qed
qed

lemma read_bytes_mem:
  assumes "ok s" "ready s" "unat a + n \<le> len" "unat a + n < 2 ^ 32"
  shows "\<exists>s'. read_bytes ops a n s = Some (map (mem s) [unat a..<unat a + n], s') \<and> ok s' \<and> ready s' \<and> mem s' = mem s"
  using assms
proof (induction n arbitrary: a s)
  case (Suc n)
  obtain s1 where s1: "op_ReadByte ops a s = Some (mem s (unat a), s1)" "ok s1" "ready s1" "mem s1 = mem s"
    using read [OF Suc.prems(1,2), of a] Suc.prems(3) by auto
  have a: "unat (a + 1) = unat a + 1"
    using Suc.prems(4) by (simp add: unat_word_ariths)
  obtain s2 where "read_bytes ops (a + 1) n s1 = Some (map (mem s) [unat a + 1..<unat a + 1 + n], s2)"
      "ok s2" "ready s2" "mem s2 = mem s"
    using Suc.IH [OF s1(2,3), of "a + 1"] Suc.prems(3,4) a s1(4) by auto
  moreover have "[unat a..<unat a + Suc n] = unat a # [unat a + 1..<unat a + 1 + n]"
    by (subst upt_conv_Cons) simp_all
  ultimately show ?case
    using s1(1) by simp
qed simp

lemma request_reads:
  assumes "op_ReadDevice ops (lowlevel d) = Some (True, s)" "ok s" "ready s" "0x40000 \<le> len"
    "currentFlashOp d = FlashOp_Idle"
  obtains pr d1 where "Flash_ReadXBlastOSSettingsRequest ops d = Some (pr, d1)"
    "ok (lowlevel d1)" "mem (lowlevel d1) = mem s" "hw d1 = switchOSBank FlashBank_OSBank (hw d)"
    "currentAddr d1 = currentAddr d" "currentFlashTask d1 = FlashTask_ReadSettings"
    "startingOffset d1 = settings_place (mem s)" "biosBufferSize d1 = word_of_nat sizeof_LPCmodSettings"
    "currentFlashOp d1 = (if settings_place (mem s) = 0 then FlashOp_Completed else FlashOp_PendingOp)"
    "settings_place (mem s) = 0 \<Longrightarrow> biosBuffer d1 0 = 0xff"
proof -
  have "\<exists>s'. read_bytes ops (ImageSize256KB - word_of_nat sizeof_BiosIdentifier) sizeof_BiosIdentifier s =
      Some (map (mem s) [unat ImageSize256KB - sizeof_BiosIdentifier..<unat ImageSize256KB], s') \<and> ok s' \<and> ready s' \<and> mem s' = mem s"
    using read_bytes_mem [OF assms(2,3), of "ImageSize256KB - word_of_nat sizeof_BiosIdentifier" sizeof_BiosIdentifier] assms(4)
    by (simp add: ImageSize256KB_def sizeof_BiosIdentifier_def del: upt_conv_Cons)
  then obtain s' where s': "read_bytes ops (ImageSize256KB - word_of_nat sizeof_BiosIdentifier) sizeof_BiosIdentifier s =
      Some (map (mem s) [unat ImageSize256KB - sizeof_BiosIdentifier..<unat ImageSize256KB], s')" "ok s'" "mem s' = mem s" by blast
  note req = Flash_ReadXBlastOSSettingsRequest_def assms(1,5) getBiosIdentifierFromFlash_def s'(1)
    settings_place_def [of "mem s", symmetric] buf_set_def biosBuffer_len_def Let_def
  show thesis
  proof (cases "settings_place (mem s) = 0")
    case True
    show thesis
      by (rule that, simp add: req True, simp_all add: s'(2,3) True)
  next
    case False
    show thesis
      by (rule that, simp add: req False, simp_all add: s'(2,3) False)
  qed
qed

lemma request_loop:
  assumes "op_ReadDevice ops (lowlevel d) = Some (True, s)" "ok s" "ready s" "0x40000 \<le> len" "len \<le> 2 ^ 32"
    "currentFlashOp d = FlashOp_Idle" "currentAddr d = 0"
  obtains pr d1 n d2 where "Flash_ReadXBlastOSSettingsRequest ops d = Some (pr, d1)"
    "\<forall>fuel \<ge> n. boot_settings_loop fuel ops d1 = Some d2" "loads_stored vga (mem s) d2"
    "hw d2 = switchOSBank FlashBank_OSBank (hw d)" "mem (lowlevel d2) = mem s"
proof -
  obtain pr d1 where r: "Flash_ReadXBlastOSSettingsRequest ops d = Some (pr, d1)"
    "ok (lowlevel d1)" "mem (lowlevel d1) = mem s" "hw d1 = switchOSBank FlashBank_OSBank (hw d)"
    "currentAddr d1 = currentAddr d" "currentFlashTask d1 = FlashTask_ReadSettings"
    "startingOffset d1 = settings_place (mem s)" "biosBufferSize d1 = word_of_nat sizeof_LPCmodSettings"
    "currentFlashOp d1 = (if settings_place (mem s) = 0 then FlashOp_Completed else FlashOp_PendingOp)"
    "settings_place (mem s) = 0 \<Longrightarrow> biosBuffer d1 0 = 0xff"
    using request_reads [OF assms(1-4,6)] by blast
  show thesis
  proof (cases "settings_place (mem s) = 0")
    case True
    then show thesis
      using that [OF r(1), of 1 d1] boot_loop_done [of d1 _ ops] blank_loads [OF True, of d1 vga] r by simp
  next
    case False
    let ?d = "d1\<lparr>currentFlashOp := FlashOp_ReadInProgress\<rparr>"
    have e: "Flash_executeFlashFSM ops d1 = Some ?d"
      using False r(6,9) by (simp add: Flash_executeFlashFSM_def fsm_pending_def)
    have "reading mem len ok ?d"
      using r(2,5,6,7,8) settings_place_fits [of "mem s"] assms(4,5,7)
      by (simp add: reading_def fits_def read_part_def settings_size_defs biosBuffer_len_def)
    then obtain n d2 where n: "\<forall>fuel \<ge> n. boot_settings_loop fuel ops ?d = Some d2" "read_result mem ?d d2"
      using boot_loop_reads by blast
    have "\<forall>fuel \<ge> Suc n. boot_settings_loop fuel ops d1 = Some d2"
      using boot_loop_step [OF _ _ e n(1)] r(9) False by simp
    moreover have "loads_stored vga (mem s) d2"
      using read_result_loads [OF n(2), of vga] r(3,7,8) False by (simp add: settings_size_defs)
    moreover have "hw d2 = switchOSBank FlashBank_OSBank (hw d)" "mem (lowlevel d2) = mem s"
      using n(2) r(3,4) by (simp_all add: read_result_def)
    ultimately show thesis using that r(1) by blast
  qed
qed

lemma boot_reads:
  assumes "op_ReadDevice ops (lowlevel d) = Some (True, s)" "ok s" "ready s" "0x40000 \<le> len" "len \<le> 2 ^ 32"
    "currentFlashOp d = FlashOp_Idle" "currentAddr d = 0"
  shows "\<exists>n found d'. (\<forall>fuel \<ge> n. bootReadXBlastOSSettings fuel vga ops d = Some (found, d')) \<and>
    boot_outcome vga (mem s) (hw d) found d' \<and> mem (lowlevel d') = mem s"
proof -
  let ?d = "d\<lparr>LPCmodSettings := populateSettingsStructWithDefault vga (hw d)\<rparr>"
  have a: "op_ReadDevice ops (lowlevel ?d) = Some (True, s)" "currentFlashOp ?d = FlashOp_Idle" "currentAddr ?d = 0"
    using assms by simp_all
  obtain pr d1 n d2 where r: "Flash_ReadXBlastOSSettingsRequest ops ?d = Some (pr, d1)"
    "\<forall>fuel \<ge> n. boot_settings_loop fuel ops d1 = Some d2" "loads_stored vga (mem s) d2"
    "hw d2 = switchOSBank FlashBank_OSBank (hw ?d)" "mem (lowlevel d2) = mem s"
    by (rule request_loop [OF a(1) assms(2-5) a(2,3)])
  obtain found x where l: "Flash_LoadXBlastOSSettings vga d2 = (found, x)" by fastforce
  let ?d' = "Flash_freeFlashFSM (d2\<lparr>LPCmodSettings := x, LPCmodSettingsOrigFromFlash := x\<rparr>)"
  have "\<forall>fuel \<ge> n. bootReadXBlastOSSettings fuel vga ops d = Some (found, ?d')"
    using r(2) by (simp add: bootReadXBlastOSSettings_def r(1) l)
  moreover have "boot_outcome vga (mem s) (hw d) found ?d'"
    using r(3,4) l by (auto simp: boot_outcome_def loads_stored_def Flash_freeFlashFSM_def split: option.splits)
  moreover have "mem (lowlevel ?d') = mem s" using r(5) by (simp add: Flash_freeFlashFSM_def)
  ultimately show ?thesis by blast
qed

end

lemma stored_settings_saved:
  assumes "settings_wf x" "settingsVersion x = CurrentSettingsVersionNumber" "settings_place m \<noteq> 0"
    "settings_sector m = settings_bytes (stamped x)"
  shows "stored_settings m = Some (stamped x)"
proof -
  have wf: "settings_wf (stamped x)" using assms(1) by simp
  have "settings_bytes (stamped x) ! 0 = CurrentSettingsVersionNumber"
    using assms(2) by (simp add: settings_bytes_def settings_body_def stamped_def)
  then show ?thesis
    using assms(3) wf bytes_settings_of_settings_bytes [OF wf] stored_crc [OF wf] crc_of_settings [OF wf] crc32Value_stamped [OF assms(1)]
    by (simp add: stored_settings_def Let_def assms(4))
qed

context jedec_chip
begin

lemma boot_reads_chip:
  assumes "flash_search aknownflashtypesDefault manufacturer device = Some (Some t)" and "0x40000 \<le> len" and "len \<le> 2 ^ 32"
    and "currentFlashOp d = FlashOp_Idle" and "currentAddr d = 0" and "ll_ok (lowlevel d)" and "ll_ready (lowlevel d)"
  shows "\<exists>n found d'. (\<forall>fuel \<ge> n. bootReadXBlastOSSettings fuel vga (lowlevel_ops p bus) d = Some (found, d')) \<and>
    boot_outcome vga (cells (chip (lowlevel d))) (hw d) found d' \<and> cells (chip (lowlevel d')) = cells (chip (lowlevel d))"
proof -
  obtain s where s: "FlashLowLevel_ReadDevice bus (lowlevel d) = Some (True, s)" "ll_ok s" "ll_ready s"
      "cells (chip s) = cells (chip (lowlevel d))"
    using ll_identifies [OF assms(6,7,1)] by blast
  then show ?thesis
    using ll.boot_reads [of p d s vga] assms(2-5) by simp
qed

end

subsection \<open>The layout of an XBlast OS bank\<close>

text \<open>The layout that include/BiosIdentifier.h and the comments of drivers/flash/FlashDriver.c describe, written
  without the driver's functions. An OS image of 256 KB ends with its header; one with the option bit and a
  body of less than 192 KB has its settings at 192 KB, and one whose body leaves no room has none. Nothing is
  said here of a body of 192 KB to 256 KB and of a header without the option bit, for which the driver does
  not do what the comments say.\<close>

definition os_header :: "(nat \<Rightarrow> u8) \<Rightarrow> BiosIdentifier" where
  "os_header m = bytes_BiosIdentifier (map m [0x40000 - 63..<0x40000])"

definition settings_header :: "BiosIdentifier \<Rightarrow> bool" where
  "settings_header h \<longleftrightarrow> HeaderVersion h \<in> {1, 2} \<and> take 9 (Name h) = ascii ''XBlast OS'' \<and> bit (Option1 h) 0"

definition saved_at :: "nat \<Rightarrow> (nat \<Rightarrow> u8) \<Rightarrow> LPCmodSettings_t option" where
  "saved_at place m =
    (let bs = map m [place..<place + 3840]
     in if hd bs = CurrentSettingsVersionNumber \<and> crc32buf (take 3836 bs) = bytes_u32 (drop 3836 bs)
        then Some (bytes_settings bs) else None)"

lemma option_bit: "x AND Option1_SaveSettingsLocationBit \<noteq> 0 \<longleftrightarrow> bit x 0"
  by (simp add: Option1_SaveSettingsLocationBit_def and_one_eq bit_0 odd_iff_mod_2_eq_one)

lemma settings_place_documented:
  assumes "settings_header (os_header m)"
  shows "unat (BiosSize (os_header m)) < 0x30000 \<Longrightarrow> settings_place m = 0x30000"
    and "0x40000 \<le> unat (BiosSize (os_header m)) \<Longrightarrow> settings_place m = 0"
proof -
  have "settings_place m = getXBlastOSSettingStartingOffset (os_header m)"
    by (simp add: settings_place_def os_header_def ImageSize256KB_def sizeof_BiosIdentifier_def)
  moreover have "HeaderVersion (os_header m) = HeaderVersionV2 \<or> HeaderVersion (os_header m) = HeaderVersionV1"
    "take 9 (Name (os_header m)) = PROG_NAME" "Option1 (os_header m) AND Option1_SaveSettingsLocationBit \<noteq> 0"
    using assms unfolding option_bit
    by (auto simp: settings_header_def HeaderVersionV1_def HeaderVersionV2_def PROG_NAME_def)
  ultimately show "unat (BiosSize (os_header m)) < 0x30000 \<Longrightarrow> settings_place m = 0x30000"
    "0x40000 \<le> unat (BiosSize (os_header m)) \<Longrightarrow> settings_place m = 0"
    by (simp_all add: getXBlastOSSettingStartingOffset_def flash_size_defs word_less_nat_alt word_le_nat_alt)
qed

lemma settings_without_option: "\<not> bit (Option1 (os_header m)) 0 \<Longrightarrow> settings_place m = 0"
  using option_bit [of "Option1 (os_header m)"]
  by (simp add: settings_place_def os_header_def ImageSize256KB_def sizeof_BiosIdentifier_def getXBlastOSSettingStartingOffset_def)

lemma stored_settings_at:
  assumes "settings_place m \<noteq> 0"
  shows "stored_settings m = saved_at (unat (settings_place m)) m"
proof -
  let ?bs = "map m [unat (settings_place m)..<unat (settings_place m) + 3840]"
  have bs: "settings_sector m = ?bs"
    by (intro nth_equalityI) (simp_all add: settings_sector_def settings_size_defs)
  have "?bs ! 0 = hd ?bs" "chunk 3836 4 ?bs = drop 3836 ?bs" by (simp_all add: hd_conv_nth chunk_def)
  then show ?thesis
    using assms unfolding stored_settings_def saved_at_def bs calculateSettingsStructCRC32Value_def
    by (simp add: settings_size_defs Let_def)
qed

lemma boot_outcome_documented:
  assumes "boot_outcome vga m h found d" "settings_header (os_header m)"
  shows "unat (BiosSize (os_header m)) < 0x30000 \<Longrightarrow> (found \<longleftrightarrow> saved_at 0x30000 m \<noteq> None) \<and>
      LPCmodSettings d = (case saved_at 0x30000 m of Some x \<Rightarrow> x
        | None \<Rightarrow> populateSettingsStructWithDefault vga (switchOSBank FlashBank_OSBank h))"
    and "0x40000 \<le> unat (BiosSize (os_header m)) \<Longrightarrow> \<not> found \<and>
      LPCmodSettings d = populateSettingsStructWithDefault vga (switchOSBank FlashBank_OSBank h)"
proof -
  show "(found \<longleftrightarrow> saved_at 0x30000 m \<noteq> None) \<and>
      LPCmodSettings d = (case saved_at 0x30000 m of Some x \<Rightarrow> x
        | None \<Rightarrow> populateSettingsStructWithDefault vga (switchOSBank FlashBank_OSBank h))"
    if "unat (BiosSize (os_header m)) < 0x30000"
    using assms(1) settings_place_documented(1) [OF assms(2) that] stored_settings_at [of m] by (simp add: boot_outcome_def)
  show "\<not> found \<and> LPCmodSettings d = populateSettingsStructWithDefault vga (switchOSBank FlashBank_OSBank h)"
    if "0x40000 \<le> unat (BiosSize (os_header m))"
    using assms(1) settings_place_documented(2) [OF assms(2) that] by (simp add: boot_outcome_def stored_settings_def)
qed

lemma stored_settings_wf: "stored_settings m = Some x \<Longrightarrow> settings_wf x"
  using settings_wf_bytes_settings [of "settings_sector m"]
  by (auto simp: stored_settings_def settings_sector_def settings_size_defs Let_def split: if_splits)

lemma boot_outcome_wf: "boot_outcome vga m h found d \<Longrightarrow> settings_wf (LPCmodSettings d)"
  using stored_settings_wf by (cases "stored_settings m") (auto simp: boot_outcome_def settings_wf_defaults)

text \<open>C5: Reading the settings at boot from a JEDEC chip that the table of known chips knows. Whatever the chip
  holds, the polling loop has ended from some number of rounds on, the settings in memory are well formed,
  the copy for later comparison equals them, the driver is idle again and the chip unchanged. If the
  OS image in the chip has a header with the option bit for settings: with a body of less than 192 KB
  the settings are those saved at 192 KB when their version is the current one and their checksum is right
  there, and the defaults otherwise; with a size of 256 KB or more, which leaves no room, they are the
  defaults.\<close>

theorem boot_settings_from_chip:
  fixes vga :: bool
  assumes "jedec_chip bus base cells len sane polls toggle man dev"
    and "flash_search aknownflashtypesDefault man dev = Some (Some t)"
    and "unat (m_dwLengthInBytes t) = len"
    and "currentFlashOp d = FlashOp_Idle" and "currentAddr d = 0"
    and "\<not> is28xxxProtocol (lowlevel d)" and "firstBusyRead (lowlevel d)"
    and "m_pbMemoryMappedStartAddress (flashDevice (lowlevel d)) = base"
    and "sane (chip (lowlevel d))" and "polls (chip (lowlevel d)) = 0"
  defines "m \<equiv> cells (chip (lowlevel d))"
    and "defaults \<equiv> populateSettingsStructWithDefault vga (switchOSBank FlashBank_OSBank (hw d))"
  shows "\<exists>n found d'. (\<forall>fuel \<ge> n. bootReadXBlastOSSettings fuel vga (lowlevel_ops p bus) d = Some (found, d')) \<and>
    cells (chip (lowlevel d')) = m \<and> currentFlashOp d' = FlashOp_Idle \<and>
    settings_wf (LPCmodSettings d') \<and> LPCmodSettingsOrigFromFlash d' = LPCmodSettings d' \<and>
    (settings_header (os_header m) \<longrightarrow>
      (unat (BiosSize (os_header m)) < 0x30000 \<longrightarrow> (found \<longleftrightarrow> saved_at 0x30000 m \<noteq> None) \<and>
        LPCmodSettings d' = (case saved_at 0x30000 m of Some x \<Rightarrow> x | None \<Rightarrow> defaults)) \<and>
      (0x40000 \<le> unat (BiosSize (os_header m)) \<longrightarrow> \<not> found \<and> LPCmodSettings d' = defaults))"
proof -
  have "real_chip t" using flash_search_default [of man dev] assms(2) by fastforce
  then have "0x40000 \<le> len" "len \<le> 2 ^ 32"
    using real_chip_length assms(3) by (fastforce simp: word_le_nat_alt)+
  then have "\<exists>n found d'. (\<forall>fuel \<ge> n. bootReadXBlastOSSettings fuel vga (lowlevel_ops p bus) d = Some (found, d')) \<and>
    boot_outcome vga m (hw d) found d' \<and> cells (chip (lowlevel d')) = m"
    using assms(4-10) unfolding m_def
    by (intro jedec_chip.boot_reads_chip [OF assms(1,2)])
       (simp_all add: jedec_chip.ll_ok_def [OF assms(1)] jedec_chip.ll_ready_def [OF assms(1)])
  then obtain n found d' where r: "\<forall>fuel \<ge> n. bootReadXBlastOSSettings fuel vga (lowlevel_ops p bus) d = Some (found, d')"
    "boot_outcome vga m (hw d) found d'" "cells (chip (lowlevel d')) = m" by blast
  have "LPCmodSettingsOrigFromFlash d' = LPCmodSettings d'" "currentFlashOp d' = FlashOp_Idle"
    using r(2) by (simp_all add: boot_outcome_def)
  then show ?thesis
    using r(1,3) boot_outcome_wf [OF r(2)] boot_outcome_documented [OF r(2)] unfolding defaults_def by blast
qed

text \<open>A chip with the header of a small OS image and the default settings behind it.\<close>

definition sample_header :: "u8 list" where
  "sample_header = [0, 0, 0, 0, 2, 0, 0, 0, 1, 0, 0, 0, 0, 0, 0] @ PROG_NAME @ replicate 39 0"

definition sample_cells :: "nat \<Rightarrow> u8" where
  "sample_cells i =
    (if 0x30000 \<le> i \<and> i < 0x30000 + 3840
     then settings_bytes (stamped (populateSettingsStructWithDefault False lpc_hw_v1)) ! (i - 0x30000)
     else if 0x3FFC1 \<le> i \<and> i < 0x40000 then sample_header ! (i - 0x3FFC1) else 0xFF)"

definition sample_chip_drv :: "sst_chip flash_ll flash_drv" where
  "sample_chip_drv = sst_drv\<lparr>lowlevel := (lowlevel sst_drv)\<lparr>chip := (chip (lowlevel sst_drv))\<lparr>sst_cells := sample_cells\<rparr>\<rparr>\<rparr>"

lemma map_upt_nth: "length xs = n \<Longrightarrow> (\<And>i. i < n \<Longrightarrow> f (a + i) = xs ! i) \<Longrightarrow> map f [a..<a + n] = xs"
  by (intro nth_equalityI) auto

lemma sample_os_header:
  "os_header sample_cells = bytes_BiosIdentifier sample_header"
  "settings_header (bytes_BiosIdentifier sample_header)" "BiosSize (bytes_BiosIdentifier sample_header) = 0"
proof -
  have l: "length sample_header = 63"
    by (simp add: sample_header_def PROG_NAME_def ascii_def)
  have "map sample_cells [0x3FFC1..<0x3FFC1 + 63] = sample_header"
    by (rule map_upt_nth [OF l]) (simp add: sample_cells_def)
  then show "os_header sample_cells = bytes_BiosIdentifier sample_header" by (simp add: os_header_def)
qed (simp_all add: settings_header_def bytes_BiosIdentifier_def sample_header_def chunk_def bytes_u32_def PROG_NAME_def ascii_def)

lemma sample_stored: "saved_at 0x30000 sample_cells = Some (stamped (populateSettingsStructWithDefault False lpc_hw_v1))"
proof -
  let ?x = "populateSettingsStructWithDefault False lpc_hw_v1"
  let ?bs = "settings_bytes (stamped ?x)"
  have p: "settings_place sample_cells = 0x30000"
    using settings_place_documented(1) [of sample_cells] by (simp add: sample_os_header)
  have "length ?bs = 3840"
    using settings_wf_defaults by (simp add: length_settings_bytes)
  then have "settings_sector sample_cells = ?bs"
    by (intro nth_equalityI) (simp_all add: settings_sector_def p sample_cells_def settings_size_defs)
  then have "stored_settings sample_cells = Some (stamped ?x)"
    by (intro stored_settings_saved) (simp_all add: settings_wf_defaults defaults_version p)
  then show ?thesis using stored_settings_at [of sample_cells] by (simp add: p)
qed

theorem boot_settings_from_chip_witness:
  "\<exists>n d'. bootReadXBlastOSSettings n True (lowlevel_ops (\<lambda>_ _. 0) sst_bus) sample_chip_drv = Some (True, d') \<and>
     LPCmodSettings d' = stamped (populateSettingsStructWithDefault False lpc_hw_v1)"
proof -
  let ?ops = "lowlevel_ops (\<lambda>_ _. 0) sst_bus"
  have c: "sst_cells (chip (lowlevel sample_chip_drv)) = sample_cells" by (simp add: sample_chip_drv_def)
  have "\<exists>n found d'. (\<forall>fuel \<ge> n. bootReadXBlastOSSettings fuel True ?ops sample_chip_drv = Some (found, d')) \<and>
    sst_cells (chip (lowlevel d')) = sample_cells \<and> currentFlashOp d' = FlashOp_Idle \<and>
    settings_wf (LPCmodSettings d') \<and> LPCmodSettingsOrigFromFlash d' = LPCmodSettings d' \<and>
    (settings_header (os_header sample_cells) \<longrightarrow>
      (unat (BiosSize (os_header sample_cells)) < 0x30000 \<longrightarrow> (found \<longleftrightarrow> saved_at 0x30000 sample_cells \<noteq> None) \<and>
        LPCmodSettings d' = (case saved_at 0x30000 sample_cells of Some x \<Rightarrow> x
          | None \<Rightarrow> populateSettingsStructWithDefault True (switchOSBank FlashBank_OSBank (hw sample_chip_drv)))) \<and>
      (0x40000 \<le> unat (BiosSize (os_header sample_cells)) \<longrightarrow> \<not> found \<and>
        LPCmodSettings d' = populateSettingsStructWithDefault True (switchOSBank FlashBank_OSBank (hw sample_chip_drv))))"
    unfolding c [symmetric] by (rule boot_settings_from_chip [OF sst.jedec_chip_axioms sst_known])
       (simp_all add: sample_chip_drv_def sst_drv_def sst_len_def zeroed_flash_def known_flash_def)
  then obtain n found d' where n: "bootReadXBlastOSSettings n True ?ops sample_chip_drv = Some (found, d')"
      "found \<longleftrightarrow> saved_at 0x30000 sample_cells \<noteq> None"
      "LPCmodSettings d' = (case saved_at 0x30000 sample_cells of Some x \<Rightarrow> x
          | None \<Rightarrow> populateSettingsStructWithDefault True (switchOSBank FlashBank_OSBank (hw sample_chip_drv)))"
    unfolding sample_os_header(1) using sample_os_header(2,3) by auto
  then show ?thesis unfolding sample_stored by auto
qed

end
