(* ===== verification/Flash_Image.thy ===== *)
theory Flash_Image
  imports FlashDriver
begin

text \<open>
  Which XBlast OS images drivers/flash/FlashDriver.c accepts, and the tool that builds them:
  \<^verbatim>\<open>writeBiosIdentifier\<close> of pc_tools/imagebld/imagebld.c puts the header at the end of an image, with the MD5 digest
  of its body, and \<^verbatim>\<open>validateOSImage\<close> reads it back before an image is flashed.
\<close>

text \<open>The image builder's header; its name is \<^verbatim>\<open>PROG_NAME\<close> and \<^verbatim>\<open>VERSION\<close> of include/config.h. The bytes of
  it that are not assigned keep what the image had there: the rest of the name behind its closing zero,
  \<^verbatim>\<open>HeaderPatch\<close>, \<^verbatim>\<open>Option2\<close> and \<^verbatim>\<open>Option3\<close>. The header version is \<^verbatim>\<open>CurrentHeaderVersion\<close>, which is 2, so of the
  branches on it the one that hashes \<^verbatim>\<open>BiosSize\<close> bytes is taken. The digest is written last: the hashed part of
  the image has the new header except for it. \<^verbatim>\<open>None\<close> is an access behind the end of the image.\<close>

definition writeBiosIdentifier :: "u8 list \<Rightarrow> u32 \<Rightarrow> u8 list option" where
  "writeBiosIdentifier cromimage biosSize =
    (let pos = 256 * 1024 - sizeof_BiosIdentifier;
         old = chunk pos sizeof_BiosIdentifier cromimage;
         header = ascii ''AUTO'' @
           [HeaderVersionV2, 0x01 OR 0x02 OR 0x04 OR 0x08 OR 0x10 OR 0x20 OR 0x40 OR 0x80, 0x01 OR 0x02 OR 0x04,
            old ! 7, Option1_SaveSettingsLocationBit, old ! 9, old ! 10] @
           u32_bytes biosSize @ PROG_NAME @ ascii '' 0.59'' @ [0] @ chunk 30 17 old;
         md5Size = biosSize;
         hashed = take pos cromimage @ header @ drop (pos + 47) cromimage
     in if length cromimage < 256 * 1024 \<or> length cromimage < unat md5Size then None
        else Some (take pos cromimage @ header @
          fst (MD5Final (MD5Update (take (unat md5Size) hashed) (MD5Init md5_ctx0))) @ drop (256 * 1024) cromimage))"

definition image_header :: "u8 list \<Rightarrow> BiosIdentifier" where
  "image_header inBuf = bytes_BiosIdentifier (chunk (0x40000 - 63) 63 inBuf)"

definition hashed_part :: "BiosIdentifier \<Rightarrow> nat" where
  "hashed_part h = (if HeaderVersion h = HeaderVersionV2 then unat (BiosSize h) else 0x3F000)"

text \<open>The verdict with the digest of the hashed part in place of the calls that compute it.\<close>

lemma validateOSImage_verdict:
  assumes "length inBuf < 2 ^ 32 - 64" and "0x40000 \<le> length inBuf"
  shows "validateOSImage inBuf sz =
    (let h = image_header inBuf
     in if sz \<noteq> 0x40000 then Some FlashErrorcodes_FileSizeError
        else if take 9 (Name h) \<noteq> PROG_NAME \<or> HeaderVersion h \<notin> {1, 2}
        then Some FlashErrorcodes_InvalidUpdateFile
        else if length inBuf < hashed_part h then None
        else if md5_spec (take (hashed_part h) inBuf) \<noteq> MD5Hash h then Some FlashErrorcodes_MD5Mismatch
        else if HeaderVersion h = 2 then Some FlashErrorcodes_NoError
        else Some FlashErrorcodes_DowngradeWarning)"
proof -
  have "length (take n inBuf) < 2 ^ 32 - 64" for n using assms(1) by simp
  note md5 = md5_oneshot [OF this]
  show ?thesis
    using assms(2)
    by (simp add: validateOSImage_def md5 hashed_part_def image_header_def flash_size_defs
        HeaderVersionV1_def HeaderVersionV2_def Let_def)
qed

lemma length_md5_spec [simp]: "length (md5_spec m) = 16"
  by (simp add: md5_spec_def md5_digest_def md5_Encode_def split: prod.split)

lemma length_names [simp]: "length PROG_NAME = 9" "length (ascii cs) = length cs"
  by (simp_all add: PROG_NAME_def ascii_def)

subsection \<open>The header the builder writes\<close>

definition built_header :: "u8 list \<Rightarrow> u32 \<Rightarrow> u8 list \<Rightarrow> u8 list" where
  "built_header old biosSize digest = ascii ''AUTO'' @ [2, 0xFF, 7, old ! 7, 1, old ! 9, old ! 10] @
     u32_bytes biosSize @ (PROG_NAME @ ascii '' 0.59'' @ [0] @ chunk 30 17 old) @ digest"

lemma built_header_fields:
  assumes "length old = 63" "length digest = 16"
  shows "length (built_header old biosSize digest) = 63"
    and "bytes_BiosIdentifier (built_header old biosSize digest) =
      \<lparr>Magic = ascii ''AUTO'', HeaderVersion = 2, XboxVersion = 0xFF, VideoEncoder = 7, HeaderPatch = old ! 7,
       Option1 = 1, Option2 = old ! 9, Option3 = old ! 10, BiosSize = biosSize,
       Name = PROG_NAME @ ascii '' 0.59'' @ [0] @ chunk 30 17 old, MD5Hash = digest\<rparr>"
  using assms by (simp_all add: bytes_BiosIdentifier_def built_header_def chunk_def nth_append)

lemma writeBiosIdentifier_result:
  assumes "length img = 0x40000" and "unat biosSize \<le> 0x40000 - 63"
  shows "writeBiosIdentifier img biosSize = Some (take (0x40000 - 63) img @
    built_header (chunk (0x40000 - 63) 63 img) biosSize (md5_spec (take (unat biosSize) img)))"
proof -
  have "length (take n img) < 2 ^ 32 - 64" for n using assms(1) by simp
  note md5 = md5_oneshot [OF this]
  show ?thesis using assms
    by (simp add: writeBiosIdentifier_def built_header_def sizeof_BiosIdentifier_def HeaderVersionV2_def
        Option1_SaveSettingsLocationBit_def Let_def md5)
qed

text \<open>C6: Images from the builder are accepted, and damaged ones are not. For a 256 KB image whose body of
  \<^verbatim>\<open>biosSize\<close> bytes ends in front of the header, the builder changes nothing but the header, and the driver's
  check accepts the result. An image with the same header whose body has another MD5 digest is rejected
  as \<^verbatim>\<open>MD5Mismatch\<close>, whatever else it holds, and a built image that comes with another size as \<^verbatim>\<open>FileSizeError\<close>. When the body is smaller than 192 KB, the driver takes from the header that the settings are
  stored at 192 KB, behind the body.\<close>

theorem built_image_accepted:
  assumes "length img = 0x40000" and "unat biosSize \<le> 0x40000 - 63"
  shows "\<exists>img'. writeBiosIdentifier img biosSize = Some img' \<and> length img' = 0x40000 \<and>
    take (0x40000 - 63) img' = take (0x40000 - 63) img \<and>
    validateOSImage img' 0x40000 = Some FlashErrorcodes_NoError \<and>
    (\<forall>bad. length bad = 0x40000 \<and> drop (0x40000 - 63) bad = drop (0x40000 - 63) img' \<longrightarrow>
      validateOSImage bad 0x40000 = Some (if md5_spec (take (unat biosSize) bad) = md5_spec (take (unat biosSize) img)
        then FlashErrorcodes_NoError else FlashErrorcodes_MD5Mismatch)) \<and>
    (\<forall>sz. sz \<noteq> 0x40000 \<longrightarrow> validateOSImage img' sz = Some FlashErrorcodes_FileSizeError) \<and>
    (unat biosSize < 0x30000 \<longrightarrow> getXBlastOSSettingStartingOffset (image_header img') = 0x30000)"
proof -
  define old where "old = chunk (0x40000 - 63) 63 img"
  define hdr where "hdr = built_header old biosSize (md5_spec (take (unat biosSize) img))"
  define img' where "img' = take (0x40000 - 63) img @ hdr"
  have old: "length old = 63" using assms(1) by (simp add: old_def chunk_def)
  note f = built_header_fields [OF old length_md5_spec [of "take (unat biosSize) img"], of biosSize, folded hdr_def]
  have w: "writeBiosIdentifier img biosSize = Some img'"
    unfolding img'_def hdr_def old_def by (rule writeBiosIdentifier_result [OF assms])
  have len: "length img' = 0x40000" "take (0x40000 - 63) img' = take (0x40000 - 63) img" "drop (0x40000 - 63) img' = hdr"
    using assms(1) f(1) by (simp_all add: img'_def)
  have same: "take (unat biosSize) img' = take (unat biosSize) img"
    using assms by (simp add: img'_def)
  have verdict: "validateOSImage bad 0x40000 = Some (if md5_spec (take (unat biosSize) bad) = md5_spec (take (unat biosSize) img)
        then FlashErrorcodes_NoError else FlashErrorcodes_MD5Mismatch) \<and> image_header bad = bytes_BiosIdentifier hdr"
    if bad: "length bad = 0x40000" "drop (0x40000 - 63) bad = hdr" for bad
  proof -
    have h: "image_header bad = bytes_BiosIdentifier hdr" using bad(2) f(1) by (simp add: image_header_def chunk_def)
    have "hashed_part (image_header bad) = unat biosSize" by (simp add: h f(2) hashed_part_def HeaderVersionV2_def)
    then show ?thesis using validateOSImage_verdict [of bad "0x40000"] bad(1) assms(2) h f(2) by simp
  qed
  have "getXBlastOSSettingStartingOffset (image_header img') = 0x30000" if "unat biosSize < 0x30000"
    using that verdict [OF len(1,3)] f(2)
    by (simp add: getXBlastOSSettingStartingOffset_def flash_size_defs word_less_nat_alt word_le_nat_alt HeaderVersionV2_def
        Option1_SaveSettingsLocationBit_def)
  moreover have "validateOSImage img' sz = Some FlashErrorcodes_FileSizeError" if "sz \<noteq> 0x40000" for sz
    using that validateOSImage_verdict [of img' sz] len(1) by simp
  ultimately show ?thesis using w len same verdict [OF len(1,3)] verdict by simp
qed

theorem built_image_accepted_witness:
  "\<exists>img'. writeBiosIdentifier (replicate 0x40000 0xFF) 0x2ABCD = Some img' \<and>
    validateOSImage img' 0x40000 = Some FlashErrorcodes_NoError \<and> validateOSImage img' 0x80000 = Some FlashErrorcodes_FileSizeError \<and>
    getXBlastOSSettingStartingOffset (image_header img') = 0x30000"
proof -
  have "length (replicate 0x40000 (0xFF :: u8)) = 0x40000" "unat (0x2ABCD :: u32) \<le> 0x40000 - 63" "unat (0x2ABCD :: u32) < 0x30000"
    by simp_all
  from built_image_accepted [OF this(1,2)] this(3) show ?thesis by auto
qed

end
