(* ===== verification/Sha1.thy ===== *)
theory Sha1
  imports Xblast_Prelude
begin

text \<open>
  lib/crypt/sha1.c: the compression function, the byte-at-a-time input loop, padding and result.
  The context is the record \<^verbatim>\<open>SHA1Context\<close>; the null-pointer returns are left out because the
  model has no null pointers. The main fact is that feeding a message in pieces gives the digest
  of the message padded as a whole, also when the context starts from the precomputed state of
  one block, as the hard disk key routines do.
\<close>

type_synonym sha1_state = "u32 \<times> u32 \<times> u32 \<times> u32 \<times> u32"

record SHA1Context =
  Intermediate_Hash :: sha1_state
  Length_Low :: u32
  Length_High :: u32
  Message_Block_Index :: nat
  Message_Block :: "u8 list"
  Computed :: int
  Corrupted :: int

definition shaSuccess :: int where "shaSuccess = 0"
definition shaStateError :: int where "shaStateError = 3"

definition SHA1CircularShift :: "nat \<Rightarrow> u32 \<Rightarrow> u32" where
  "SHA1CircularShift bits w = push_bit bits w OR drop_bit (32 - bits) w"

definition sha1_iv :: sha1_state where
  "sha1_iv = (0x67452301, 0xEFCDAB89, 0x98BADCFE, 0x10325476, 0xC3D2E1F0)"

definition SHA1Reset :: "SHA1Context \<Rightarrow> SHA1Context" where
  "SHA1Reset context = context\<lparr>Length_Low := 0, Length_High := 0, Message_Block_Index := 0,
     Intermediate_Hash := sha1_iv, Computed := 0, Corrupted := 0\<rparr>"

subsection \<open>The compression function\<close>

definition sha1_word :: "u8 list \<Rightarrow> nat \<Rightarrow> u32" where
  "sha1_word mb t =
    push_bit 24 (ucast (mb ! (t * 4))) OR push_bit 16 (ucast (mb ! (t * 4 + 1))) OR
    push_bit 8 (ucast (mb ! (t * 4 + 2))) OR ucast (mb ! (t * 4 + 3))"

definition sha1_schedule :: "u8 list \<Rightarrow> u32 list" where
  "sha1_schedule mb =
    fold (\<lambda>t w. w @ [SHA1CircularShift 1
                       (w ! (t - 3) XOR w ! (t - 8) XOR w ! (t - 14) XOR w ! (t - 16))])
      [16..<80] (map (sha1_word mb) [0..<16])"

definition sha1_f :: "nat \<Rightarrow> u32 \<Rightarrow> u32 \<Rightarrow> u32 \<Rightarrow> u32" where
  "sha1_f t b c d =
    (if t < 20 then (b AND c) OR (NOT b AND d)
     else if t < 40 then b XOR c XOR d
     else if t < 60 then (b AND c) OR (b AND d) OR (c AND d)
     else b XOR c XOR d)"

definition sha1_K :: "nat \<Rightarrow> u32" where
  "sha1_K t = (if t < 20 then 0x5A827999 else if t < 40 then 0x6ED9EBA1
               else if t < 60 then 0x8F1BBCDC else 0xCA62C1D6)"

definition sha1_round :: "u32 list \<Rightarrow> nat \<Rightarrow> sha1_state \<Rightarrow> sha1_state" where
  "sha1_round w t = (\<lambda>(a, b, c, d, e).
     (SHA1CircularShift 5 a + sha1_f t b c d + e + w ! t + sha1_K t,
      a, SHA1CircularShift 30 b, c, d))"

definition sha1_compress :: "sha1_state \<Rightarrow> u8 list \<Rightarrow> sha1_state" where
  "sha1_compress st mb =
    (let (a, b, c, d, e) = fold (sha1_round (sha1_schedule mb)) [0..<80] st;
         (h0, h1, h2, h3, h4) = st
     in (h0 + a, h1 + b, h2 + c, h3 + d, h4 + e))"

definition SHA1ProcessMessageBlock :: "SHA1Context \<Rightarrow> SHA1Context" where
  "SHA1ProcessMessageBlock context = context\<lparr>Intermediate_Hash :=
     sha1_compress (Intermediate_Hash context) (Message_Block context), Message_Block_Index := 0\<rparr>"

subsection \<open>Input, padding and result\<close>

definition sha1_put :: "u8 \<Rightarrow> SHA1Context \<Rightarrow> SHA1Context" where
  "sha1_put b context = context\<lparr>Message_Block := (Message_Block context)[Message_Block_Index context := b],
     Message_Block_Index := Message_Block_Index context + 1\<rparr>"

definition sha1_count :: "SHA1Context \<Rightarrow> SHA1Context" where
  "sha1_count context =
    (let low = Length_Low context + 8; c1 = context\<lparr>Length_Low := low\<rparr>
     in if low = 0
        then let high = Length_High context + 1; c2 = c1\<lparr>Length_High := high\<rparr>
             in if high = 0 then c2\<lparr>Corrupted := 1\<rparr> else c2
        else c1)"

definition sha1_octet :: "u8 \<Rightarrow> SHA1Context \<Rightarrow> SHA1Context" where
  "sha1_octet b context =
    (let c = sha1_count (sha1_put b context)
     in if Message_Block_Index c = 64 then SHA1ProcessMessageBlock c else c)"

fun sha1_input_loop :: "u8 list \<Rightarrow> SHA1Context \<Rightarrow> SHA1Context" where
  "sha1_input_loop [] context = context"
| "sha1_input_loop (b # bs) context =
    (if Corrupted context \<noteq> 0 then context else sha1_input_loop bs (sha1_octet b context))"

definition SHA1Input :: "u8 list \<Rightarrow> SHA1Context \<Rightarrow> int \<times> SHA1Context" where
  "SHA1Input message_array context =
    (if message_array = [] then (shaSuccess, context)
     else if Computed context \<noteq> 0 then (shaStateError, context\<lparr>Corrupted := shaStateError\<rparr>)
     else if Corrupted context \<noteq> 0 then (Corrupted context, context)
     else (shaSuccess, sha1_input_loop message_array context))"

function pad_zeros :: "nat \<Rightarrow> SHA1Context \<Rightarrow> SHA1Context" where
  "pad_zeros n context =
    (if Message_Block_Index context < n then pad_zeros n (sha1_put 0 context) else context)"
  by pat_completeness auto
termination
  by (relation "measure (\<lambda>(n, c). n - Message_Block_Index c)") (auto simp: sha1_put_def)

declare pad_zeros.simps [simp del]

definition be_bytes :: "u32 \<Rightarrow> u8 list" where
  "be_bytes w = [ucast (drop_bit 24 w), ucast (drop_bit 16 w), ucast (drop_bit 8 w), ucast w]"

definition SHA1PadMessage :: "SHA1Context \<Rightarrow> SHA1Context" where
  "SHA1PadMessage context =
    (let c1 = (if Message_Block_Index context > 55
               then pad_zeros 56 (SHA1ProcessMessageBlock (pad_zeros 64 (sha1_put 0x80 context)))
               else pad_zeros 56 (sha1_put 0x80 context));
         c2 = c1\<lparr>Message_Block := take 56 (Message_Block c1) @ be_bytes (Length_High c1) @
                                  be_bytes (Length_Low c1)\<rparr>
     in SHA1ProcessMessageBlock c2)"

definition sha1_digest :: "sha1_state \<Rightarrow> u8 list" where
  "sha1_digest st = (let (a, b, c, d, e) = st in concat (map be_bytes [a, b, c, d, e]))"

text \<open>The error code with the digest and the context; no digest is stored on an error.\<close>

definition SHA1Result :: "SHA1Context \<Rightarrow> (int + u8 list) \<times> SHA1Context" where
  "SHA1Result context =
    (if Corrupted context \<noteq> 0 then (Inl (Corrupted context), context)
     else let c = (if Computed context = 0
                   then (SHA1PadMessage context)\<lparr>Message_Block := replicate 64 0, Length_Low := 0,
                          Length_High := 0, Computed := 1\<rparr>
                   else context)
          in (Inr (sha1_digest (Intermediate_Hash c)), c))"

subsection \<open>Specification\<close>

function sha1_blocks :: "sha1_state \<Rightarrow> u8 list \<Rightarrow> sha1_state \<times> u8 list" where
  "sha1_blocks st bs =
    (if length bs < 64 then (st, bs)
     else sha1_blocks (sha1_compress st (take 64 bs)) (drop 64 bs))"
  by pat_completeness auto
termination
  by (relation "measure (\<lambda>(st, bs). length bs)") auto

declare sha1_blocks.simps [simp del]

definition sha1_len_lo :: "nat \<Rightarrow> u32" where "sha1_len_lo n = word_of_nat (8 * n)"
definition sha1_len_hi :: "nat \<Rightarrow> u32" where "sha1_len_hi n = word_of_nat (8 * n div 2 ^ 32)"

definition sha1_pad :: "nat \<Rightarrow> u8 list" where
  "sha1_pad n = 0x80 # replicate ((119 - n mod 64) mod 64) 0 @ be_bytes (sha1_len_hi n) @
     be_bytes (sha1_len_lo n)"

text \<open>The digest of \<^verbatim>\<open>m\<close> when \<^verbatim>\<open>pre\<close> bytes, a whole number of blocks, have led to the state \<^verbatim>\<open>st\<close>.\<close>

definition sha1_from :: "sha1_state \<Rightarrow> nat \<Rightarrow> u8 list \<Rightarrow> u8 list" where
  "sha1_from st pre m = sha1_digest (fst (sha1_blocks st (m @ sha1_pad (pre + length m))))"

definition sha1_spec :: "u8 list \<Rightarrow> u8 list" where
  "sha1_spec m = sha1_from sha1_iv 0 m"

subsection \<open>Streaming\<close>

lemma sha1_blocks_short: "length xs < 64 \<Longrightarrow> sha1_blocks st xs = (st, xs)"
  by (simp add: sha1_blocks.simps)

lemma sha1_blocks_one: "length xs = 64 \<Longrightarrow> sha1_blocks st xs = (sha1_compress st xs, [])"
  by (simp add: sha1_blocks.simps [of st xs] sha1_blocks_short)

lemma sha1_blocks_append:
  "sha1_blocks st (xs @ ys) = (case sha1_blocks st xs of (st', r) \<Rightarrow> sha1_blocks st' (r @ ys))"
proof (induction st xs rule: sha1_blocks.induct)
  case (1 st xs)
  show ?case
  proof (cases "length xs < 64")
    case False
    have "sha1_blocks st (xs @ ys) = sha1_blocks (sha1_compress st (take 64 xs)) (drop 64 xs @ ys)"
      using False by (subst sha1_blocks.simps) simp
    then show ?thesis using 1 [OF False] False by (simp add: sha1_blocks.simps [of st xs])
  qed (simp add: sha1_blocks_short)
qed

lemma sha1_blocks_rest: "length (snd (sha1_blocks st xs)) = length xs mod 64"
proof (induction st xs rule: sha1_blocks.induct)
  case (1 st xs)
  show ?case
  proof (cases "length xs < 64")
    case False
    then show ?thesis using 1 [OF False] le_mod_geq [of 64 "length xs"]
      by (simp add: sha1_blocks.simps [of st xs])
  qed (simp add: sha1_blocks_short)
qed

text \<open>The context after the bytes \<^verbatim>\<open>m\<close> have followed \<^verbatim>\<open>pre\<close> bytes in whole blocks.\<close>

definition sha1_rep :: "sha1_state \<Rightarrow> nat \<Rightarrow> u8 list \<Rightarrow> SHA1Context \<Rightarrow> bool" where
  "sha1_rep st0 pre m c \<longleftrightarrow>
     length (Message_Block c) = 64 \<and> Computed c = 0 \<and> Corrupted c = 0 \<and>
     Length_Low c = sha1_len_lo (pre + length m) \<and> Length_High c = sha1_len_hi (pre + length m) \<and>
     Message_Block_Index c = length m mod 64 \<and>
     sha1_blocks st0 m = (Intermediate_Hash c, take (length m mod 64) (Message_Block c))"

lemma sha1_count_step:
  assumes "8 * (n + 1) < (2 :: nat) ^ 64" "Length_Low c = sha1_len_lo n" "Length_High c = sha1_len_hi n"
  shows "sha1_count c = c\<lparr>Length_Low := sha1_len_lo (n + 1), Length_High := sha1_len_hi (n + 1)\<rparr>"
proof -
  have low: "Length_Low c + 8 = sha1_len_lo (n + 1)" by (simp add: assms(2) sha1_len_lo_def)
  have zero: "sha1_len_lo (n + 1) = 0 \<longleftrightarrow> 2 ^ 32 dvd 8 * (n + 1)"
    unfolding sha1_len_lo_def word_of_nat_eq_0_iff by simp
  have hi: "8 * (n + 1) div 2 ^ 32 = 8 * n div 2 ^ 32 + (if 2 ^ 32 dvd 8 * (n + 1) then 1 else 0)"
  proof -
    have p: "(2 :: nat) ^ 32 = 8 * 2 ^ 29" by simp
    have d: "8 * k div 2 ^ 32 = k div 2 ^ 29" for k :: nat unfolding p by (rule div_mult_mult1) simp
    have m: "2 ^ 32 dvd 8 * k \<longleftrightarrow> k mod 2 ^ 29 = 0" for k :: nat
      unfolding p dvd_eq_mod_eq_0 [symmetric] by (rule nat_mult_dvd_cancel1) simp
    show ?thesis unfolding d m by (simp add: div_Suc)
  qed
  have lt: "8 * (n + 1) div 2 ^ 32 < 2 ^ 32" using assms(1) by (simp add: less_mult_imp_div_less)
  show ?thesis
  proof (cases "2 ^ 32 dvd 8 * (n + 1)")
    case True
    then have h: "Length_High c + 1 = sha1_len_hi (n + 1)"
      using hi by (simp add: assms(3) sha1_len_hi_def)
    have "0 < 8 * (n + 1) div 2 ^ 32" using hi True by simp
    then have "sha1_len_hi (n + 1) \<noteq> 0"
      using lt unfolding sha1_len_hi_def word_of_nat_eq_0_iff by (auto dest: dvd_imp_le)
    then show ?thesis using True zero by (simp add: sha1_count_def low h)
  next
    case False
    then have "sha1_len_hi (n + 1) = Length_High c" using hi by (simp add: assms(3) sha1_len_hi_def)
    then show ?thesis using False zero by (simp add: sha1_count_def low)
  qed
qed

lemma sha1_put_block:
  assumes "i < 64" "length mb = 64"
  shows "take (Suc i) (mb[i := b]) = take i mb @ [b]"
  using assms by (simp add: take_Suc_conv_app_nth)

lemma sha1_octet_rep:
  assumes "sha1_rep st0 pre m c" "8 * (pre + length m + 1) < 2 ^ 64"
  shows "sha1_rep st0 pre (m @ [b]) (sha1_octet b c)"
proof -
  let ?i = "length m mod 64"
  have c: "length (Message_Block c) = 64" "Message_Block_Index c = ?i"
      "sha1_blocks st0 m = (Intermediate_Hash c, take ?i (Message_Block c))"
    using assms(1) by (simp_all add: sha1_rep_def)
  have count: "sha1_count (sha1_put b c) = (sha1_put b c)\<lparr>Length_Low := sha1_len_lo (pre + length m + 1),
      Length_High := sha1_len_hi (pre + length m + 1)\<rparr>"
    using assms by (intro sha1_count_step) (simp_all add: sha1_rep_def sha1_put_def)
  have t: "take (Suc ?i) ((Message_Block c)[?i := b]) = take ?i (Message_Block c) @ [b]"
    using c(1) by (intro sha1_put_block) simp_all
  have bl: "sha1_blocks st0 (m @ [b]) = sha1_blocks (Intermediate_Hash c) (take ?i (Message_Block c) @ [b])"
    by (subst sha1_blocks_append) (simp add: c(3))
  have oct: "sha1_octet b c = (let c' = c\<lparr>Message_Block := (Message_Block c)[?i := b],
      Message_Block_Index := Suc ?i, Length_Low := sha1_len_lo (pre + length m + 1),
      Length_High := sha1_len_hi (pre + length m + 1)\<rparr>
    in if Suc ?i = 64 then SHA1ProcessMessageBlock c' else c')"
    unfolding sha1_octet_def count by (simp add: sha1_put_def c(2))
  show ?thesis
  proof (cases "?i = 63")
    case True
    have mb: "(Message_Block c)[63 := b] = take 63 (Message_Block c) @ [b]"
      using t c(1) True by simp
    have "Suc (length m) mod 64 = 0" using True by (simp add: mod_Suc)
    moreover have "sha1_blocks st0 (m @ [b]) =
        (sha1_compress (Intermediate_Hash c) (take 63 (Message_Block c) @ [b]), [])"
      using bl c(1) True by (simp add: sha1_blocks_one)
    ultimately show ?thesis using assms(1) mb c(1) unfolding oct True
      by (simp add: sha1_rep_def SHA1ProcessMessageBlock_def)
  next
    case False
    then have "Suc (length m) mod 64 = Suc ?i" by (simp add: mod_Suc)
    moreover have "Suc ?i < 64" using False mod_less_divisor [of 64 "length m"] by linarith
    moreover from this have "sha1_blocks st0 (m @ [b]) =
        (Intermediate_Hash c, take ?i (Message_Block c) @ [b])"
      using bl c(1) by (simp add: sha1_blocks_short)
    ultimately show ?thesis using assms(1) False c(1) t unfolding oct
      by (simp add: sha1_rep_def)
  qed
qed

lemma sha1_input_rep:
  assumes "sha1_rep st0 pre m c" "8 * (pre + length m + length bs) < 2 ^ 64"
  shows "sha1_rep st0 pre (m @ bs) (sha1_input_loop bs c)"
  using assms
proof (induction bs arbitrary: m c)
  case (Cons b bs)
  then have "sha1_rep st0 pre (m @ [b]) (sha1_octet b c)" by (intro sha1_octet_rep) simp_all
  moreover have "Corrupted c = 0" using Cons.prems(1) by (simp add: sha1_rep_def)
  ultimately show ?case using Cons.IH [of "m @ [b]"] Cons.prems(2) by simp
qed simp

lemma SHA1Input_rep:
  assumes "sha1_rep st0 pre m c" "8 * (pre + length m + length bs) < 2 ^ 64"
  shows "fst (SHA1Input bs c) = shaSuccess \<and> sha1_rep st0 pre (m @ bs) (snd (SHA1Input bs c))"
  using sha1_input_rep [OF assms] assms(1) by (auto simp: SHA1Input_def sha1_rep_def)

lemma pad_zeros_fill:
  assumes "length (Message_Block c) = 64" "Message_Block_Index c \<le> n" "n \<le> 64"
  shows "pad_zeros n c = c\<lparr>Message_Block := take (Message_Block_Index c) (Message_Block c) @
      replicate (n - Message_Block_Index c) 0 @ drop n (Message_Block c), Message_Block_Index := n\<rparr>"
  using assms
proof (induction "n - Message_Block_Index c" arbitrary: c)
  case 0
  then have "Message_Block_Index c = n" by simp
  then show ?case by (subst pad_zeros.simps) simp
next
  case (Suc k)
  then have i: "Message_Block_Index c < n" by simp
  have "pad_zeros n c = pad_zeros n (sha1_put 0 c)" using i by (subst pad_zeros.simps) simp
  also have "\<dots> = (sha1_put 0 c)\<lparr>Message_Block := take (Suc (Message_Block_Index c))
      ((Message_Block c)[Message_Block_Index c := 0]) @ replicate (n - Suc (Message_Block_Index c)) 0 @
      drop n ((Message_Block c)[Message_Block_Index c := 0]), Message_Block_Index := n\<rparr>"
    using Suc(1) [of "sha1_put 0 c"] Suc(2-5) i by (simp add: sha1_put_def)
  also have "take (Suc (Message_Block_Index c)) ((Message_Block c)[Message_Block_Index c := 0]) =
      take (Message_Block_Index c) (Message_Block c) @ [0]"
    using Suc.prems i by (intro sha1_put_block) simp_all
  also have "drop n ((Message_Block c)[Message_Block_Index c := 0]) = drop n (Message_Block c)"
    using i by simp
  finally show ?case
    using i by (simp add: sha1_put_def Suc_diff_Suc [symmetric] replicate_append_same [symmetric])
qed

lemma length_be_bytes [simp]: "length (be_bytes w) = 4"
  by (simp add: be_bytes_def)

lemma sha1_blocks_two:
  "length xs = 64 \<Longrightarrow> length ys = 64 \<Longrightarrow>
     sha1_blocks st (xs @ ys) = (sha1_compress (sha1_compress st xs) ys, [])"
  by (subst sha1_blocks_append) (simp add: sha1_blocks_one)

lemma SHA1PadMessage_rep:
  assumes "sha1_rep st0 pre m c" "pre mod 64 = 0"
  shows "Intermediate_Hash (SHA1PadMessage c) = fst (sha1_blocks st0 (m @ sha1_pad (pre + length m)))"
proof -
  let ?i = "length m mod 64"
  let ?r = "take ?i (Message_Block c)"
  let ?lens = "be_bytes (sha1_len_hi (pre + length m)) @ be_bytes (sha1_len_lo (pre + length m))"
  have c: "length (Message_Block c) = 64" "Message_Block_Index c = ?i"
      "sha1_blocks st0 m = (Intermediate_Hash c, ?r)" "Corrupted c = 0"
      "Length_Low c = sha1_len_lo (pre + length m)" "Length_High c = sha1_len_hi (pre + length m)"
    using assms(1) by (simp_all add: sha1_rep_def)
  have i: "?i < 64" by simp
  have mod: "(pre + length m) mod 64 = ?i" using mod_add_left_eq [of pre 64 "length m"] assms(2) by simp
  have len: "length ?r = ?i" using c(1) i by simp
  have bl: "sha1_blocks st0 (m @ sha1_pad (pre + length m)) =
      sha1_blocks (Intermediate_Hash c) (?r @ 0x80 # replicate ((119 - ?i) mod 64) 0 @ ?lens)"
    by (subst sha1_blocks_append) (simp add: c(3) sha1_pad_def mod)
  have put: "sha1_put 0x80 c = c\<lparr>Message_Block := ?r @ 0x80 # drop (Suc ?i) (Message_Block c),
      Message_Block_Index := Suc ?i\<rparr>"
    using c(1,2) i by (simp add: sha1_put_def upd_conv_take_nth_drop)
  show "Intermediate_Hash (SHA1PadMessage c) = fst (sha1_blocks st0 (m @ sha1_pad (pre + length m)))"
  proof (cases "55 < ?i")
    case False
    have "(119 - ?i) mod 64 = 55 - ?i" using False le_mod_geq [of 64 "119 - ?i"] by simp
    then have "sha1_blocks st0 (m @ sha1_pad (pre + length m)) =
        (sha1_compress (Intermediate_Hash c) (?r @ 0x80 # replicate (55 - ?i) 0 @ ?lens), [])"
      unfolding bl using len False by (subst sha1_blocks_one) simp_all
    moreover have "pad_zeros 56 (sha1_put 0x80 c) = c\<lparr>Message_Block :=
        ?r @ 0x80 # replicate (55 - ?i) 0 @ drop 56 (Message_Block (sha1_put 0x80 c)),
        Message_Block_Index := 56\<rparr>"
      using c(1) i False len by (subst pad_zeros_fill) (simp_all add: put)
    moreover have "take 56 ((?r @ 0x80 # replicate (55 - ?i) 0) @ x) = ?r @ 0x80 # replicate (55 - ?i) 0"
      for x using len False by (simp del: append.simps append_assoc)
    note this [unfolded append_assoc append.simps]
    ultimately show ?thesis
      using False c(2,5,6) by (simp add: SHA1PadMessage_def SHA1ProcessMessageBlock_def Let_def)
  next
    case True
    let ?b1 = "?r @ 0x80 # replicate (63 - ?i) 0"
    have "(119 - ?i) mod 64 = 119 - ?i" using True by (intro mod_less) linarith
    also have "\<dots> = (63 - ?i) + 56" using i True by simp
    finally have z: "(119 - ?i) mod 64 = (63 - ?i) + 56" .
    have b2: "?r @ 0x80 # replicate ((119 - ?i) mod 64) 0 @ ?lens = ?b1 @ replicate 56 0 @ ?lens"
      unfolding z replicate_add by simp
    have two: "sha1_blocks st0 (m @ sha1_pad (pre + length m)) =
        (sha1_compress (sha1_compress (Intermediate_Hash c) ?b1) (replicate 56 0 @ ?lens), [])"
      unfolding bl b2 using len i by (intro sha1_blocks_two) simp_all
    have "pad_zeros 64 (sha1_put 0x80 c) = c\<lparr>Message_Block := ?b1, Message_Block_Index := 64\<rparr>"
      using c(1) i len by (subst pad_zeros_fill) (simp_all add: put)
    then have "pad_zeros 56 (SHA1ProcessMessageBlock (pad_zeros 64 (sha1_put 0x80 c))) =
        c\<lparr>Intermediate_Hash := sha1_compress (Intermediate_Hash c) ?b1,
          Message_Block := replicate 56 0 @ drop 56 ?b1, Message_Block_Index := 56\<rparr>"
      using len i by (subst pad_zeros_fill) (simp_all add: SHA1ProcessMessageBlock_def)
    then show ?thesis using True c two
      by (simp add: SHA1PadMessage_def SHA1ProcessMessageBlock_def Let_def)
  qed
qed

lemma SHA1Result_rep:
  assumes "sha1_rep st0 pre m c" "pre mod 64 = 0"
  shows "fst (SHA1Result c) = Inr (sha1_from st0 pre m)"
  using SHA1PadMessage_rep [OF assms] assms(1)
  by (simp add: SHA1Result_def sha1_rep_def sha1_from_def)

lemma SHA1Reset_rep: "length (Message_Block c) = 64 \<Longrightarrow> sha1_rep sha1_iv 0 [] (SHA1Reset c)"
  by (simp add: sha1_rep_def SHA1Reset_def sha1_len_lo_def sha1_len_hi_def sha1_blocks_short)

definition sha1_inputs :: "u8 list list \<Rightarrow> SHA1Context \<Rightarrow> SHA1Context" where
  "sha1_inputs = fold (\<lambda>bs c. snd (SHA1Input bs c))"

lemma sha1_inputs_rep:
  assumes "sha1_rep st0 pre m c" "8 * (pre + length m + length (concat inputs)) < 2 ^ 64"
  shows "sha1_rep st0 pre (m @ concat inputs) (sha1_inputs inputs c)"
  using assms
proof (induction inputs arbitrary: m c)
  case (Cons bs inputs)
  have "sha1_rep st0 pre (m @ bs) (snd (SHA1Input bs c))"
    using SHA1Input_rep [OF Cons.prems(1)] Cons.prems(2) by simp
  then show ?case using Cons.IH [of "m @ bs"] Cons.prems(2) by (simp add: sha1_inputs_def add.assoc)
qed (simp add: sha1_inputs_def)

text \<open>C11: Resetting a context, feeding a message in pieces cut anywhere and asking for the result gives
  the SHA-1 digest of the whole message, for every message of less than 2^64 bits.\<close>

theorem sha1_stream_eq_spec:
  assumes "length (Message_Block c) = 64" and "8 * length (concat inputs) < 2 ^ 64"
  shows "fst (SHA1Result (sha1_inputs inputs (SHA1Reset c))) = Inr (sha1_spec (concat inputs))"
  using SHA1Result_rep [OF sha1_inputs_rep [OF SHA1Reset_rep [OF assms(1)]]] assms(2)
  by (simp add: sha1_spec_def)

definition sha1_ctx0 :: SHA1Context where
  "sha1_ctx0 = \<lparr>Intermediate_Hash = (0, 0, 0, 0, 0), Length_Low = 0, Length_High = 0,
     Message_Block_Index = 0, Message_Block = replicate 64 0, Computed = 0, Corrupted = 0\<rparr>"

theorem sha1_stream_eq_spec_witness:
  "fst (SHA1Result (sha1_inputs [[0x61], [0x62, 0x63]] (SHA1Reset sha1_ctx0))) =
     Inr (sha1_spec [0x61, 0x62, 0x63])"
proof -
  have c: "concat [[0x61], [0x62, 0x63]] = [0x61, 0x62, 0x63 :: u8]" by simp
  have "length (Message_Block sha1_ctx0) = 64" "8 * length (concat [[0x61], [0x62, 0x63 :: u8]]) < 2 ^ 64"
    by (simp_all add: sha1_ctx0_def)
  from sha1_stream_eq_spec [OF this] show ?thesis unfolding c .
qed

end
