(* ===== verification/HddKey.thy ===== *)
theory HddKey
  imports Sha1
begin

text \<open>
  drivers/ide/BootHddKey.c: the keyed hashes of the Xbox. \<^verbatim>\<open>HMAC_SHA1\<close> is the general one;
  \<^verbatim>\<open>HMAC_hdd_calculation\<close> starts both passes from the states that the secret keys of a console
  version lead to. The second pass of the latter reads its message from the block it writes to;
  each byte is read before the same place is written, so the message is the digest stored there.
  The SHA-1 context is an uninitialised local variable, hence a parameter.
\<close>

subsection \<open>Identification strings of the drive\<close>

definition SPACE :: u8 where "SPACE = 0x20"

fun swap_pairs :: "u8 list \<Rightarrow> u8 list" where
  "swap_pairs (a # b # bs) = b # a # swap_pairs bs"
| "swap_pairs bs = bs"

text \<open>The backward loop: the length up to the last byte that is not a space.\<close>

fun trimmed_length :: "u8 list \<Rightarrow> nat \<Rightarrow> nat" where
  "trimmed_length bs 0 = 0"
| "trimmed_length bs (Suc i) = (if bs ! i \<noteq> SPACE then Suc i else trimmed_length bs i)"

text \<open>\<^verbatim>\<open>src\<close> holds the \<^verbatim>\<open>len\<close> bytes, an even number; the terminator is stored at the returned length, one past
  the copied bytes when nothing is trimmed. \<^verbatim>\<open>None\<close> is a store outside \<^verbatim>\<open>dst\<close>.\<close>

definition copy_swap_trim :: "u8 list \<Rightarrow> u8 list \<Rightarrow> (u8 list \<times> nat) option" where
  "copy_swap_trim dst src =
    (if length src \<le> length dst
     then let copied = swap_pairs src @ drop (length src) dst;
              i = trimmed_length copied (length src)
          in if i = 0 then Some (copied, 0)
             else if i < length dst then Some (copied[i := 0], i) else None
     else None)"

subsection \<open>Keyed hashes\<close>

definition hdd_state1 :: "int \<Rightarrow> sha1_state" where
  "hdd_state1 version =
    (if version = 9 then (0x85F9E51A, 0xE04613D2, 0x6D86A50C, 0x77C32E3C, 0x4BD717A4)
     else if version = 10 then (0x72127625, 0x336472B9, 0xBE609BEA, 0xF55E226B, 0x99958DAC)
     else if version = 11 then (0x39B06E79, 0xC9BD25E8, 0xDBC6B498, 0x40B4389D, 0x86BBD7ED)
     else if version = 12 then (0x8058763a, 0xf97d4e0e, 0x865a9762, 0x8a3d920d, 0x08995b2c)
     else sha1_iv)"

definition hdd_state2 :: "int \<Rightarrow> sha1_state" where
  "hdd_state2 version =
    (if version = 9 then (0x5D7A9C6B, 0xE1922BEB, 0xB82CCDBC, 0x3137AB34, 0x486B52B3)
     else if version = 10 then (0x76441D41, 0x4DE82659, 0x2E8EF85E, 0xB256FACA, 0xC4FE2DE8)
     else if version = 11 then (0x9B49BED3, 0x84B430FC, 0x6B8749CD, 0xEBFE5FE5, 0xD96E7393)
     else if version = 12 then (0x01075307, 0xa2f1e037, 0x1186eeea, 0x88da9992, 0x168a5609)
     else sha1_iv)"

definition HMAC1hddReset :: "int \<Rightarrow> SHA1Context \<Rightarrow> SHA1Context" where
  "HMAC1hddReset version context =
    (SHA1Reset context)\<lparr>Intermediate_Hash := hdd_state1 version, Length_Low := 512\<rparr>"

definition HMAC2hddReset :: "int \<Rightarrow> SHA1Context \<Rightarrow> SHA1Context" where
  "HMAC2hddReset version context =
    (SHA1Reset context)\<lparr>Intermediate_Hash := hdd_state2 version, Length_Low := 512\<rparr>"

definition hmac_block :: "u8 \<Rightarrow> u8 list \<Rightarrow> u8 list" where
  "hmac_block pad key = map (\<lambda>i. if i < length key then key ! i XOR pad else pad) [0..<64]"

definition HMAC_SHA1 :: "SHA1Context \<Rightarrow> u8 list \<Rightarrow> u8 list \<Rightarrow> u8 list \<Rightarrow> int + u8 list" where
  "HMAC_SHA1 context key text1 text2 =
    (let c1 = sha1_inputs [hmac_block 0x36 key, text1, text2] (SHA1Reset context);
         (r1, c2) = SHA1Result c1
     in case r1 of
          Inl e \<Rightarrow> Inl e
        | Inr digest \<Rightarrow>
            fst (SHA1Result (sha1_inputs [hmac_block 0x5C key @ digest] (SHA1Reset c2))))"

definition HMAC_hdd_calculation :: "SHA1Context \<Rightarrow> int \<Rightarrow> u8 list list \<Rightarrow> int + u8 list" where
  "HMAC_hdd_calculation context version buffers =
    (let (r1, c2) = SHA1Result (sha1_inputs buffers (HMAC1hddReset version context));
         c3 = (case r1 of
                 Inl _ \<Rightarrow> c2
               | Inr digest \<Rightarrow> c2\<lparr>Message_Block := digest @ drop 20 (Message_Block c2)\<rparr>);
         c4 = HMAC2hddReset version c3
     in fst (SHA1Result (snd (SHA1Input (take 20 (Message_Block c4)) c4))))"

subsection \<open>What they compute\<close>

definition hmac_hdd :: "int \<Rightarrow> u8 list \<Rightarrow> u8 list" where
  "hmac_hdd version m = sha1_from (hdd_state2 version) 64 (sha1_from (hdd_state1 version) 64 m)"

lemma length_sha1_from [simp]: "length (sha1_from st pre m) = 20"
  by (simp add: sha1_from_def sha1_digest_def split: prod.split)

lemma hdd_reset_rep:
  assumes "length (Message_Block c) = 64"
  shows "sha1_rep (hdd_state1 v) 64 [] (HMAC1hddReset v c)"
    and "sha1_rep (hdd_state2 v) 64 [] (HMAC2hddReset v c)"
  using assms
  by (simp_all add: sha1_rep_def SHA1Reset_def HMAC1hddReset_def HMAC2hddReset_def sha1_len_lo_def
      sha1_len_hi_def sha1_blocks_short)

lemma SHA1Result_block: "Corrupted c = 0 \<Longrightarrow> Computed c = 0 \<Longrightarrow>
    Message_Block (snd (SHA1Result c)) = replicate 64 0"
  by (simp add: SHA1Result_def)

lemma HMAC_hdd_eq:
  assumes "length (Message_Block c) = 64" "length (concat buffers) < 2 ^ 60"
  shows "HMAC_hdd_calculation c v buffers = Inr (hmac_hdd v (concat buffers))"
proof -
  let ?c = "sha1_inputs buffers (HMAC1hddReset v c)"
  have r1: "sha1_rep (hdd_state1 v) 64 (concat buffers) ?c"
    using sha1_inputs_rep [OF hdd_reset_rep(1) [OF assms(1)]] assms(2) by simp
  let ?d = "sha1_from (hdd_state1 v) 64 (concat buffers)"
  have d: "fst (SHA1Result ?c) = Inr ?d" using SHA1Result_rep [OF r1] by simp
  have mb: "Message_Block (snd (SHA1Result ?c)) = replicate 64 0"
    using r1 by (intro SHA1Result_block) (simp_all add: sha1_rep_def)
  let ?c4 = "HMAC2hddReset v ((snd (SHA1Result ?c))\<lparr>Message_Block := ?d @ replicate 44 0\<rparr>)"
  have t: "take 20 (Message_Block ?c4) = ?d" by (simp add: HMAC2hddReset_def SHA1Reset_def)
  have r2: "sha1_rep (hdd_state2 v) 64 ?d (snd (SHA1Input ?d ?c4))"
    using SHA1Input_rep [OF hdd_reset_rep(2), of _ ?d] by simp
  have "HMAC_hdd_calculation c v buffers = fst (SHA1Result (snd (SHA1Input ?d ?c4)))"
    using d mb t by (simp add: HMAC_hdd_calculation_def split_beta Let_def)
  then show ?thesis using SHA1Result_rep [OF r2] by (simp add: hmac_hdd_def)
qed

text \<open>C12: The hash of the hard disk key and EEPROM routines is the two-pass keyed SHA-1 in which the block
  with the key has been replaced by the state it leads to. It never fails, and what the
  uninitialised context held does not matter.\<close>

theorem HMAC_hdd_calculation_eq:
  assumes "length (Message_Block c) = 64" and "length (concat buffers) < 2 ^ 60"
  shows "HMAC_hdd_calculation c v buffers =
    Inr (sha1_from (hdd_state2 v) 64 (sha1_from (hdd_state1 v) 64 (concat buffers)))"
  using HMAC_hdd_eq [OF assms] by (simp add: hmac_hdd_def)

theorem HMAC_hdd_calculation_eq_witness:
  "HMAC_hdd_calculation sha1_ctx0 10 [[1, 2], [3]] =
    Inr (sha1_from (hdd_state2 10) 64 (sha1_from (hdd_state1 10) 64 [1, 2, 3]))"
proof -
  have c: "concat [[1, 2], [3]] = [1, 2, 3 :: u8]" by simp
  have "length (Message_Block sha1_ctx0) = 64" "length (concat [[1, 2], [3 :: u8]]) < 2 ^ 60"
    by (simp_all add: sha1_ctx0_def)
  from HMAC_hdd_calculation_eq [OF this] show ?thesis unfolding c .
qed

definition hmac_key_block :: "u8 \<Rightarrow> u8 list \<Rightarrow> u8 list" where
  "hmac_key_block pad key = map (\<lambda>b. b XOR pad) (key @ replicate (64 - length key) 0)"

lemma hmac_block_key: "length key \<le> 64 \<Longrightarrow> hmac_block pad key = hmac_key_block pad key"
  by (rule nth_equalityI) (auto simp: hmac_block_def hmac_key_block_def nth_append)

lemma sha1_one_input:
  assumes "length (Message_Block c) = 64" "length (concat inputs) < 2 ^ 60"
  shows "fst (SHA1Result (sha1_inputs inputs (SHA1Reset c))) = Inr (sha1_spec (concat inputs))"
    and "length (Message_Block (snd (SHA1Result (sha1_inputs inputs (SHA1Reset c))))) = 64"
proof -
  have r: "sha1_rep sha1_iv 0 (concat inputs) (sha1_inputs inputs (SHA1Reset c))"
    using sha1_inputs_rep [OF SHA1Reset_rep [OF assms(1)]] assms(2) by simp
  show "fst (SHA1Result (sha1_inputs inputs (SHA1Reset c))) = Inr (sha1_spec (concat inputs))"
    using SHA1Result_rep [OF r] by (simp add: sha1_spec_def)
  show "length (Message_Block (snd (SHA1Result (sha1_inputs inputs (SHA1Reset c))))) = 64"
    using r by (subst SHA1Result_block) (simp_all add: sha1_rep_def)
qed

lemma length_sha1_spec [simp]: "length (sha1_spec m) = 20"
  by (simp add: sha1_spec_def)

text \<open>C13: For keys of at most 64 bytes \<^verbatim>\<open>HMAC_SHA1\<close> is the HMAC of RFC 2104 over the two texts one after
  the other.\<close>

theorem HMAC_SHA1_eq_rfc2104:
  assumes "length key \<le> 64" and "length (Message_Block c) = 64"
    and "length text1 + length text2 < 2 ^ 59"
  shows "HMAC_SHA1 c key text1 text2 =
    Inr (sha1_spec (hmac_key_block 0x5C key @
      sha1_spec (hmac_key_block 0x36 key @ text1 @ text2)))"
proof -
  let ?in = "[hmac_block 0x36 key, text1, text2]"
  have len: "length (hmac_block p key) = 64" for p by (simp add: hmac_block_def)
  have 1: "length (concat ?in) < 2 ^ 60" using assms(3) len by simp
  note inner = sha1_one_input [OF assms(2) 1]
  note outer = sha1_one_input(1) [OF inner(2), of "[hmac_block 0x5C key @ sha1_spec (concat ?in)]"]
  show ?thesis
    using inner(1) outer assms(1) len by (simp add: HMAC_SHA1_def split_beta Let_def hmac_block_key)
qed

theorem HMAC_SHA1_eq_rfc2104_witness:
  "HMAC_SHA1 sha1_ctx0 [1, 2] [3] [4] =
    Inr (sha1_spec (hmac_key_block 0x5C [1, 2] @ sha1_spec (hmac_key_block 0x36 [1, 2] @ [3] @ [4])))"
  by (rule HMAC_SHA1_eq_rfc2104) (simp_all add: sha1_ctx0_def)

subsection \<open>Trimmed names\<close>

lemma length_swap_pairs [simp]: "length (swap_pairs bs) = length bs"
  by (induction bs rule: swap_pairs.induct) simp_all

lemma trimmed_length_spec:
  "trimmed_length bs n \<le> n \<and> (\<forall>j. trimmed_length bs n \<le> j \<and> j < n \<longrightarrow> bs ! j = SPACE) \<and>
   (0 < trimmed_length bs n \<longrightarrow> bs ! (trimmed_length bs n - 1) \<noteq> SPACE)"
proof (induction n)
  case (Suc n)
  then show ?case by (auto simp: less_Suc_eq)
qed simp

text \<open>The drive's model and serial strings: their bytes swapped in pairs, cut after the last byte that
  is not a space, and terminated there.\<close>

lemma copy_swap_trim_result:
  assumes "copy_swap_trim dst src = Some (dst', n)"
  shows "n \<le> length src \<and> take n dst' = take n (swap_pairs src) \<and>
    (\<forall>j. n \<le> j \<and> j < length src \<longrightarrow> swap_pairs src ! j = SPACE) \<and>
    (0 < n \<longrightarrow> swap_pairs src ! (n - 1) \<noteq> SPACE \<and> dst' ! n = 0)"
proof -
  let ?c = "swap_pairs src @ drop (length src) dst"
  have n: "n = trimmed_length ?c (length src)" "length src \<le> length dst"
    "0 < n \<Longrightarrow> n < length dst \<and> dst' = ?c[n := 0]" "n = 0 \<Longrightarrow> dst' = ?c"
    using assms by (auto simp: copy_swap_trim_def Let_def split: if_splits)
  then have s: "n \<le> length src" "\<forall>j. n \<le> j \<and> j < length src \<longrightarrow> ?c ! j = SPACE"
      "0 < n \<longrightarrow> ?c ! (n - 1) \<noteq> SPACE"
    using trimmed_length_spec [of ?c "length src"] by auto
  show ?thesis
  proof (cases "n = 0")
    case True
    then show ?thesis using s by (simp add: nth_append)
  next
    case False
    then have "n - 1 < length src" using s(1) by linarith
    then have "?c ! (n - 1) = swap_pairs src ! (n - 1)" by (simp add: nth_append)
    then show ?thesis using s n(2,3) False by (simp add: nth_append)
  qed
qed

lemma copy_swap_trim_result_witness:
  "copy_swap_trim [9, 9, 9, 9, 9] [0x42, 0x41, 0x20, 0x43] = Some ([0x41, 0x42, 0x43, 0, 9], 3) \<and>
   take 3 [0x41, 0x42, 0x43, 0, 9] = take 3 (swap_pairs [0x42, 0x41, 0x20, 0x43])"
proof -
  have c: "copy_swap_trim [9, 9, 9, 9, 9] [0x42, 0x41, 0x20, 0x43] = Some ([0x41, 0x42, 0x43, 0, 9], 3)"
    by code_simp
  from copy_swap_trim_result [OF c] c show ?thesis by blast
qed

end
