(* ===== verification/Rc4.thy ===== *)
theory Rc4
  imports Xblast_Prelude "HOL-Library.Multiset"
begin

text \<open>
  lib/crypt/rc4.c: key schedule and stream of RC4. The state stays a permutation of the 256 bytes,
  so every index into it is in range, and encryption undoes itself because the key stream does
  not depend on the data. An empty key divides by zero in the code and is \<^verbatim>\<open>None\<close> here.
\<close>

record rc4_key =
  rc4_state :: "u8 list"
  rc4_x :: u8
  rc4_y :: u8

definition swap_byte :: "u8 \<Rightarrow> u8 \<Rightarrow> u8 list \<Rightarrow> u8 list" where
  "swap_byte i j st = st[unat i := st ! unat j, unat j := st ! unat i]"

definition rc4_schedule_step ::
  "u8 list \<Rightarrow> nat \<Rightarrow> u8 list \<times> u8 \<times> u8 \<Rightarrow> u8 list \<times> u8 \<times> u8" where
  "rc4_schedule_step key_data counter = (\<lambda>(state, index1, index2).
     let index2' = key_data ! unat index1 + state ! counter + index2
     in (swap_byte (word_of_nat counter) index2' state,
         word_of_nat ((unat index1 + 1) mod length key_data), index2'))"

definition rc4_prepare_key :: "u8 list \<Rightarrow> rc4_key option" where
  "rc4_prepare_key key_data =
    (if key_data = [] then None
     else let (state, _, _) = fold (rc4_schedule_step key_data) [0..<256]
                                (map word_of_nat [0..<256], 0, 0)
          in Some \<lparr>rc4_state = state, rc4_x = 0, rc4_y = 0\<rparr>)"

fun rc4_loop :: "u8 list \<Rightarrow> u8 list \<Rightarrow> u8 \<Rightarrow> u8 \<Rightarrow> u8 list \<times> u8 list \<times> u8 \<times> u8" where
  "rc4_loop [] state x y = ([], state, x, y)"
| "rc4_loop (b # bs) state x y =
    (let x' = x + 1;
         y' = state ! unat x' + y;
         state' = swap_byte x' y' state;
         xorIndex = state' ! unat x' + state' ! unat y';
         (out, final) = rc4_loop bs state' x' y'
     in ((b XOR state' ! unat xorIndex) # out, final))"

definition rc4_crypt :: "u8 list \<Rightarrow> rc4_key \<Rightarrow> u8 list \<times> rc4_key" where
  "rc4_crypt buffer key =
    (let (out, state, x, y) = rc4_loop buffer (rc4_state key) (rc4_x key) (rc4_y key)
     in (out, \<lparr>rc4_state = state, rc4_x = x, rc4_y = y\<rparr>))"

subsection \<open>Encryption undoes itself\<close>

lemma rc4_loop_twice:
  "rc4_loop (fst (rc4_loop bs st x y)) st x y = (bs, snd (rc4_loop bs st x y))"
  by (induction bs st x y rule: rc4_loop.induct) (simp_all add: Let_def split_beta xor.assoc)

lemma length_rc4_loop [simp]: "length (fst (rc4_loop bs st x y)) = length bs"
  by (induction bs st x y rule: rc4_loop.induct) (simp_all add: Let_def split_beta)

lemma length_rc4_crypt [simp]: "length (fst (rc4_crypt bs key)) = length bs"
  by (simp add: rc4_crypt_def split_beta)

lemma rc4_crypt_again:
  "rc4_crypt (fst (rc4_crypt bs key)) key = (bs, snd (rc4_crypt bs key))"
  by (simp add: rc4_crypt_def split_beta Let_def rc4_loop_twice)

text \<open>Decrypting with the key that encrypted gives the plain bytes back, and leaves the key in the
  same state as the encryption did.\<close>

lemma rc4_crypt_involution:
  "rc4_crypt (fst (rc4_crypt bs key)) key = (bs, snd (rc4_crypt bs key))"
  by (rule rc4_crypt_again)

subsection \<open>The state is a permutation\<close>

definition rc4_perm :: "u8 list \<Rightarrow> bool" where
  "rc4_perm st \<longleftrightarrow> mset st = mset (map word_of_nat [0..<256])"

lemma rc4_perm_length: "rc4_perm st \<Longrightarrow> length st = 256"
  unfolding rc4_perm_def by (drule mset_eq_length) simp

lemma rc4_perm_swap: "rc4_perm st \<Longrightarrow> rc4_perm (swap_byte i j st)"
proof -
  assume p: "rc4_perm st"
  have "unat i < length st" "unat j < length st"
    using unat_u8_less rc4_perm_length [OF p] by simp_all
  then show ?thesis using p mset_swap [of "unat j" st "unat i"]
    by (simp add: rc4_perm_def swap_byte_def)
qed

lemma rc4_perm_loop: "rc4_perm st \<Longrightarrow> rc4_perm (fst (snd (rc4_loop bs st x y)))"
  by (induction bs st x y rule: rc4_loop.induct) (simp_all add: Let_def split_beta rc4_perm_swap)

lemma rc4_perm_schedule:
  "rc4_perm (fst s) \<Longrightarrow> rc4_perm (fst (fold (rc4_schedule_step key) cs s))"
  by (induction cs arbitrary: s) (simp_all add: rc4_schedule_step_def Let_def split_beta rc4_perm_swap)

text \<open>After the key schedule, and after any number of bytes encrypted with it, the state array is a
  permutation of the 256 byte values.\<close>

lemma rc4_state_permutation:
  "rc4_prepare_key key_data = Some key \<Longrightarrow>
     rc4_perm (rc4_state key) \<and> rc4_perm (rc4_state (snd (rc4_crypt bs key)))"
proof -
  assume "rc4_prepare_key key_data = Some key"
  then have "rc4_state key = fst (fold (rc4_schedule_step key_data) [0..<256] (map word_of_nat [0..<256], 0, 0))"
    by (auto simp: rc4_prepare_key_def split_beta Let_def split: if_splits)
  then have "rc4_perm (rc4_state key)"
    using rc4_perm_schedule [of "(map word_of_nat [0..<256], 0, 0)" key_data "[0..<256]"]
    by (simp add: rc4_perm_def)
  then show ?thesis using rc4_perm_loop by (simp add: rc4_crypt_def split_beta Let_def)
qed

lemma rc4_state_permutation_witness:
  "\<exists>key. rc4_prepare_key [1, 2, 3] = Some key \<and> rc4_perm (rc4_state (snd (rc4_crypt [7, 8] key)))"
proof -
  obtain key where "rc4_prepare_key [1, 2, 3] = Some key"
    by (simp add: rc4_prepare_key_def split_beta Let_def)
  with rc4_state_permutation [OF this] show ?thesis by blast
qed

end
