(* ===== verification/BootEEPROM.thy ===== *)
theory BootEEPROM
  imports HddKey Rc4 HardwareIdentifier "HOL-Library.Monad_Syntax"
begin

text \<open>
  lib/eeprom/BootEEPROM.c: the console's 256-byte EEPROM. Its first 48 bytes are sealed with a keyed
  hash and RC4 under the secret of the console version; the rest carries two checksums. The
  packed structure is the list of its bytes, and a field is named by its offset. The EEPROM
  chip on the SMBus is a list of (address, byte) writes. The texts of the change list, which are
  only shown on screen, are left out.
\<close>

definition off_HDDKkey :: nat where "off_HDDKkey = 28"
definition off_XBERegion :: nat where "off_XBERegion = 44"
definition off_Checksum2 :: nat where "off_Checksum2 = 0x30"
definition off_SerialNumber :: nat where "off_SerialNumber = 0x34"
definition off_MACAddress :: nat where "off_MACAddress = 0x40"
definition off_VideoStandard :: nat where "off_VideoStandard = 0x58"
definition off_Checksum3 :: nat where "off_Checksum3 = 0x60"
definition off_TimeZoneBias :: nat where "off_TimeZoneBias = 0x64"
definition off_VideoFlags :: nat where "off_VideoFlags = 0x94"
definition off_DVDPlaybackKitZone :: nat where "off_DVDPlaybackKitZone = 0xBC"

lemmas eeprom_offsets =
  off_HDDKkey_def off_XBERegion_def off_Checksum2_def off_SerialNumber_def off_MACAddress_def
  off_VideoStandard_def off_Checksum3_def off_TimeZoneBias_def off_VideoFlags_def
  off_DVDPlaybackKitZone_def

definition EEPROM_EncryptInvalid :: int where "EEPROM_EncryptInvalid = 0"
definition EEPROM_EncryptV1_0 :: int where "EEPROM_EncryptV1_0 = 10"
definition EEPROM_EncryptV1_1 :: int where "EEPROM_EncryptV1_1 = 11"
definition EEPROM_EncryptV1_6 :: int where "EEPROM_EncryptV1_6 = 12"

definition EEPROM_XBERegionInvalid :: int where "EEPROM_XBERegionInvalid = 0"
definition EEPROM_XBERegionNorthAmerica :: int where "EEPROM_XBERegionNorthAmerica = 1"
definition EEPROM_XBERegionJapan :: int where "EEPROM_XBERegionJapan = 2"
definition EEPROM_XBERegionEuropeAustralia :: int where "EEPROM_XBERegionEuropeAustralia = 4"

definition EEPROM_VideoStandardNTSC_M :: u32 where "EEPROM_VideoStandardNTSC_M = 0x00400100"
definition EEPROM_VideoStandardNTSC_J :: u32 where "EEPROM_VideoStandardNTSC_J = 0x00400200"
definition EEPROM_VideoStandardPAL_I :: u32 where "EEPROM_VideoStandardPAL_I = 0x00800300"

definition EEPROM_VidScreenWidescreen :: u8 where "EEPROM_VidScreenWidescreen = 0x01"
definition EEPROM_VidScreenLetterbox :: u8 where "EEPROM_VidScreenLetterbox = 0x10"
definition EEPROM_VidResolutionEnable720p :: u8 where "EEPROM_VidResolutionEnable720p = 0x02"
definition EEPROM_VidResolutionEnable1080i :: u8 where "EEPROM_VidResolutionEnable1080i = 0x04"
definition EEPROM_VidResolutionEnable480p :: u8 where "EEPROM_VidResolutionEnable480p = 0x08"
definition EEPROM_DVDRegionAirlines :: u8 where "EEPROM_DVDRegionAirlines = 8"

lemmas eeprom_enums =
  EEPROM_EncryptInvalid_def EEPROM_EncryptV1_0_def EEPROM_EncryptV1_1_def EEPROM_EncryptV1_6_def
  EEPROM_XBERegionInvalid_def EEPROM_XBERegionNorthAmerica_def EEPROM_XBERegionJapan_def
  EEPROM_XBERegionEuropeAustralia_def

text \<open>Storing the bytes of a field.\<close>

definition put_bytes :: "nat \<Rightarrow> u8 list \<Rightarrow> u8 list \<Rightarrow> u8 list" where
  "put_bytes off bs e = take off e @ bs @ drop (off + length bs) e"

subsection \<open>The sealed section\<close>

definition hmac_bytes :: "SHA1Context \<Rightarrow> int \<Rightarrow> u8 list list \<Rightarrow> u8 list option" where
  "hmac_bytes ctx version buffers =
    (case HMAC_hdd_calculation ctx version buffers of Inl _ \<Rightarrow> None | Inr digest \<Rightarrow> Some digest)"

definition crypt_section :: "SHA1Context \<Rightarrow> int \<Rightarrow> u8 list \<Rightarrow> u8 list option" where
  "crypt_section ctx version e =
    do {
      baKeyHash \<leftarrow> hmac_bytes ctx version [take 20 e];
      key \<leftarrow> rc4_prepare_key baKeyHash;
      Some (take 20 e @ fst (rc4_crypt (chunk 20 28 e) key))
    }"

text \<open>One round of the loop of \<^verbatim>\<open>decryptEEPROMData\<close>: the local copy and whether its hash is confirmed.\<close>

definition decrypt_round :: "SHA1Context \<Rightarrow> u8 list \<Rightarrow> int \<Rightarrow> (bool \<times> u8 list) option" where
  "decrypt_round ctx e counter =
    do {
      local \<leftarrow> crypt_section ctx counter (take 0x30 e);
      baDataHashConfirm \<leftarrow> hmac_bytes ctx counter [chunk 20 8 local, chunk 28 20 local];
      Some (take 0x14 local = baDataHashConfirm, local)
    }"

fun decrypt_loop :: "SHA1Context \<Rightarrow> u8 list \<Rightarrow> int list \<Rightarrow> u8 list \<Rightarrow> (int \<times> u8 list) option" where
  "decrypt_loop ctx e [] local = Some (EEPROM_EncryptInvalid, local)"
| "decrypt_loop ctx e (counter # counters) local =
    do {
      (confirmed, local') \<leftarrow> decrypt_round ctx e counter;
      if confirmed then Some (counter, local') else decrypt_loop ctx e counters local'
    }"

definition decryptEEPROMData :: "SHA1Context \<Rightarrow> u8 list \<Rightarrow> (int \<times> u8 list) option" where
  "decryptEEPROMData ctx e =
    decrypt_loop ctx e [EEPROM_EncryptV1_0, EEPROM_EncryptV1_1, EEPROM_EncryptV1_6] []"

definition encryptEEPROMData :: "SHA1Context \<Rightarrow> u8 list \<Rightarrow> int \<Rightarrow> u8 list \<Rightarrow> u8 list option" where
  "encryptEEPROMData ctx decryptedInput targetVersion target =
    do {
      baDataHashConfirm \<leftarrow> hmac_bytes ctx targetVersion
        [chunk 20 8 decryptedInput, chunk 28 20 decryptedInput];
      sealed \<leftarrow> crypt_section ctx targetVersion (baDataHashConfirm @ drop 20 (take 0x30 decryptedInput));
      Some (put_bytes 0 sealed target)
    }"

definition BootHddKeyGenerateEepromKeyData :: "SHA1Context \<Rightarrow> u8 list \<Rightarrow> (int \<times> u8 list) option" where
  "BootHddKeyGenerateEepromKeyData ctx e =
    do { (version, local) \<leftarrow> decryptEEPROMData ctx e; Some (version, chunk 28 16 local) }"

definition region_value :: "int \<Rightarrow> u8 list \<Rightarrow> int" where
  "region_value version local =
    (if version > EEPROM_EncryptV1_6 then EEPROM_XBERegionInvalid
     else let gameRegion = uint (bytes_u32 (chunk (28 + 16) 4 local))
          in if gameRegion = EEPROM_XBERegionJapan \<or> gameRegion = EEPROM_XBERegionEuropeAustralia \<or>
                gameRegion = EEPROM_XBERegionNorthAmerica
             then gameRegion else EEPROM_XBERegionInvalid)"

definition getGameRegionValue :: "SHA1Context \<Rightarrow> u8 list \<Rightarrow> int option" where
  "getGameRegionValue ctx e =
    do { (version, local) \<leftarrow> decryptEEPROMData ctx e; Some (region_value version local) }"

definition setGameRegionValue :: "SHA1Context \<Rightarrow> u8 \<Rightarrow> u8 list \<Rightarrow> (int \<times> u8 list) option" where
  "setGameRegionValue ctx newRegion e =
    do {
      (version, local) \<leftarrow> decryptEEPROMData ctx e;
      if version > EEPROM_EncryptV1_6 then Some (-1, e)
      else do {
        e' \<leftarrow> encryptEEPROMData ctx (put_bytes (28 + 16) (u32_bytes (ucast newRegion)) local) version e;
        Some (uint newRegion, e')
      }
    }"

definition EepromSanityCheck :: "SHA1Context \<Rightarrow> u8 list \<Rightarrow> int option" where
  "EepromSanityCheck ctx e =
    do {
      (version, local) \<leftarrow> decryptEEPROMData ctx e;
      Some (if version \<ge> EEPROM_EncryptV1_0 \<and> version \<le> EEPROM_EncryptV1_6 then
              let region = uint (bytes_u32 (chunk off_XBERegion 4 local));
                  standard = bytes_u32 (chunk off_VideoStandard 4 e)
              in if region \<noteq> EEPROM_XBERegionEuropeAustralia \<and> region \<noteq> EEPROM_XBERegionJapan \<and>
                    region \<noteq> EEPROM_XBERegionNorthAmerica then EEPROM_EncryptInvalid
                 else if standard \<noteq> EEPROM_VideoStandardNTSC_J \<and>
                         standard \<noteq> EEPROM_VideoStandardNTSC_M \<and>
                         standard \<noteq> EEPROM_VideoStandardPAL_I then EEPROM_EncryptInvalid
                 else if EEPROM_VidResolutionEnable720p OR EEPROM_VidResolutionEnable1080i OR
                         EEPROM_VidResolutionEnable480p OR EEPROM_VidScreenWidescreen OR
                         EEPROM_VidScreenLetterbox \<le> e ! (off_VideoFlags + 2)
                 then EEPROM_EncryptInvalid
                 else if chunk (off_DVDPlaybackKitZone + 1) 3 e \<noteq> [0, 0, 0] then EEPROM_EncryptInvalid
                 else if e ! off_DVDPlaybackKitZone > EEPROM_DVDRegionAirlines
                 then EEPROM_EncryptInvalid
                 else version
            else EEPROM_EncryptInvalid)
    }"

subsection \<open>Checksums and plain fields\<close>

definition EepromCRC :: "u8 list \<Rightarrow> u8 list" where
  "EepromCRC data =
    (let dataLen = length data;
         CRC_Data = [last data] @ butlast data @ replicate 4 0
     in map (\<lambda>pos. ucast (drop_bit 8
          (foldl (\<lambda>acc l. acc - bytes_u16 (CRC_Data ! l) (CRC_Data ! (l + 1))) (0xFFFF :: u16)
             (filter (\<lambda>l. l mod 4 = pos) [0..<dataLen])))) [0..<4])"

definition EepromSetVideoStandard :: "u32 \<Rightarrow> u8 list \<Rightarrow> u8 list" where
  "EepromSetVideoStandard standard e =
    (let e1 = put_bytes off_VideoStandard (u32_bytes standard) e
     in put_bytes off_Checksum2 (EepromCRC (chunk off_SerialNumber 0x28 e1)) e1)"

definition EepromSetVideoFormat :: "u8 \<Rightarrow> u8 list \<Rightarrow> u8 list" where
  "EepromSetVideoFormat format e =
    (let flags = (e ! (off_VideoFlags + 2) AND
                    NOT (EEPROM_VidScreenWidescreen OR EEPROM_VidScreenLetterbox)) OR format;
         e1 = e[off_VideoFlags + 2 := flags]
     in put_bytes off_Checksum3 (EepromCRC (chunk off_TimeZoneBias 0x5b e1)) e1)"

subsection \<open>Reading and writing the chip\<close>

definition BootEepromReadEntireEEPROM :: "(nat \<Rightarrow> u8) \<Rightarrow> u8 list" where
  "BootEepromReadEntireEEPROM chip = map chip [0..<256]"

definition BootEepromWriteEntireEEPROM :: "u8 list \<Rightarrow> (nat \<times> u8) list" where
  "BootEepromWriteEntireEEPROM e = map (\<lambda>i. (i, e ! i)) [0..<256]"

definition BootEepromCompareAndWriteEEPROM :: "u8 list \<Rightarrow> u8 list \<Rightarrow> (nat \<times> u8) list" where
  "BootEepromCompareAndWriteEEPROM e realeeprom =
    concat (map (\<lambda>i. if e ! i \<noteq> realeeprom ! i then [(i, e ! i)] else []) [0..<256])"

definition assertWriteEEPROM :: "u8 list \<Rightarrow> u8 list \<Rightarrow> (nat \<times> u8) list" where
  "assertWriteEEPROM e origEeprom = BootEepromCompareAndWriteEEPROM e origEeprom"

datatype recovery_image = EEPROMimg10 | EEPROMimg11 | EEPROMimg16

definition getRecoveryImage :: "XboxMotherboardRevision \<Rightarrow> recovery_image option" where
  "getRecoveryImage revision =
    (case revision of
       XboxMotherboardRevision_1_0 \<Rightarrow> Some EEPROMimg10
     | XboxMotherboardRevision_1_1 \<Rightarrow> Some EEPROMimg11
     | XboxMotherboardRevision_1_2 \<Rightarrow> Some EEPROMimg11
     | XboxMotherboardRevision_1_4 \<Rightarrow> Some EEPROMimg11
     | XboxMotherboardRevision_1_6 \<Rightarrow> Some EEPROMimg16
     | _ \<Rightarrow> None)"

subsection \<open>The list of changes\<close>

datatype EEPROMModItem =
    EEPROMModItem_HDDKkey | EEPROMModItem_XBERegion | EEPROMModItem_SerialNumber
  | EEPROMModItem_MACAddress | EEPROMModItem_VideoStandard | EEPROMModItem_VideoFlags_Format
  | EEPROMModItem_VideoFlags_480p | EEPROMModItem_VideoFlags_720p | EEPROMModItem_VideoFlags_1080i
  | EEPROMModItem_DVDPlaybackKitZone

record EEPROMChangeList =
  changeCount :: u8
  changeEntries :: "EEPROMModItem list"

definition eepromChangeTrackerInit :: EEPROMChangeList where
  "eepromChangeTrackerInit = \<lparr>changeCount = 0, changeEntries = []\<rparr>"

definition cleanEEPROMSettingsChangeListStruct :: "EEPROMChangeList \<Rightarrow> EEPROMChangeList" where
  "cleanEEPROMSettingsChangeListStruct list = list\<lparr>changeCount := 0, changeEntries := []\<rparr>"

definition putNewChangeInList :: "EEPROMModItem \<Rightarrow> EEPROMChangeList \<Rightarrow> EEPROMChangeList" where
  "putNewChangeInList change list =
    (if changeEntries list = [] then list\<lparr>changeEntries := [change]\<rparr>
     else list\<lparr>changeCount := changeCount list + 1, changeEntries := changeEntries list @ [change]\<rparr>)"

definition when_item :: "bool \<Rightarrow> EEPROMModItem \<Rightarrow> EEPROMModItem list" where
  "when_item c item = (if c then [item] else [])"

text \<open>The items that have changed, in the order in which they are found.\<close>

definition sealed_changes :: "SHA1Context \<Rightarrow> u8 list \<Rightarrow> u8 list \<Rightarrow> EEPROMModItem list option" where
  "sealed_changes ctx e orig =
    (if take 20 orig \<noteq> take 20 e
     then do {
       (_, origHDDKey) \<leftarrow> BootHddKeyGenerateEepromKeyData ctx orig;
       (_, HDDKey) \<leftarrow> BootHddKeyGenerateEepromKeyData ctx e;
       origGameRegion \<leftarrow> getGameRegionValue ctx orig;
       gameRegion \<leftarrow> getGameRegionValue ctx e;
       Some (when_item (origHDDKey \<noteq> HDDKey) EEPROMModItem_HDDKkey @
             when_item (origGameRegion \<noteq> gameRegion) EEPROMModItem_XBERegion)
     }
     else Some [])"

definition factory_changes :: "u8 list \<Rightarrow> u8 list \<Rightarrow> EEPROMModItem list" where
  "factory_changes e orig =
    (if chunk off_Checksum2 4 e \<noteq> chunk off_Checksum2 4 orig
     then when_item (chunk off_SerialNumber 12 orig \<noteq> chunk off_SerialNumber 12 e) EEPROMModItem_SerialNumber @
          when_item (chunk off_MACAddress 6 orig \<noteq> chunk off_MACAddress 6 e) EEPROMModItem_MACAddress @
          when_item (chunk off_VideoStandard 4 orig \<noteq> chunk off_VideoStandard 4 e) EEPROMModItem_VideoStandard
     else [])"

definition user_reset :: "u8 list \<Rightarrow> u8 list \<Rightarrow> bool" where
  "user_reset e orig \<longleftrightarrow> chunk off_Checksum3 4 e = replicate 4 0xFF \<and>
     chunk off_Checksum3 4 orig \<noteq> replicate 4 0xFF"

definition flag_changed :: "u8 \<Rightarrow> u8 list \<Rightarrow> u8 list \<Rightarrow> bool" where
  "flag_changed m e orig \<longleftrightarrow>
     orig ! (off_VideoFlags + 2) AND m \<noteq> e ! (off_VideoFlags + 2) AND m"

definition user_changes :: "u8 list \<Rightarrow> u8 list \<Rightarrow> EEPROMModItem list" where
  "user_changes e orig =
    (if chunk off_Checksum3 4 e \<noteq> chunk off_Checksum3 4 orig \<and> \<not> user_reset e orig
     then when_item (flag_changed 0x11 e orig) EEPROMModItem_VideoFlags_Format @
          when_item (flag_changed EEPROM_VidResolutionEnable480p e orig) EEPROMModItem_VideoFlags_480p @
          when_item (flag_changed EEPROM_VidResolutionEnable720p e orig) EEPROMModItem_VideoFlags_720p @
          when_item (flag_changed EEPROM_VidResolutionEnable1080i e orig) EEPROMModItem_VideoFlags_1080i @
          when_item (orig ! off_DVDPlaybackKitZone \<noteq> e ! off_DVDPlaybackKitZone)
            EEPROMModItem_DVDPlaybackKitZone
     else [])"

definition generateEEPROMChangeList ::
  "SHA1Context \<Rightarrow> bool \<Rightarrow> u8 list \<Rightarrow> u8 list \<Rightarrow> EEPROMChangeList \<Rightarrow> (u8 \<times> EEPROMChangeList) option" where
  "generateEEPROMChangeList ctx genStrings e orig list =
    do {
      sealed \<leftarrow> sealed_changes ctx e orig;
      let items = sealed @ factory_changes e orig @ user_changes e orig;
      let reset = (if chunk off_Checksum3 4 e \<noteq> chunk off_Checksum3 4 orig \<and> user_reset e orig
                   then 1 else 0);
      Some (word_of_nat (length items) + reset,
            if genStrings then fold putNewChangeInList items list else list)
    }"

subsection \<open>Sealing and opening\<close>

lemma length_put_bytes [simp]:
  "off + length bs \<le> length e \<Longrightarrow> length (put_bytes off bs e) = length e"
  by (simp add: put_bytes_def)

lemma chunk_put_bytes:
  "off + length bs \<le> length e \<Longrightarrow> chunk off (length bs) (put_bytes off bs e) = bs"
  by (simp add: put_bytes_def chunk_def)

lemma length_hmac_hdd [simp]: "length (hmac_hdd v m) = 20"
  by (simp add: hmac_hdd_def)

lemma hmac_bytes_eq:
  "length (Message_Block ctx) = 64 \<Longrightarrow> length (concat bufs) < 2 ^ 60 \<Longrightarrow>
     hmac_bytes ctx v bufs = Some (hmac_hdd v (concat bufs))"
  by (simp add: hmac_bytes_def HMAC_hdd_eq)

lemma rc4_prepare_key_some: "key_data \<noteq> [] \<Longrightarrow> \<exists>key. rc4_prepare_key key_data = Some key"
  by (simp add: rc4_prepare_key_def split_beta Let_def)

lemma crypt_section_some:
  assumes "length (Message_Block ctx) = 64" "length e = 48"
  obtains key where "rc4_prepare_key (hmac_hdd v (take 20 e)) = Some key"
    "crypt_section ctx v e = Some (take 20 e @ fst (rc4_crypt (drop 20 e) key))"
proof -
  have "hmac_hdd v (take 20 e) \<noteq> []" by (metis length_hmac_hdd list.size(3) zero_neq_numeral)
  then obtain key where k: "rc4_prepare_key (hmac_hdd v (take 20 e)) = Some key"
    using rc4_prepare_key_some by blast
  have "chunk 20 28 e = drop 20 e" using assms(2) by (simp add: chunk_def)
  then show thesis
    using that [OF k] k assms hmac_bytes_eq [OF assms(1), of "[take 20 e]" v]
    by (simp add: crypt_section_def)
qed

lemma payload_chunks: "length e = 48 \<Longrightarrow> chunk 20 8 e @ chunk 28 20 e = drop 20 e"
  using append_take_drop_id [of 8 "drop 20 e"] by (simp add: chunk_def)

lemma decrypt_round_sealed:
  assumes ctx: "length (Message_Block ctx) = 64" and p: "length p = 48"
    and e: "encryptEEPROMData ctx p v target = Some e" and t: "48 \<le> length target"
  shows "decrypt_round ctx e v = Some (True, hmac_hdd v (drop 20 p) @ drop 20 p)"
    and "length e = length target" and "drop 48 e = drop 48 target"
proof -
  let ?h = "hmac_hdd v (drop 20 p)"
  have confirm: "hmac_bytes ctx v [chunk 20 8 q, chunk 28 20 q] = Some (hmac_hdd v (drop 20 q))"
    if "length q = 48" for q
    using hmac_bytes_eq [OF ctx, of "[chunk 20 8 q, chunk 28 20 q]" v] payload_chunks [OF that] that
    by simp
  obtain key where k: "rc4_prepare_key (hmac_hdd v ?h) = Some key"
      "crypt_section ctx v (?h @ drop 20 p) = Some (?h @ fst (rc4_crypt (drop 20 p) key))"
    using crypt_section_some [OF ctx, of "?h @ drop 20 p" v] p by auto
  let ?s = "?h @ fst (rc4_crypt (drop 20 p) key)"
  have e': "e = ?s @ drop 48 target"
    using e confirm [OF p] k(2) p by (simp add: encryptEEPROMData_def put_bytes_def)
  then have t48: "take 48 e = ?s" using p by simp
  obtain key' where "rc4_prepare_key (hmac_hdd v ?h) = Some key'"
      "crypt_section ctx v ?s = Some (?h @ fst (rc4_crypt (fst (rc4_crypt (drop 20 p) key)) key'))"
    using crypt_section_some [OF ctx, of ?s v] p by auto
  then have "crypt_section ctx v ?s = Some (?h @ drop 20 p)"
    using k(1) by (simp add: rc4_crypt_again)
  then show "decrypt_round ctx e v = Some (True, ?h @ drop 20 p)"
    using confirm [of "?h @ drop 20 p"] p by (simp add: decrypt_round_def t48)
  show "length e = length target" "drop 48 e = drop 48 target" using e' p t by simp_all
qed

lemma encrypt_some:
  assumes "length (Message_Block ctx) = 64" "length p = 48"
  shows "\<exists>e. encryptEEPROMData ctx p v target = Some e"
proof -
  have "hmac_bytes ctx v [chunk 20 8 p, chunk 28 20 p] = Some (hmac_hdd v (drop 20 p))"
    using hmac_bytes_eq [OF assms(1), of "[chunk 20 8 p, chunk 28 20 p]" v] payload_chunks [OF assms(2)]
      assms(2) by simp
  moreover have "length (hmac_hdd v (drop 20 p) @ drop 20 p) = 48" using assms(2) by simp
  then obtain key where "crypt_section ctx v (hmac_hdd v (drop 20 p) @ drop 20 p) =
      Some (take 20 (hmac_hdd v (drop 20 p) @ drop 20 p) @
        fst (rc4_crypt (drop 20 (hmac_hdd v (drop 20 p) @ drop 20 p)) key))"
    by (rule crypt_section_some [OF assms(1)])
  ultimately show ?thesis using assms(2) by (simp add: encryptEEPROMData_def)
qed

text \<open>No earlier version of the console takes the sealed section for its own.\<close>

definition unambiguous :: "SHA1Context \<Rightarrow> u8 list \<Rightarrow> int \<Rightarrow> bool" where
  "unambiguous ctx e v \<longleftrightarrow> (\<forall>w \<in> {EEPROM_EncryptV1_0..<v}. \<exists>local. decrypt_round ctx e w = Some (False, local))"

lemma decrypt_first_match:
  assumes "v \<in> {EEPROM_EncryptV1_0, EEPROM_EncryptV1_1, EEPROM_EncryptV1_6}"
    and "unambiguous ctx e v" and "decrypt_round ctx e v = Some (True, local)"
  shows "decryptEEPROMData ctx e = Some (v, local)"
proof -
  have w: "\<exists>l. decrypt_round ctx e w = Some (False, l)" if "10 \<le> w" "w < v" for w
    using assms(2) that by (auto simp: unambiguous_def eeprom_enums)
  consider "v = 10" | "v = 11" | "v = 12" using assms(1) by (auto simp: eeprom_enums)
  then show ?thesis
  proof cases
    case 1
    then show ?thesis using assms(3) by (simp add: decryptEEPROMData_def eeprom_enums)
  next
    case 2
    then show ?thesis using assms(3) w [of 10] by (auto simp: decryptEEPROMData_def eeprom_enums)
  next
    case 3
    then show ?thesis using assms(3) w [of 10] w [of 11] by (auto simp: decryptEEPROMData_def eeprom_enums)
  qed
qed

lemma decrypt_of_encrypt:
  assumes "length (Message_Block ctx) = 64" "length p = 48" "48 \<le> length target"
    and "v \<in> {EEPROM_EncryptV1_0, EEPROM_EncryptV1_1, EEPROM_EncryptV1_6}"
    and "encryptEEPROMData ctx p v target = Some e" "unambiguous ctx e v"
  shows "decryptEEPROMData ctx e = Some (v, hmac_hdd v (drop 20 p) @ drop 20 p)"
  by (rule decrypt_first_match [OF assms(4,6) decrypt_round_sealed(1) [OF assms(1,2,5,3)]])

text \<open>C9: Opening what was sealed. The section that \<^verbatim>\<open>encryptEEPROMData\<close> writes is recognised as one of
  its console version, and \<^verbatim>\<open>decryptEEPROMData\<close> gives back the confounder, the hard disk key and
  the region; the rest of the EEPROM is untouched.\<close>

theorem eeprom_seal_roundtrip:
  assumes "length (Message_Block ctx) = 64" and "length p = 48" and "length target = 256"
    and "v \<in> {EEPROM_EncryptV1_0, EEPROM_EncryptV1_1, EEPROM_EncryptV1_6}"
    and "encryptEEPROMData ctx p v target = Some e" and "unambiguous ctx e v"
  shows "\<exists>h. decryptEEPROMData ctx e = Some (v, h @ drop 20 p) \<and> length h = 20 \<and>
    length e = 256 \<and> drop 48 e = drop 48 target"
proof -
  have t: "48 \<le> length target" using assms(3) by simp
  show ?thesis
    using decrypt_of_encrypt [OF assms(1,2) t assms(4-6)] decrypt_round_sealed(2,3) [OF assms(1,2,5) t]
      assms(3) by (intro exI [of _ "hmac_hdd v (drop 20 p)"]) simp
qed

theorem eeprom_seal_roundtrip_witness:
  "\<exists>e h. encryptEEPROMData sha1_ctx0 (replicate 48 7) 10 (replicate 256 0) = Some e \<and>
     decryptEEPROMData sha1_ctx0 e = Some (10, h @ replicate 28 7)"
proof -
  have c: "length (Message_Block sha1_ctx0) = 64" by (simp add: sha1_ctx0_def)
  obtain e where e: "encryptEEPROMData sha1_ctx0 (replicate 48 7) 10 (replicate 256 0) = Some e"
    using encrypt_some [OF c, of "replicate 48 7"] by auto
  have "unambiguous sha1_ctx0 e 10" by (simp add: unambiguous_def eeprom_enums)
  from eeprom_seal_roundtrip [OF c _ _ _ e this] e show ?thesis by (auto simp: eeprom_enums)
qed

subsection \<open>Changing the region\<close>

lemma decrypt_round_length:
  assumes "length (Message_Block ctx) = 64" "length e = 256"
  shows "\<exists>b local. decrypt_round ctx e v = Some (b, local) \<and> length local = 48"
proof -
  have l: "length (take 48 e) = 48" using assms(2) by simp
  obtain key where k: "crypt_section ctx v (take 48 e) =
      Some (take 20 (take 48 e) @ fst (rc4_crypt (drop 20 (take 48 e)) key))"
    by (rule crypt_section_some [OF assms(1) l])
  let ?l = "take 20 (take 48 e) @ fst (rc4_crypt (drop 20 (take 48 e)) key)"
  have ll: "length ?l = 48" using assms(2) by simp
  have "hmac_bytes ctx v [chunk 20 8 ?l, chunk 28 20 ?l] = Some (hmac_hdd v (drop 20 ?l))"
    using hmac_bytes_eq [OF assms(1), of "[chunk 20 8 ?l, chunk 28 20 ?l]" v] payload_chunks [OF ll] ll
    by simp
  then have "decrypt_round ctx e v = Some (take 20 ?l = hmac_hdd v (drop 20 ?l), ?l)"
    by (simp add: decrypt_round_def k)
  then show ?thesis using ll by blast
qed

lemma decrypt_total:
  assumes "length (Message_Block ctx) = 64" "length e = 256"
  shows "\<exists>v local. decryptEEPROMData ctx e = Some (v, local) \<and> length local = 48 \<and> v \<in> {0, 10, 11, 12}"
proof -
  obtain b1 l1 where 1: "decrypt_round ctx e 10 = Some (b1, l1)" "length l1 = 48"
    using decrypt_round_length [OF assms] by blast
  obtain b2 l2 where 2: "decrypt_round ctx e 11 = Some (b2, l2)" "length l2 = 48"
    using decrypt_round_length [OF assms] by blast
  obtain b3 l3 where 3: "decrypt_round ctx e 12 = Some (b3, l3)" "length l3 = 48"
    using decrypt_round_length [OF assms] by blast
  have "decryptEEPROMData ctx e = Some (if b1 then (10, l1) else if b2 then (11, l2)
      else if b3 then (12, l3) else (0, l3))"
    using 1(1) 2(1) 3(1) by (simp add: decryptEEPROMData_def eeprom_enums)
  then show ?thesis using 1(2) 2(2) 3(2) by (cases b1; cases b2; cases b3) auto
qed

lemma region_put:
  fixes newRegion :: u8
  assumes "length local = 48" "length h = 20"
  shows "length (put_bytes 44 (u32_bytes (ucast newRegion)) local) = 48"
    "chunk 28 16 (h @ drop 20 (put_bytes 44 (u32_bytes (ucast newRegion)) local)) = chunk 28 16 local"
    "chunk 44 4 (h @ drop 20 (put_bytes 44 (u32_bytes (ucast newRegion)) local)) = u32_bytes (ucast newRegion)"
  using assms by (simp_all add: put_bytes_def chunk_def drop_take)

lemma region_value_of_bytes:
  "newRegion \<in> {1, 2, 4} \<Longrightarrow> v \<le> EEPROM_EncryptV1_6 \<Longrightarrow> chunk 44 4 local = u32_bytes (ucast (newRegion :: u8)) \<Longrightarrow>
     region_value v local = uint newRegion"
  by (auto simp: region_value_def eeprom_enums)

lemma setGameRegion_seals:
  assumes "length (Message_Block ctx) = 64" "length e = 256"
  shows "\<exists>e'. setGameRegionValue ctx newRegion e = Some (uint newRegion, e')"
proof -
  obtain v local where d: "decryptEEPROMData ctx e = Some (v, local)" "length local = 48" "v \<in> {0, 10, 11, 12}"
    using decrypt_total [OF assms] by blast
  have "\<exists>e'. encryptEEPROMData ctx (put_bytes 44 (u32_bytes (ucast newRegion)) local) v e = Some e'"
    using d(2) by (intro encrypt_some [OF assms(1)]) simp
  then show ?thesis using d by (auto simp: setGameRegionValue_def eeprom_enums)
qed

text \<open>C10: Changing the game region of an EEPROM that could be opened. The new region is read back, the
  hard disk key and the console version stay, and nothing outside the sealed section changes.\<close>

theorem setGameRegionValue_effect:
  assumes "length (Message_Block ctx) = 64" and "length e = 256"
    and "decryptEEPROMData ctx e = Some (v, local)" and "v \<noteq> EEPROM_EncryptInvalid"
    and "newRegion \<in> {1, 2, 4}" and "setGameRegionValue ctx newRegion e = Some (r, e')"
    and "unambiguous ctx e' v"
  shows "r = uint newRegion \<and> getGameRegionValue ctx e' = Some (uint newRegion) \<and>
    BootHddKeyGenerateEepromKeyData ctx e' = BootHddKeyGenerateEepromKeyData ctx e \<and>
    drop 48 e' = drop 48 e"
proof -
  have v: "v \<in> {10, 11, 12}" "length local = 48"
    using decrypt_total [OF assms(1,2)] assms(3,4) by (auto simp: eeprom_enums)
  let ?p = "put_bytes 44 (u32_bytes (ucast newRegion)) local"
  have enc: "encryptEEPROMData ctx ?p v e = Some e'" "r = uint newRegion"
    using assms(3,6) v(1) by (auto simp: setGameRegionValue_def eeprom_enums bind_eq_Some_conv)
  let ?h = "hmac_hdd v (drop 20 ?p)"
  note put = region_put [OF v(2) length_hmac_hdd]
  have "decryptEEPROMData ctx e' = Some (v, ?h @ drop 20 ?p)"
    using decrypt_of_encrypt [OF assms(1) put(1) _ _ enc(1) assms(7)] v(1) assms(2)
    by (auto simp: eeprom_enums)
  moreover have "region_value v (?h @ drop 20 ?p) = uint newRegion"
    using assms(5) v(1) put(3) by (intro region_value_of_bytes) (auto simp: eeprom_enums)
  moreover have "drop 48 e' = drop 48 e"
    using decrypt_round_sealed(3) [OF assms(1) put(1) enc(1)] assms(2) by simp
  ultimately show ?thesis
    using enc(2) assms(3) put(2) by (simp add: getGameRegionValue_def BootHddKeyGenerateEepromKeyData_def)
qed

theorem setGameRegionValue_effect_witness:
  "\<exists>e r e'. decryptEEPROMData sha1_ctx0 e \<noteq> None \<and> setGameRegionValue sha1_ctx0 4 e = Some (r, e') \<and>
     getGameRegionValue sha1_ctx0 e' = Some (uint (4 :: u8))"
proof -
  have c: "length (Message_Block sha1_ctx0) = 64" by (simp add: sha1_ctx0_def)
  obtain e where e: "encryptEEPROMData sha1_ctx0 (replicate 48 7) 10 (replicate 256 0) = Some e"
    using encrypt_some [OF c, of "replicate 48 7"] by auto
  have u: "unambiguous sha1_ctx0 x 10" for x by (simp add: unambiguous_def eeprom_enums)
  have d: "decryptEEPROMData sha1_ctx0 e = Some (10, hmac_hdd 10 (replicate 28 7) @ replicate 28 7)"
    using decrypt_of_encrypt [OF c _ _ _ e u] by (simp add: eeprom_enums)
  have l: "length e = 256" using decrypt_round_sealed(2) [OF c _ e] by simp
  obtain e' where s: "setGameRegionValue sha1_ctx0 4 e = Some (uint (4 :: u8), e')"
    using setGameRegion_seals [OF c l] by blast
  from setGameRegionValue_effect [OF c l d _ _ s u] have "getGameRegionValue sha1_ctx0 e' = Some (uint (4 :: u8))"
    by (simp add: eeprom_enums)
  then show ?thesis using d s by blast
qed

text \<open>\<^verbatim>\<open>setGameRegionValue\<close> never reports an error. In particular it does not for an EEPROM that no
  console version could open: the test \<^verbatim>\<open>version > EEPROM_EncryptV1_6\<close> misses the value 0 of a
  failed decryption, and the garbage is sealed again and written.\<close>

lemma setGameRegionValue_no_error:
  assumes "length (Message_Block ctx) = 64" and "length e = 256"
  shows "\<exists>e'. setGameRegionValue ctx newRegion e = Some (uint newRegion, e')"
  by (rule setGameRegion_seals [OF assms])

lemma setGameRegionValue_no_error_witness:
  "\<exists>e'. setGameRegionValue sha1_ctx0 4 (replicate 256 0) = Some (uint (4 :: u8), e')"
  by (rule setGameRegionValue_no_error) (simp_all add: sha1_ctx0_def)

subsection \<open>Writing back\<close>

definition smbus_write :: "nat \<times> u8 \<Rightarrow> (nat \<Rightarrow> u8) \<Rightarrow> nat \<Rightarrow> u8" where
  "smbus_write w chip = chip(fst w := snd w)"

lemma smbus_writes:
  "fold smbus_write (concat (map (\<lambda>i. if P i then [(i, f i)] else []) [0..<n])) chip =
     (\<lambda>i. if i < n \<and> P i then f i else chip i)"
  by (induction n) (auto simp: smbus_write_def fun_eq_iff less_Suc_eq)

text \<open>C14: Writing back only the bytes that differ from the EEPROM as it was read at boot leaves the chip
  with the edited contents, and every byte written does differ.\<close>

theorem assertWriteEEPROM_writes_back:
  "BootEepromReadEntireEEPROM (fold smbus_write
      (assertWriteEEPROM e (BootEepromReadEntireEEPROM chip)) chip) = map (\<lambda>i. e ! i) [0..<256] \<and>
   list_all (\<lambda>w. chip (fst w) \<noteq> snd w) (assertWriteEEPROM e (BootEepromReadEntireEEPROM chip))"
proof -
  have "assertWriteEEPROM e (BootEepromReadEntireEEPROM chip) =
      concat (map (\<lambda>i. if e ! i \<noteq> chip i then [(i, e ! i)] else []) [0..<256])"
    by (auto simp: assertWriteEEPROM_def BootEepromCompareAndWriteEEPROM_def
        BootEepromReadEntireEEPROM_def intro!: arg_cong [of _ _ concat] map_cong)
  then show ?thesis
    by (auto simp: smbus_writes BootEepromReadEntireEEPROM_def list_all_iff split: if_splits)
qed

text \<open>The first entry is not counted.\<close>

lemma put_changes:
  "changeEntries list \<noteq> [] \<Longrightarrow>
     fold putNewChangeInList items list =
       list\<lparr>changeCount := changeCount list + word_of_nat (length items),
            changeEntries := changeEntries list @ items\<rparr>"
  by (induction items arbitrary: list) (simp_all add: putNewChangeInList_def)

lemma changes_bound:
  assumes "sealed_changes ctx e orig = Some sealed"
  shows "length (sealed @ factory_changes e orig @ user_changes e orig) \<le> 10"
proof -
  have "length sealed \<le> 2"
    using assms by (auto simp: sealed_changes_def when_item_def bind_eq_Some_conv split: if_splits)
  moreover have "length (factory_changes e orig) \<le> 3"
    unfolding factory_changes_def by (simp add: when_item_def)
  moreover have "length (user_changes e orig) \<le> 5"
    unfolding user_changes_def by (simp add: when_item_def)
  ultimately show ?thesis by simp
qed

text \<open>C15: When the change list is generated into an empty list, and the user section is not being reset
  (which is counted but has no entry), the returned count is the number of entries. The \<^verbatim>\<open>changeCount\<close> kept in the
  list is one less than that number as soon as there is an entry, and 0 when there is none: the first entry is not
  counted.\<close>

theorem changeCount_one_less:
  assumes "generateEEPROMChangeList ctx True e orig eepromChangeTrackerInit = Some (n, list)"
    and "\<not> user_reset e orig"
  shows "unat n = length (changeEntries list) \<and>
    (changeEntries list \<noteq> [] \<longrightarrow> unat (changeCount list) + 1 = length (changeEntries list)) \<and>
    (changeEntries list = [] \<longrightarrow> changeCount list = 0)"
proof -
  obtain sealed where s: "sealed_changes ctx e orig = Some sealed"
    using assms(1) by (auto simp: generateEEPROMChangeList_def bind_eq_Some_conv)
  define items where "items = sealed @ factory_changes e orig @ user_changes e orig"
  have n: "n = word_of_nat (length items)" "list = fold putNewChangeInList items eepromChangeTrackerInit"
    using assms s by (auto simp: generateEEPROMChangeList_def items_def)
  have b: "length items \<le> 10" unfolding items_def by (rule changes_bound [OF s])
  have "changeEntries list = items \<and> changeCount list = word_of_nat (length items - 1)"
    unfolding n(2) by (cases items) (simp_all add: put_changes putNewChangeInList_def eepromChangeTrackerInit_def)
  moreover have "unat (word_of_nat k :: u8) = k" if "k \<le> 10" for k
    using that by (simp add: unsigned_of_nat take_bit_nat_eq_self)
  ultimately show ?thesis using b unfolding n(1) by (cases "items = []") simp_all
qed

theorem changeCount_one_less_witness:
  "\<exists>n list. generateEEPROMChangeList sha1_ctx0 True ((replicate 256 0)[0x30 := 1, 0x40 := 5])
      (replicate 256 0) eepromChangeTrackerInit = Some (n, list) \<and>
    changeEntries list = [EEPROMModItem_MACAddress] \<and> unat n = 1 \<and> unat (changeCount list) = 0"
proof -
  let ?e = "(replicate 256 0)[0x30 := 1, 0x40 := 5]"
  have s: "sealed_changes sha1_ctx0 ?e (replicate 256 0) = Some []"
    by (simp add: sealed_changes_def take_update_cancel)
  have u: "\<not> user_reset ?e (replicate 256 0)"
    by (simp add: user_reset_def chunk_def eeprom_offsets drop_update_cancel)
  obtain n list where g: "generateEEPROMChangeList sha1_ctx0 True ?e (replicate 256 0)
      eepromChangeTrackerInit = Some (n, list)"
    by (simp add: generateEEPROMChangeList_def s)
  have r: "replicate 4 (0 :: u8) = [0, 0, 0, 0]" "replicate 6 (0 :: u8) = [0, 0, 0, 0, 0, 0]"
    by (simp_all add: numeral_eq_Suc)
  have "factory_changes ?e (replicate 256 0) = [EEPROMModItem_MACAddress]" "user_changes ?e (replicate 256 0) = []"
    by (simp_all add: factory_changes_def user_changes_def when_item_def chunk_def eeprom_offsets drop_update_swap
        take_update_swap list_update_beyond r)
  then have "changeEntries list = [EEPROMModItem_MACAddress]"
    using g by (auto simp: generateEEPROMChangeList_def s putNewChangeInList_def eepromChangeTrackerInit_def)
  with changeCount_one_less [OF g u] g show ?thesis by auto
qed

end
