(* ===== verification/Strtol.thy ===== *)
theory Strtol
  imports Xblast_Prelude
begin

text \<open>
  lib/cromwell/strtol.c with the character classes of include/ctype.h. Strings are without their
  terminator. \<^verbatim>\<open>strtol\<close> and \<^verbatim>\<open>strtoul\<close> return the value and the rest of the string that \<^verbatim>\<open>endptr\<close>
  is set to. The accumulator is an integer; the cut-off test keeps it in the range of
  \<^verbatim>\<open>unsigned long\<close>, 32 bits wide.
\<close>

abbreviation char_code :: "char \<Rightarrow> nat" where
  "char_code \<equiv> of_char"

definition isdigit :: "char \<Rightarrow> bool" where
  "isdigit c \<longleftrightarrow> 48 \<le> char_code c \<and> char_code c \<le> 57"

definition isupper :: "char \<Rightarrow> bool" where
  "isupper c \<longleftrightarrow> 65 \<le> char_code c \<and> char_code c \<le> 90"

definition islower :: "char \<Rightarrow> bool" where
  "islower c \<longleftrightarrow> 97 \<le> char_code c \<and> char_code c \<le> 122"

definition isalpha :: "char \<Rightarrow> bool" where
  "isalpha c \<longleftrightarrow> isupper c \<or> islower c"

definition isspace :: "char \<Rightarrow> bool" where
  "isspace c \<longleftrightarrow> char_code c \<in> {32, 12, 10, 13, 9, 11}"

text \<open>The value of a digit or letter; any other character ends the number.\<close>

definition digit_value :: "char \<Rightarrow> int option" where
  "digit_value c =
    (if isdigit c then Some (int (char_code c) - 48)
     else if isalpha c then Some (if isupper c then int (char_code c) - 55 else int (char_code c) - 87)
     else None)"

definition strtol_sign :: "string \<Rightarrow> bool \<times> string" where
  "strtol_sign s =
    (case dropWhile isspace s of
       [] \<Rightarrow> (False, [])
     | c # r \<Rightarrow> if c = CHR ''-'' then (True, r) else if c = CHR ''+'' then (False, r)
                else (False, c # r))"

definition strtol_base :: "int \<Rightarrow> string \<Rightarrow> int \<times> string" where
  "strtol_base base s =
    (let (base', s') =
       (if (base = 0 \<or> base = 16) \<and> 2 \<le> length s \<and> s ! 0 = CHR ''0'' \<and>
           (s ! 1 = CHR ''x'' \<or> s ! 1 = CHR ''X'') then (16, drop 2 s)
        else if (base = 0 \<or> base = 2) \<and> 2 \<le> length s \<and> s ! 0 = CHR ''0'' \<and>
           (s ! 1 = CHR ''b'' \<or> s ! 1 = CHR ''B'') then (2, drop 2 s)
        else (base, s))
     in if base' = 0 then (if s' \<noteq> [] \<and> s' ! 0 = CHR ''0'' then 8 else 10, s') else (base', s'))"

text \<open>The loop over the digits: the accumulator, \<^verbatim>\<open>any\<close>, and the rest.\<close>

fun strtol_loop :: "int \<Rightarrow> int \<Rightarrow> int \<Rightarrow> string \<Rightarrow> int \<Rightarrow> int \<Rightarrow> int \<times> int \<times> string" where
  "strtol_loop base cutoff cutlim [] acc any = (acc, any, [])"
| "strtol_loop base cutoff cutlim (ch # s) acc any =
    (case digit_value ch of
       None \<Rightarrow> (acc, any, ch # s)
     | Some c \<Rightarrow>
         if base \<le> c then (acc, any, ch # s)
         else if any < 0 \<or> cutoff < acc \<or> acc = cutoff \<and> cutlim < c
         then strtol_loop base cutoff cutlim s acc (-1)
         else strtol_loop base cutoff cutlim s (acc * base + c) 1)"

definition LONG_MAX :: int where "LONG_MAX = 2 ^ 31 - 1"
definition LONG_MIN_abs :: int where "LONG_MIN_abs = 2 ^ 31"
definition ULONG_MAX :: int where "ULONG_MAX = 2 ^ 32 - 1"

definition strtol :: "string \<Rightarrow> int \<Rightarrow> int \<times> string" where
  "strtol nptr base0 =
    (let (neg, s1) = strtol_sign nptr;
         (base, s2) = strtol_base base0 s1;
         limit = (if neg then LONG_MIN_abs else LONG_MAX);
         (acc, any, r) = strtol_loop base (limit div base) (limit mod base) s2 0 0;
         res = (if any < 0 then (if neg then - LONG_MIN_abs else LONG_MAX)
                else if neg then - acc else acc)
     in (res, if any = 0 then nptr else r))"

definition strtoul :: "string \<Rightarrow> int \<Rightarrow> u32 \<times> string" where
  "strtoul nptr base0 =
    (let (neg, s1) = strtol_sign nptr;
         (base, s2) = strtol_base base0 s1;
         (acc, any, r) = strtol_loop base (ULONG_MAX div base) (ULONG_MAX mod base) s2 0 0;
         res = (if any < 0 then word_of_int ULONG_MAX
                else if neg then - word_of_int acc else word_of_int acc)
     in (res, if any = 0 then nptr else r))"

subsection \<open>The exact value\<close>

definition valid_digit :: "int \<Rightarrow> char \<Rightarrow> bool" where
  "valid_digit base ch \<longleftrightarrow> (case digit_value ch of None \<Rightarrow> False | Some c \<Rightarrow> c < base)"

definition digits_value :: "int \<Rightarrow> int \<Rightarrow> string \<Rightarrow> int" where
  "digits_value base = foldl (\<lambda>acc ch. acc * base + the (digit_value ch))"

lemma digit_value_nonneg: "digit_value c = Some d \<Longrightarrow> 0 \<le> d"
  by (auto simp: digit_value_def isdigit_def isalpha_def isupper_def islower_def split: if_splits)

lemma valid_digitE:
  assumes "valid_digit base ch"
  obtains c where "digit_value ch = Some c" "0 \<le> c" "c < base"
  using assms digit_value_nonneg by (auto simp: valid_digit_def split: option.splits)

lemma digits_value_mono:
  assumes "0 < base" "0 \<le> acc" "list_all (valid_digit base) s"
  shows "acc \<le> digits_value base acc s"
  using assms(2,3)
proof (induction s arbitrary: acc)
  case (Cons ch s)
  then obtain c where c: "digit_value ch = Some c" "0 \<le> c" by (auto elim: valid_digitE)
  have "acc * 1 \<le> acc * base" using assms(1) Cons.prems(1) by (intro mult_left_mono) auto
  then have "acc \<le> acc * base + c" "0 \<le> acc * base + c" using c Cons.prems(1) by linarith+
  moreover have "acc * base + c \<le> digits_value base (acc * base + c) s"
    using Cons calculation(2) by simp
  ultimately show ?case using c by (simp add: digits_value_def)
qed (simp add: digits_value_def)

lemma cutoff_exceeded:
  fixes acc :: int
  assumes "0 \<le> c" "c < base"
  shows "(limit div base < acc \<or> acc = limit div base \<and> limit mod base < c) \<longleftrightarrow> limit < acc * base + c"
proof -
  define q r where "q = limit div base" and "r = limit mod base"
  have l: "limit = q * base + r" by (simp add: q_def r_def)
  have m: "0 \<le> r" "r < base" using assms by (simp_all add: r_def)
  have "(q < acc \<or> acc = q \<and> r < c) \<longleftrightarrow> limit < acc * base + c"
  proof (cases acc q rule: linorder_cases)
    case less
    then have "(acc + 1) * base \<le> q * base" using assms by (intro mult_right_mono) auto
    then show ?thesis using less l m assms by (simp add: algebra_simps)
  next
    case equal
    then show ?thesis using l by simp
  next
    case greater
    then have "(q + 1) * base \<le> acc * base" using assms by (intro mult_right_mono) auto
    then show ?thesis using greater l m assms by (simp add: algebra_simps)
  qed
  then show ?thesis by (simp add: q_def r_def)
qed

text \<open>Once the limit is exceeded the loop only runs to the end of the digits.\<close>

lemma strtol_loop_overflow:
  "any < 0 \<Longrightarrow> strtol_loop base co cl s acc any = (acc, (if s = [] \<or> \<not> valid_digit base (hd s) then any else -1),
     dropWhile (valid_digit base) s)"
proof (induction s arbitrary: any)
  case (Cons ch s)
  show ?case
  proof (cases "valid_digit base ch")
    case True
    then have "strtol_loop base co cl (ch # s) acc any = strtol_loop base co cl s acc (-1)"
      using Cons.prems by (auto simp: valid_digit_def split: option.splits)
    then show ?thesis using Cons.IH [of "-1"] True by simp
  qed (auto simp: valid_digit_def split: option.splits)
qed simp

lemma strtol_loop_exact:
  fixes s :: string
  assumes "0 < base" "0 \<le> any" "acc \<le> limit" "0 \<le> acc"
  defines "v \<equiv> digits_value base acc (takeWhile (valid_digit base) s)"
  shows "\<exists>acc' any'. strtol_loop base (limit div base) (limit mod base) s acc any =
      (acc', any', dropWhile (valid_digit base) s) \<and>
    (any' < 0 \<longleftrightarrow> limit < v) \<and> (0 \<le> any' \<longrightarrow> acc' = v) \<and>
    (any' = 0 \<longleftrightarrow> any = 0 \<and> takeWhile (valid_digit base) s = [])"
  using assms(1-4) unfolding v_def
proof (induction s arbitrary: acc any)
  case Nil
  then show ?case by (simp add: digits_value_def)
next
  case (Cons ch s)
  show ?case
  proof (cases "valid_digit base ch")
    case False
    then show ?thesis using Cons.prems
      by (auto simp: valid_digit_def digits_value_def split: option.splits)
  next
    case True
    then obtain c where c: "digit_value ch = Some c" "0 \<le> c" "c < base" by (rule valid_digitE)
    let ?acc = "acc * base + c"
    have nn: "0 \<le> ?acc" using Cons.prems(1,4) c by simp
    have vd: "list_all (valid_digit base) (takeWhile (valid_digit base) s)"
      by (auto simp: list_all_iff dest: set_takeWhileD)
    have step: "digits_value base acc (takeWhile (valid_digit base) (ch # s)) =
        digits_value base ?acc (takeWhile (valid_digit base) s)"
      using True c by (simp add: digits_value_def)
    show ?thesis
    proof (cases "limit < ?acc")
      case True
      then have "strtol_loop base (limit div base) (limit mod base) (ch # s) acc any =
          strtol_loop base (limit div base) (limit mod base) s acc (-1)"
        using c cutoff_exceeded [OF c(2,3), of limit acc] by simp
      also have "\<dots> = (acc, -1, dropWhile (valid_digit base) s)"
        by (subst strtol_loop_overflow) simp_all
      finally show ?thesis
        using True digits_value_mono [OF Cons.prems(1) nn vd]
          \<open>valid_digit base ch\<close> unfolding step by simp
    next
      case False
      then have "strtol_loop base (limit div base) (limit mod base) (ch # s) acc any =
          strtol_loop base (limit div base) (limit mod base) s ?acc 1"
        using c cutoff_exceeded [OF c(2,3), of limit acc] Cons.prems(2) by auto
      then show ?thesis
        using Cons.IH [of 1 ?acc] Cons.prems(1) False nn \<open>valid_digit base ch\<close>
        unfolding step by simp
    qed
  qed
qed

subsection \<open>Saturating conversion\<close>

text \<open>The sign, the base and the digits of a string, and the value they denote.\<close>

definition strtol_parts :: "string \<Rightarrow> int \<Rightarrow> bool \<times> int \<times> string" where
  "strtol_parts nptr base0 =
    (let (neg, s1) = strtol_sign nptr; (base, s2) = strtol_base base0 s1 in (neg, base, s2))"

lemma strtol_base_pos: "0 \<le> base0 \<Longrightarrow> strtol_base base0 s = (base, s') \<Longrightarrow> 0 < base"
  by (auto simp: strtol_base_def Let_def split: if_splits)

lemma strtol_clamped:
  assumes b0: "0 \<le> base0" and p: "strtol_parts nptr base0 = (neg, base, s)"
  defines "v \<equiv> digits_value base 0 (takeWhile (valid_digit base) s)"
  shows "fst (strtol nptr base0) = (if neg then max (- (2 ^ 31)) (- v) else min (2 ^ 31 - 1) v)"
proof -
  obtain s1 where s1: "strtol_sign nptr = (neg, s1)" "strtol_base base0 s1 = (base, s)"
    using p by (auto simp: strtol_parts_def split: prod.splits)
  have b: "0 < base" by (rule strtol_base_pos [OF b0 s1(2)])
  define limit where "limit = (if neg then LONG_MIN_abs else LONG_MAX)"
  have l0: "0 \<le> limit" by (simp add: limit_def LONG_MIN_abs_def LONG_MAX_def)
  obtain acc any where l: "strtol_loop base (limit div base) (limit mod base) s 0 0 =
      (acc, any, dropWhile (valid_digit base) s)"
    and a: "any < 0 \<longleftrightarrow> limit < v" "0 \<le> any \<longrightarrow> acc = v"
    using strtol_loop_exact [of base 0 0 limit s] b l0 by (auto simp: v_def)
  have "fst (strtol nptr base0) = (if any < 0 then (if neg then - LONG_MIN_abs else LONG_MAX)
                else if neg then - acc else acc)"
    using l by (simp add: strtol_def s1 limit_def)
  also have "\<dots> = (if neg then max (- (2 ^ 31)) (- v) else min (2 ^ 31 - 1) v)"
    using a by (cases "any < 0"; cases neg)
      (simp_all add: limit_def LONG_MIN_abs_def LONG_MAX_def max_def min_def)
  finally show ?thesis .
qed

lemma strtoul_clamped:
  assumes b0: "0 \<le> base0" and p: "strtol_parts nptr base0 = (neg, base, s)"
  defines "v \<equiv> digits_value base 0 (takeWhile (valid_digit base) s)"
  shows "fst (strtoul nptr base0) =
    (if 2 ^ 32 - 1 < v then - 1 else if neg then - word_of_int v else word_of_int v)"
proof -
  obtain s1 where s1: "strtol_sign nptr = (neg, s1)" "strtol_base base0 s1 = (base, s)"
    using p by (auto simp: strtol_parts_def split: prod.splits)
  have b: "0 < base" by (rule strtol_base_pos [OF b0 s1(2)])
  obtain acc any where l: "strtol_loop base (ULONG_MAX div base) (ULONG_MAX mod base) s 0 0 =
      (acc, any, dropWhile (valid_digit base) s)"
    and a: "any < 0 \<longleftrightarrow> ULONG_MAX < v" "0 \<le> any \<longrightarrow> acc = v"
    using strtol_loop_exact [of base 0 0 ULONG_MAX s] b by (auto simp: v_def ULONG_MAX_def)
  have "(word_of_int ULONG_MAX :: u32) = - 1" by (simp add: ULONG_MAX_def)
  then show ?thesis using l a by (auto simp: strtoul_def s1 ULONG_MAX_def)
qed

text \<open>C25: \<^verbatim>\<open>strtol\<close> returns the value of the digits behind blanks, sign and base prefix, of whatever length
  they are, clamped to the range of a 32-bit \<^verbatim>\<open>long\<close>; \<^verbatim>\<open>strtoul\<close> returns it, negated modulo 2 to the
  32 after a minus sign, or the greatest number when it does not fit.\<close>

theorem strtol_exact_or_clamped:
  assumes "0 \<le> base0" and "strtol_parts nptr base0 = (neg, base, s)"
    and "v = digits_value base 0 (takeWhile (valid_digit base) s)"
  shows "fst (strtol nptr base0) = (if neg then max (- (2 ^ 31)) (- v) else min (2 ^ 31 - 1) v) \<and>
    fst (strtoul nptr base0) =
      (if 2 ^ 32 - 1 < v then - 1 else if neg then - word_of_int v else word_of_int v)"
  unfolding assms(3) using strtol_clamped [OF assms(1,2)] strtoul_clamped [OF assms(1,2)] by blast

theorem strtol_exact_or_clamped_witness:
  "fst (strtol '' -0x80000001'' 0) = - (2 ^ 31) \<and> fst (strtoul '' -0x80000001'' 0) = 0x7FFFFFFF"
  using strtol_exact_or_clamped [of 0 "'' -0x80000001''" True 16 "''80000001''" "0x80000001"] by code_simp

end
