(* ===== verification/ScriptText.thy ===== *)
theory ScriptText
  imports Strtol
begin

text \<open>
  Text handling of the script interpreter xblast/scriptEngine/xblastScriptEngine.c: the lines of a
  buffer and \<^verbatim>\<open>trimScript\<close>, which removes comments, indentation and blanks outside of string
  literals before a script is run or stored in flash. A script is a list of characters; the byte 0
  that \<^verbatim>\<open>trimScript\<close> puts behind the last line is part of the list. \<^const>\<open>None\<close> stands for the two
  ways the C code leaves its memory: a line of more than 99 characters overruns \<^verbatim>\<open>lineBuf\<close>, and a
  file with no line at all dereferences a null segment.
\<close>

abbreviation NUL :: char where "NUL \<equiv> CHR 0x00"
abbreviation NL :: char where "NL \<equiv> CHR 0x0A"
abbreviation CR :: char where "CR \<equiv> CHR 0x0D"
abbreviation TAB :: char where "TAB \<equiv> CHR 0x09"
abbreviation DQUOTE :: char where "DQUOTE \<equiv> CHR 0x22"

definition blank :: "char \<Rightarrow> bool" where
  "blank c \<longleftrightarrow> c = CHR '' '' \<or> c = TAB"

text \<open>The loop that all passes over a script share: \<^verbatim>\<open>stringStopPtr\<close> runs to the next newline or to
  the end, and the next line starts one character further.\<close>

function script_lines :: "string \<Rightarrow> string list" where
  "script_lines s =
    (if s = [] then []
     else takeWhile (\<lambda>c. c \<noteq> NL) s # script_lines (drop 1 (dropWhile (\<lambda>c. c \<noteq> NL) s)))"
  by pat_completeness auto
termination
proof (relation "measure length", goal_cases)
  case (2 s)
  have "length (dropWhile (\<lambda>c. c \<noteq> NL) s) \<le> length s" by (rule length_dropWhile_le)
  then show ?case using 2 by (cases s) (auto simp: less_Suc_eq_le)
qed simp

declare script_lines.simps [simp del]

text \<open>The copy loop of \<^verbatim>\<open>trimScript\<close>; the first argument is \<^verbatim>\<open>insideTextString\<close>.\<close>

fun trim_copy :: "bool \<Rightarrow> string \<Rightarrow> string" where
  "trim_copy inside [] = []"
| "trim_copy inside (c # s) =
    (if c = CHR ''#'' then []
     else let inside' = (if c = DQUOTE then \<not> inside else inside)
          in if \<not> blank c \<or> inside'
             then (if c = TAB \<and> inside' then CHR '' '' else c) # trim_copy inside' s
             else trim_copy inside' s)"

text \<open>What one line of the file contributes: nothing, or the contents of a new segment.\<close>

definition trim_line :: "string \<Rightarrow> string option" where
  "trim_line l =
    (let s = dropWhile blank l
     in if s = [] \<or> hd s = CHR ''#'' then None
        else Some (trim_copy False (if last l = CR then butlast s else s)))"

definition segment_text :: "string \<Rightarrow> char \<Rightarrow> string" where
  "segment_text b stop = takeWhile (\<lambda>c. c \<noteq> NUL) b @ [if NUL \<in> set b then NUL else stop]"

definition trimScript :: "string \<Rightarrow> string option" where
  "trimScript file =
    (let segs = List.map_filter trim_line (script_lines file)
     in if segs = [] \<or> (\<exists>b \<in> set segs. 99 < length b) then None
        else Some (concat (map (\<lambda>b. segment_text b NL) (butlast segs)) @ segment_text (last segs) NUL))"

subsection \<open>Lines\<close>

lemma script_lines_Nil [simp]: "script_lines [] = []"
  by (simp add: script_lines.simps)

lemma script_lines_step: "NL \<notin> set l \<Longrightarrow> script_lines (l @ NL # s) = l # script_lines s"
proof -
  assume "NL \<notin> set l"
  then have "takeWhile (\<lambda>c. c \<noteq> NL) (l @ NL # s) = l" "dropWhile (\<lambda>c. c \<noteq> NL) (l @ NL # s) = NL # s"
    by (auto simp: takeWhile_append dropWhile_append3)
  then show ?thesis by (subst script_lines.simps) simp
qed

lemma script_lines_last: "l \<noteq> [] \<Longrightarrow> NL \<notin> set l \<Longrightarrow> script_lines l = [l]"
proof -
  assume a: "l \<noteq> []" "NL \<notin> set l"
  then have "takeWhile (\<lambda>c. c \<noteq> NL) l = l" "dropWhile (\<lambda>c. c \<noteq> NL) l = []"
    by (auto simp: takeWhile_eq_all_conv dropWhile_eq_Nil_conv)
  then show ?thesis using a(1) by (subst script_lines.simps) (simp del: dropWhile_eq_Nil_conv)
qed

lemma script_lines_no_NL: "l \<in> set (script_lines s) \<Longrightarrow> NL \<notin> set l"
proof (induction s rule: script_lines.induct)
  case (1 s)
  show ?case
  proof (cases "s = []")
    case False
    then have "l = takeWhile (\<lambda>c. c \<noteq> NL) s \<or> l \<in> set (script_lines (drop 1 (dropWhile (\<lambda>c. c \<noteq> NL) s)))"
      using "1.prems" by (subst (asm) script_lines.simps) simp
    then show ?thesis using 1 False by (auto dest: set_takeWhileD)
  qed (use 1 in simp)
qed

lemma script_lines_chars: "l \<in> set (script_lines s) \<Longrightarrow> set l \<subseteq> set s"
proof (induction s rule: script_lines.induct)
  case (1 s)
  show ?case
  proof (cases "s = []")
    case False
    then have "l = takeWhile (\<lambda>c. c \<noteq> NL) s \<or> l \<in> set (script_lines (drop 1 (dropWhile (\<lambda>c. c \<noteq> NL) s)))"
      using "1.prems" by (subst (asm) script_lines.simps) simp
    then show ?thesis using 1 False
      by (auto dest!: set_takeWhileD in_set_dropD set_dropWhileD subsetD)
  qed (use 1 in simp)
qed

lemma script_lines_concat:
  assumes "\<And>l. l \<in> set ls \<Longrightarrow> NL \<notin> set l" "e \<noteq> []" "NL \<notin> set e"
  shows "script_lines (concat (map (\<lambda>l. l @ [NL]) ls) @ e) = ls @ [e]"
  using assms by (induction ls) (simp_all add: script_lines_last script_lines_step)

subsection \<open>Trimming\<close>

text \<open>The step of the loop, by what becomes of the character.\<close>

definition quote_state :: "bool \<Rightarrow> char \<Rightarrow> bool" where
  "quote_state q c = (if c = DQUOTE then \<not> q else q)"

lemma trim_copy_step:
  "trim_copy q (c # s) =
    (if c = CHR ''#'' then []
     else if blank c \<and> \<not> quote_state q c then trim_copy (quote_state q c) s
     else (if c = TAB then CHR '' '' else c) # trim_copy (quote_state q c) s)"
  by (auto simp: Let_def quote_state_def blank_def)

declare trim_copy.simps(2) [simp del]

lemma trim_copy_chars: "c \<in> set (trim_copy q s) \<Longrightarrow> c \<in> set s \<or> c = CHR '' ''"
  by (induction s arbitrary: q) (auto simp: trim_copy_step split: if_splits)

lemma trim_copy_no_comment: "CHR ''#'' \<notin> set (trim_copy q s)"
  by (induction s arbitrary: q) (auto simp: trim_copy_step)

lemma trim_copy_kept:
  assumes "c \<noteq> CHR ''#''" "\<not> (blank c \<and> \<not> quote_state q c)" "c \<noteq> TAB"
  shows "trim_copy q (c # s) = c # trim_copy (quote_state q c) s"
  using assms by (simp add: trim_copy_step)

lemma trim_copy_idem: "trim_copy q (trim_copy q s) = trim_copy q s"
proof (induction s arbitrary: q)
  case (Cons c s)
  consider "c = CHR ''#''" | "blank c \<and> \<not> quote_state q c" "c \<noteq> CHR ''#''"
    | "\<not> (blank c \<and> \<not> quote_state q c)" "c \<noteq> CHR ''#''" "c \<noteq> TAB"
    | "\<not> (blank c \<and> \<not> quote_state q c)" "c = TAB"
    by blast
  then show ?case
  proof cases
    case 2
    then have "quote_state q c = q" by (auto simp: quote_state_def blank_def)
    then have "trim_copy q (c # s) = trim_copy q s" using 2 trim_copy_step [of q c s] by metis
    then show ?thesis using Cons.IH [of q] by simp
  next
    case 3
    then show ?thesis using Cons.IH by (simp add: trim_copy_kept)
  next
    case 4
    then have q: "quote_state q TAB" "quote_state q TAB = q" "quote_state q (CHR '' '') = q"
      by (auto simp: quote_state_def blank_def)
    then show ?thesis using 4 Cons.IH [of q] by (simp add: trim_copy_step)
  qed (simp add: trim_copy_step)
qed simp

lemma trim_copy_snoc: "CHR ''#'' \<notin> set s \<Longrightarrow> \<not> blank c \<Longrightarrow> c \<noteq> CHR ''#'' \<Longrightarrow>
    trim_copy q (s @ [c]) = trim_copy q s @ [c]"
  by (induction s arbitrary: q) (auto simp: trim_copy_step blank_def)

lemma trim_copy_length: "length (trim_copy q s) \<le> length s"
  by (induction s arbitrary: q) (auto simp: trim_copy_step le_SucI)

text \<open>A trimmed line: the state in which a second pass leaves it as it is.\<close>

definition trimmed_line :: "string \<Rightarrow> bool" where
  "trimmed_line b \<longleftrightarrow> b \<noteq> [] \<and> \<not> blank (hd b) \<and> CHR ''#'' \<notin> set b \<and> trim_copy False b = b \<and>
     CR \<notin> set b \<and> NUL \<notin> set b \<and> NL \<notin> set b"

lemma trim_line_trimmed:
  assumes "trim_line l = Some b" "CR \<notin> set l" "NUL \<notin> set l" "NL \<notin> set l"
  shows "trimmed_line b"
proof -
  define s where "s = dropWhile blank l"
  have s: "s \<noteq> []" "hd s \<noteq> CHR ''#''" using assms(1) by (auto simp: trim_line_def s_def Let_def split: if_splits)
  have sub: "set s \<subseteq> set l" by (auto simp: s_def dest: set_dropWhileD)
  have "l \<noteq> []" using s by (auto simp: s_def)
  then have "last l \<noteq> CR" using assms(2) last_in_set by metis
  then have b: "b = trim_copy False s" using assms(1) s
    unfolding trim_line_def s_def [symmetric] Let_def by simp
  have h: "\<not> blank (hd s)" using s(1) unfolding s_def by (rule hd_dropWhile)
  obtain c s' where c: "s = c # s'" using s by (cases s) auto
  have "b \<noteq> []" "hd b = c" using b c s h by (auto simp: trim_copy_step blank_def)
  then show ?thesis using b c h s sub assms(2-4) trim_copy_no_comment [of False s] trim_copy_idem [of False s]
    by (auto simp: trimmed_line_def dest!: trim_copy_chars)
qed

lemma trimmed_line_props:
  assumes "trimmed_line b"
  shows "b \<noteq> []" "dropWhile blank (b @ x) = b @ x" "hd (b @ x) \<noteq> CHR ''#''" "last b \<noteq> CR"
    "trim_copy False b = b" "CHR ''#'' \<notin> set b" "NUL \<notin> set b" "NL \<notin> set b"
proof -
  have b: "b \<noteq> []" "\<not> blank (hd b)" "CHR ''#'' \<notin> set b" "CR \<notin> set b"
    using assms unfolding trimmed_line_def by blast+
  show "b \<noteq> []" "CHR ''#'' \<notin> set b" by fact+
  show "dropWhile blank (b @ x) = b @ x" using b(1,2) by (cases b) simp_all
  show "hd (b @ x) \<noteq> CHR ''#''" using b(1,3) hd_in_set [OF b(1)] by (metis hd_append2)
  show "last b \<noteq> CR" using b(4) last_in_set [OF b(1)] by metis
  show "trim_copy False b = b" "NUL \<notin> set b" "NL \<notin> set b"
    using assms unfolding trimmed_line_def by blast+
qed

lemma trim_line_fix: "trimmed_line b \<Longrightarrow> trim_line b = Some b"
proof -
  assume t: "trimmed_line b"
  have d: "dropWhile blank b = b" "hd b \<noteq> CHR ''#''"
    using trimmed_line_props(2,3) [OF t, of "[]"] unfolding append_Nil2 by blast+
  show ?thesis unfolding trim_line_def d(1) Let_def using d(2) trimmed_line_props [OF t] by simp
qed

lemma trim_line_fix_NUL: "trimmed_line b \<Longrightarrow> trim_line (b @ [NUL]) = Some (b @ [NUL])"
proof -
  assume t: "trimmed_line b"
  have c: "trim_copy False (b @ [NUL]) = b @ [NUL]"
    using trimmed_line_props [OF t] by (subst trim_copy_snoc) (simp_all add: blank_def)
  note d = trimmed_line_props(2,3) [OF t, of "[NUL]"]
  show ?thesis unfolding trim_line_def d(1) Let_def using d(2) c by simp
qed

text \<open>The lines of the output are the trimmed lines, the last one closed by the byte 0.\<close>

lemma trimScript_segments:
  assumes "trimScript f = Some g" "CR \<notin> set f" "NUL \<notin> set f"
  obtains ls e where "list_all trimmed_line (ls @ [e])" "g = concat (map (\<lambda>l. l @ [NL]) ls) @ e @ [NUL]"
    "List.map_filter trim_line (script_lines f) = ls @ [e]"
proof -
  define segs where "segs = List.map_filter trim_line (script_lines f)"
  have n: "segs \<noteq> []" and g: "g = concat (map (\<lambda>b. segment_text b NL) (butlast segs)) @ segment_text (last segs) NUL"
    using assms(1) by (auto simp: trimScript_def segs_def Let_def split: if_splits)
  have t: "trimmed_line b" if "b \<in> set segs" for b
  proof -
    from that obtain l where l: "l \<in> set (script_lines f)" "trim_line l = Some b"
      by (auto simp: segs_def List.map_filter_def)
    then show ?thesis
      using trim_line_trimmed script_lines_chars [OF l(1)] script_lines_no_NL [OF l(1)] assms(2,3) by blast
  qed
  have st: "segment_text b x = b @ [x]" if "b \<in> set segs" for b x
    using t [OF that] by (auto simp: segment_text_def trimmed_line_def takeWhile_eq_all_conv)
  have m: "map (\<lambda>b. segment_text b NL) (butlast segs) = map (\<lambda>l. l @ [NL]) (butlast segs)"
    using st by (intro map_cong) (auto dest: in_set_butlastD)
  have "g = concat (map (\<lambda>l. l @ [NL]) (butlast segs)) @ last segs @ [NUL]"
    unfolding g m using st n by simp
  moreover have "list_all trimmed_line (butlast segs @ [last segs])"
    using t n by (simp add: list_all_iff)
  ultimately show thesis using that n by (simp add: segs_def)
qed

subsection \<open>Properties\<close>

lemma trimScript_length_le:
  assumes "trimScript f = Some g" "CR \<notin> set f" "NUL \<notin> set f"
  shows "length g \<le> length f + 1"
proof -
  have *: "length (concat (map (\<lambda>l. l @ [NL]) (List.map_filter trim_line ls))) \<le>
      length (concat (map (\<lambda>l. l @ [NL]) ls))" for ls
  proof (induction ls)
    case (Cons l ls)
    have "length b \<le> length l" if "trim_line l = Some b" for b
    proof -
      have "length b \<le> length (dropWhile blank l)"
        using that trim_copy_length [of False "dropWhile blank l"]
          trim_copy_length [of False "butlast (dropWhile blank l)"]
        by (auto simp: trim_line_def Let_def split: if_splits)
      then show ?thesis using length_dropWhile_le [of blank l] by linarith
    qed
    then show ?case using Cons by (cases "trim_line l") (fastforce simp: List.map_filter_def)+
  qed (simp add: List.map_filter_def)
  have lines: "length (concat (map (\<lambda>l. l @ [NL]) (script_lines s))) \<le> length s + 1" for s
  proof (induction s rule: script_lines.induct)
    case (1 s)
    have "length (takeWhile (\<lambda>c. c \<noteq> NL) s) + length (dropWhile (\<lambda>c. c \<noteq> NL) s) = length s"
      by (metis length_append takeWhile_dropWhile_id)
    then show ?case
      using 1 by (cases "dropWhile (\<lambda>c. c \<noteq> NL) s"; cases "s = []") 
        (simp_all add: script_lines.simps [of s] del: dropWhile_eq_Nil_conv)
  qed
  obtain ls e where g: "g = concat (map (\<lambda>l. l @ [NL]) ls) @ e @ [NUL]"
    and m: "List.map_filter trim_line (script_lines f) = ls @ [e]"
    using assms by (rule trimScript_segments)
  have "length g = length (concat (map (\<lambda>l. l @ [NL]) (ls @ [e])))" using g by simp
  then show ?thesis using * [of "script_lines f"] lines [of f] unfolding m by linarith
qed

text \<open>A script that has been trimmed once, as the scripts in flash have, is left unchanged by a
  second pass, for files without carriage returns or zero bytes whose trimmed lines, with the
  closing zero, still fit the line buffer.\<close>

lemma trimScript_idempotent:
  assumes "trimScript f = Some g" "CR \<notin> set f" "NUL \<notin> set f"
    and "list_all (\<lambda>l. length l \<le> 99) (script_lines g)"
  shows "trimScript g = Some g"
proof -
  obtain ls e where t: "list_all trimmed_line (ls @ [e])"
    and g: "g = concat (map (\<lambda>l. l @ [NL]) ls) @ e @ [NUL]"
    using assms(1-3) by (rule trimScript_segments)
  have t': "trimmed_line l" if "l \<in> insert e (set ls)" for l using t that by (auto simp: list_all_iff)
  have lines: "script_lines g = ls @ [e @ [NUL]]"
    unfolding g using t' trimmed_line_props(8) by (intro script_lines_concat) auto
  have "List.map_filter trim_line ls = ls"
    using t' by (induction ls) (auto simp: List.map_filter_def trim_line_fix)
  then have segs: "List.map_filter trim_line (script_lines g) = ls @ [e @ [NUL]]"
    using t' [of e] by (simp add: lines List.map_filter_def trim_line_fix_NUL)
  have "segment_text l NL = l @ [NL]" if "l \<in> set ls" for l
    using trimmed_line_props(7) [OF t'] that by (auto simp: segment_text_def takeWhile_eq_all_conv)
  then have m: "map (\<lambda>b. segment_text b NL) ls = map (\<lambda>l. l @ [NL]) ls" by (intro map_cong) auto
  have e: "segment_text (e @ [NUL]) NUL = e @ [NUL]"
    using trimmed_line_props(7) [OF t' [of e]] by (auto simp: segment_text_def takeWhile_append)
  have "\<not> (\<exists>b \<in> set (ls @ [e @ [NUL]]). 99 < length b)"
    using assms(4) unfolding lines list_all_iff by force
  then have "trimScript g = Some (concat (map (\<lambda>l. l @ [NL]) ls) @ e @ [NUL])"
    unfolding trimScript_def segs Let_def butlast_snoc last_snoc m e by simp
  then show ?thesis by (simp only: g)
qed

lemma trimScript_idempotent_witness:
  "trimScript ''VAR x = 1 # count'' = Some (''VARx=1'' @ [NUL]) \<and>
   trimScript (''VARx=1'' @ [NUL]) = Some (''VARx=1'' @ [NUL])"
proof -
  have l: "script_lines ''VAR x = 1 # count'' = [''VAR x = 1 # count'']" "script_lines (''VARx=1'' @ [NUL]) = [''VARx=1'' @ [NUL]]"
    by (simp_all add: script_lines_last)
  have f: "trimScript ''VAR x = 1 # count'' = Some (''VARx=1'' @ [NUL])"
    by (simp add: trimScript_def l List.map_filter_def trim_line_def trim_copy_step quote_state_def blank_def
        segment_text_def)
  show ?thesis using trimScript_idempotent [OF f] f by (simp add: l(2) [simplified])
qed

text \<open>The smallest script that grows: with no blank to remove and no newline at its end, the closing
  zero makes it longer than the file, and \<^verbatim>\<open>loadRunScriptWithParams\<close> refuses it.\<close>

lemma trimScript_may_grow: "trimScript ''END'' = Some (''END'' @ [NUL])"
  by (simp add: trimScript_def script_lines_last List.map_filter_def trim_line_def trim_copy_step quote_state_def
      blank_def segment_text_def)

end
