(* ===== verification/ScriptIf.thy ===== *)
theory ScriptIf
  imports ScriptText
begin

text \<open>
  The two passes of xblast/scriptEngine/xblastScriptEngine.c over a script before it runs:
  \<^verbatim>\<open>parseFileForLabels\<close> collects the lines that start with a dollar sign, and
  \<^verbatim>\<open>parseFileForIFStatements\<close> pairs every IF with its ELSE and ENDIF in the list the interpreter
  jumps by. The doubly linked lists are lists in the order from \<^verbatim>\<open>first\<close> to \<^verbatim>\<open>last\<close>; positions are
  offsets in the script, with -1 for not found. Scripts are shorter than 2 GB, so that the mixed
  comparisons with \<^verbatim>\<open>fileSize\<close> are those of the offsets. The block at the end shows what nesting the
  pairing gets right.
\<close>

text \<open>Lines with the offset they start at.\<close>

function lines_at :: "nat \<Rightarrow> string \<Rightarrow> (nat \<times> string) list" where
  "lines_at p s =
    (if s = [] then []
     else let l = takeWhile (\<lambda>c. c \<noteq> NL) s
          in (p, l) # lines_at (p + length l + 1) (drop 1 (dropWhile (\<lambda>c. c \<noteq> NL) s)))"
  by pat_completeness auto
termination
proof (relation "measure (length \<circ> snd)", goal_cases)
  case (2 p s l)
  have "length (dropWhile (\<lambda>c. c \<noteq> NL) s) \<le> length s" by (rule length_dropWhile_le)
  then show ?case using 2 by (cases s) (auto simp: less_Suc_eq_le)
qed simp

declare lines_at.simps [simp del]

subsection \<open>Labels\<close>

record labelEntry =
  stringPos :: int
  label_name :: string

text \<open>\<^verbatim>\<open>addNewLabel\<close> on the line copied to \<^verbatim>\<open>compareBuf\<close>: at least one character has to follow the
  dollar sign.\<close>

definition addNewLabel :: "labelEntry list \<Rightarrow> string \<Rightarrow> int \<Rightarrow> labelEntry list" where
  "addNewLabel labelList compareBuf position =
    (if 2 \<le> length compareBuf
     then labelList @ [\<lparr>stringPos = position, label_name = tl compareBuf\<rparr>] else labelList)"

text \<open>A label line of 100 characters or more overruns \<^verbatim>\<open>compareBuf\<close>.\<close>

fun label_pass :: "(nat \<times> string) list \<Rightarrow> labelEntry list \<Rightarrow> labelEntry list option" where
  "label_pass [] labelList = Some labelList"
| "label_pass ((p, l) # ls) labelList =
    (if l \<noteq> [] \<and> hd l = CHR ''$''
     then if 99 < length l then None
          else label_pass ls (addNewLabel labelList (takeWhile (\<lambda>c. c \<noteq> NUL) l) (int p))
     else label_pass ls labelList)"

definition parseFileForLabels :: "string \<Rightarrow> labelEntry list option" where
  "parseFileForLabels file = label_pass (lines_at 0 file) []"

subsection \<open>IF, ELSE and ENDIF\<close>

record ifStatementEntry =
  ifPosition :: int
  elsePosition :: int
  endifPosition :: int
  validAssertion :: bool

text \<open>The word a line starts with: up to six characters before an opening parenthesis, the newline or
  the closing zero. The scan does not look at the file size, \<^const>\<open>None\<close> is a read behind the
  buffer. A word of six characters puts its terminator one byte behind \<^verbatim>\<open>compareBuf[6]\<close>; the word
  matches no keyword then, whatever that byte was, and the model goes on like the code.\<close>

definition if_word :: "string \<Rightarrow> nat \<Rightarrow> string option" where
  "if_word file p =
    (let s = take 6 (drop p file);
         w = takeWhile (\<lambda>c. c \<noteq> CHR ''('' \<and> c \<noteq> NL \<and> c \<noteq> NUL) s
     in if length w = length s \<and> length s < 6 then None else Some w)"

fun set_else_first :: "int \<Rightarrow> ifStatementEntry list \<Rightarrow> ifStatementEntry list option" where
  "set_else_first pos [] = None"
| "set_else_first pos (e # es) =
    (if elsePosition e = -1 then Some (e\<lparr>elsePosition := pos\<rparr> # es)
     else map_option ((#) e) (set_else_first pos es))"

fun set_endif_first :: "int \<Rightarrow> ifStatementEntry list \<Rightarrow> ifStatementEntry list option" where
  "set_endif_first pos [] = None"
| "set_endif_first pos (e # es) =
    (if endifPosition e = -1 then Some (e\<lparr>endifPosition := pos\<rparr> # es)
     else map_option ((#) e) (set_endif_first pos es))"

text \<open>The list is searched from \<^verbatim>\<open>last\<close> along \<^verbatim>\<open>previous\<close>; no entry to set is the error return.\<close>

definition set_else :: "int \<Rightarrow> ifStatementEntry list \<Rightarrow> ifStatementEntry list option" where
  "set_else pos es = map_option rev (set_else_first pos (rev es))"

definition set_endif :: "int \<Rightarrow> ifStatementEntry list \<Rightarrow> ifStatementEntry list option" where
  "set_endif pos es = map_option rev (set_endif_first pos (rev es))"

fun if_pass :: "string \<Rightarrow> (nat \<times> string) list \<Rightarrow> ifStatementEntry list \<Rightarrow> (bool \<times> ifStatementEntry list) option" where
  "if_pass file [] es = Some (True, es)"
| "if_pass file ((p, l) # ls) es =
    (case if_word file p of
       None \<Rightarrow> None
     | Some w \<Rightarrow>
         let stringStopPtr = int (p + length l + 1)
         in if w = ''IF'' then
              if_pass file ls (es @ [\<lparr>ifPosition = stringStopPtr, elsePosition = -1,
                endifPosition = -1, validAssertion = False\<rparr>])
            else if w = ''ELSE'' then
              (case set_else stringStopPtr es of
                 None \<Rightarrow> Some (False, es)
               | Some es' \<Rightarrow> if_pass file ls es')
            else if w = ''ENDIF'' then
              (case set_endif stringStopPtr es of
                 None \<Rightarrow> Some (False, es)
               | Some es' \<Rightarrow> if_pass file ls es')
            else if_pass file ls es)"

definition parseFileForIFStatements :: "string \<Rightarrow> (bool \<times> ifStatementEntry list) option" where
  "parseFileForIFStatements file = if_pass file (lines_at 0 file) []"

subsection \<open>The keywords of a script\<close>

datatype if_keyword = KwIf | KwElse | KwEndif

definition keyword_of :: "string \<Rightarrow> if_keyword option" where
  "keyword_of w = (if w = ''IF'' then Some KwIf else if w = ''ELSE'' then Some KwElse
     else if w = ''ENDIF'' then Some KwEndif else None)"

text \<open>Every keyword with the offset of the line below it.\<close>

fun if_tokens :: "string \<Rightarrow> (nat \<times> string) list \<Rightarrow> (if_keyword \<times> int) list option" where
  "if_tokens file [] = Some []"
| "if_tokens file ((p, l) # ls) =
    (case if_word file p of
       None \<Rightarrow> None
     | Some w \<Rightarrow>
         (case if_tokens file ls of
            None \<Rightarrow> None
          | Some ts \<Rightarrow>
              Some (case keyword_of w of None \<Rightarrow> ts | Some k \<Rightarrow> (k, int (p + length l + 1)) # ts)))"

fun pair_keywords :: "(if_keyword \<times> int) list \<Rightarrow> ifStatementEntry list \<Rightarrow> bool \<times> ifStatementEntry list" where
  "pair_keywords [] es = (True, es)"
| "pair_keywords ((KwIf, q) # ts) es =
    pair_keywords ts (es @ [\<lparr>ifPosition = q, elsePosition = -1, endifPosition = -1, validAssertion = False\<rparr>])"
| "pair_keywords ((KwElse, q) # ts) es =
    (case set_else q es of None \<Rightarrow> (False, es) | Some es' \<Rightarrow> pair_keywords ts es')"
| "pair_keywords ((KwEndif, q) # ts) es =
    (case set_endif q es of None \<Rightarrow> (False, es) | Some es' \<Rightarrow> pair_keywords ts es')"

lemma if_pass_pairs:
  "if_tokens file ls = Some ts \<Longrightarrow> if_pass file ls es = Some (pair_keywords ts es)"
proof (induction ls arbitrary: ts es)
  case (Cons a ls)
  obtain p l where "a = (p, l)" by (cases a)
  then show ?case using Cons
    by (auto simp: keyword_of_def Let_def split: option.splits if_splits)
qed simp

subsection \<open>Nested statements\<close>

text \<open>An IF with the statements up to its ENDIF, or with those up to its ELSE and up to its ENDIF.\<close>

datatype if_block =
    IfThen int "if_block list" int
  | IfThenElse int "if_block list" int "if_block list" int

fun block_tokens :: "if_block \<Rightarrow> (if_keyword \<times> int) list"
  and blocks_tokens :: "if_block list \<Rightarrow> (if_keyword \<times> int) list" where
  "block_tokens (IfThen p a q) = (KwIf, p) # blocks_tokens a @ [(KwEndif, q)]"
| "block_tokens (IfThenElse p a e b q) =
    (KwIf, p) # blocks_tokens a @ (KwElse, e) # blocks_tokens b @ [(KwEndif, q)]"
| "blocks_tokens [] = []"
| "blocks_tokens (x # xs) = block_tokens x @ blocks_tokens xs"

fun block_entries :: "if_block \<Rightarrow> ifStatementEntry list"
  and blocks_entries :: "if_block list \<Rightarrow> ifStatementEntry list" where
  "block_entries (IfThen p a q) =
    \<lparr>ifPosition = p, elsePosition = -1, endifPosition = q, validAssertion = False\<rparr> # blocks_entries a"
| "block_entries (IfThenElse p a e b q) =
    \<lparr>ifPosition = p, elsePosition = e, endifPosition = q, validAssertion = False\<rparr> #
      blocks_entries a @ blocks_entries b"
| "blocks_entries [] = []"
| "blocks_entries (x # xs) = block_entries x @ blocks_entries xs"

text \<open>Every IF before an ELSE, within the same IF, has an ELSE of its own.\<close>

fun else_complete :: "if_block \<Rightarrow> bool"
  and elses_complete :: "if_block list \<Rightarrow> bool" where
  "else_complete (IfThen p a q) = elses_complete a"
| "else_complete (IfThenElse p a e b q) =
    (elses_complete a \<and> elses_complete b \<and> list_all (\<lambda>x. elsePosition x \<noteq> -1) (blocks_entries a))"
| "elses_complete [] = True"
| "elses_complete (x # xs) = (else_complete x \<and> elses_complete xs)"

lemma set_else_skip:
  "list_all (\<lambda>x. elsePosition x \<noteq> -1) ys \<Longrightarrow> elsePosition e = -1 \<Longrightarrow>
    set_else q (es @ e # ys) = Some (es @ e\<lparr>elsePosition := q\<rparr> # ys)"
proof -
  have "list_all (\<lambda>x. elsePosition x \<noteq> -1) zs \<Longrightarrow> elsePosition e = -1 \<Longrightarrow>
    set_else_first q (zs @ e # xs) = Some (zs @ e\<lparr>elsePosition := q\<rparr> # xs)" for zs xs
    by (induction zs) auto
  then show "list_all (\<lambda>x. elsePosition x \<noteq> -1) ys \<Longrightarrow> elsePosition e = -1 \<Longrightarrow> ?thesis"
    by (simp add: set_else_def)
qed

lemma set_endif_skip:
  "list_all (\<lambda>x. endifPosition x \<noteq> -1) ys \<Longrightarrow> endifPosition e = -1 \<Longrightarrow>
    set_endif q (es @ e # ys) = Some (es @ e\<lparr>endifPosition := q\<rparr> # ys)"
proof -
  have "list_all (\<lambda>x. endifPosition x \<noteq> -1) zs \<Longrightarrow> endifPosition e = -1 \<Longrightarrow>
    set_endif_first q (zs @ e # xs) = Some (zs @ e\<lparr>endifPosition := q\<rparr> # xs)" for zs xs
    by (induction zs) auto
  then show "list_all (\<lambda>x. endifPosition x \<noteq> -1) ys \<Longrightarrow> endifPosition e = -1 \<Longrightarrow> ?thesis"
    by (simp add: set_endif_def)
qed

lemma entries_closed:
  "list_all (\<lambda>t. snd t \<noteq> -1) (block_tokens x) \<Longrightarrow> list_all (\<lambda>x. endifPosition x \<noteq> -1) (block_entries x)"
  "list_all (\<lambda>t. snd t \<noteq> -1) (blocks_tokens xs) \<Longrightarrow> list_all (\<lambda>x. endifPosition x \<noteq> -1) (blocks_entries xs)"
  by (induction x and xs rule: block_tokens_blocks_tokens.induct) auto

lemma pair_block:
  "else_complete x \<Longrightarrow> list_all (\<lambda>t. snd t \<noteq> -1) (block_tokens x) \<Longrightarrow>
    pair_keywords (block_tokens x @ ts) es = pair_keywords ts (es @ block_entries x)"
  "elses_complete xs \<Longrightarrow> list_all (\<lambda>t. snd t \<noteq> -1) (blocks_tokens xs) \<Longrightarrow>
    pair_keywords (blocks_tokens xs @ ts) es = pair_keywords ts (es @ blocks_entries xs)"
proof (induction x and xs arbitrary: ts es and ts es rule: block_tokens_blocks_tokens.induct)
  case (1 p a q)
  then show ?case using entries_closed(2) [of a] by (simp add: set_endif_skip)
next
  case (2 p a e b q)
  then show ?case using entries_closed(2) [of a] entries_closed(2) [of b]
    by (simp add: set_else_skip set_endif_skip)
qed simp_all

lemma parse_blocks:
  assumes "if_tokens f (lines_at 0 f) = Some (blocks_tokens bs)" "elses_complete bs"
  shows "parseFileForIFStatements f = Some (True, blocks_entries bs)"
proof -
  have "list_all (\<lambda>t. snd t \<noteq> -1) ts" if "if_tokens f ls = Some ts" for ls ts
    using that by (induction f ls arbitrary: ts rule: if_tokens.induct) (auto split: option.splits)
  then have "list_all (\<lambda>t. snd t \<noteq> -1) (blocks_tokens bs)" using assms(1) by blast
  from pair_block(2) [OF assms(2) this, of "[]" "[]"] show ?thesis
    by (simp add: parseFileForIFStatements_def if_pass_pairs [OF assms(1)])
qed

text \<open>C23: the pairing of IF, ELSE and ENDIF. A script whose keywords are nested blocks is accepted,
  and every IF gets the line below its own ELSE and below its own ENDIF, provided that an IF in
  the part before an ELSE always has an ELSE itself.\<close>

theorem parse_if_blocks:
  assumes "if_tokens script (lines_at 0 script) = Some (blocks_tokens bs)" and "elses_complete bs"
  shows "parseFileForIFStatements script = Some (True, blocks_entries bs)"
  using assms by (rule parse_blocks)

theorem parse_if_blocks_witness:
  "parseFileForIFStatements (''IF(a==1)'' @ NL # ''ELSE'' @ NL # ''IF(b==1)'' @ NL # ''ENDIF'' @ NL # ''ENDIF'' @ [NUL]) =
    Some (True, blocks_entries [IfThenElse 9 [] 14 [IfThen 23 [] 29] 36])"
  by (rule parse_if_blocks) code_simp+

text \<open>Without that proviso an ELSE goes to the inner IF, although that one is closed already.\<close>

lemma else_goes_to_closed_if:
  "parseFileForIFStatements (''IF(a==1)'' @ NL # ''IF(b==1)'' @ NL # ''ENDIF'' @ NL # ''ELSE'' @ NL # ''ENDIF'' @ [NUL]) =
    Some (True, [\<lparr>ifPosition = 9, elsePosition = -1, endifPosition = 36, validAssertion = False\<rparr>,
      \<lparr>ifPosition = 18, elsePosition = 29, endifPosition = 24, validAssertion = False\<rparr>])"
  by code_simp

end
