(* ===== verification/ScriptArgs.thy ===== *)
theory ScriptArgs
  imports Strtol ScriptText
begin

text \<open>
  The arguments of a script line and the variables, from xblast/scriptEngine/xblastScriptEngine.c:
  \<^verbatim>\<open>checkEndOfArgument\<close> with its flag \<^verbatim>\<open>stringDeclaration\<close>, the loop of \<^verbatim>\<open>runScript\<close> that cuts a line
  into at most five arguments, \<^verbatim>\<open>decodeArgument\<close>, \<^verbatim>\<open>variableFunction\<close> and \<^verbatim>\<open>updateVariable\<close>. The line
  buffer is the text in front of its terminator; what lies behind is left over from earlier lines,
  and reading it is \<^const>\<open>None\<close>. Allocation is taken to succeed.
\<close>

definition buf_char :: "string \<Rightarrow> nat \<Rightarrow> char" where
  "buf_char buf i = (if i < length buf then buf ! i else NUL)"

text \<open>The first component of the result is \<^verbatim>\<open>stringDeclaration\<close> afterwards, the second the return value:
  true while the argument goes on.\<close>

definition plain_continues :: "string \<Rightarrow> nat \<Rightarrow> bool" where
  "plain_continues compareBuf position =
    (let c = buf_char compareBuf position;
         p1 = buf_char compareBuf (position - 1);
         p2 = buf_char compareBuf (position - 2)
     in if c \<in> {NUL, CHR ''('', CHR ''#'', CHR '')'', CHR '',''} then False
        else if c \<in> {CHR ''+'', CHR ''-'', CHR ''*'', CHR ''/'', CHR ''%''} then False
        else if 1 \<le> position \<and> c = CHR ''!'' then False
        else if 1 \<le> position \<and> c = CHR ''>'' \<and> p1 \<noteq> CHR ''>'' then False
        else if 1 \<le> position \<and> c = CHR ''<'' \<and> p1 \<noteq> CHR ''<'' then False
        else if 1 \<le> position \<and> c = CHR ''='' \<and> p1 \<notin> {CHR ''='', CHR ''!'', CHR ''>'', CHR ''<''} then False
        else if 2 \<le> position \<and> (p2 = CHR ''>'' \<and> p1 = CHR ''>'' \<or> p2 = CHR ''<'' \<and> p1 = CHR ''<'') then False
        else if 1 \<le> position \<and> p1 \<in> {CHR ''+'', CHR ''-'', CHR ''*'', CHR ''/'', CHR ''%''} then False
        else if 1 \<le> position \<and> p1 = CHR ''='' \<and> c \<noteq> CHR ''='' then False
        else if 1 \<le> position \<and> p1 = CHR ''>'' \<and> c \<noteq> CHR ''='' \<and> c \<noteq> CHR ''>'' then False
        else if 1 \<le> position \<and> p1 = CHR ''<'' \<and> c \<noteq> CHR ''='' \<and> c \<noteq> CHR ''<'' then False
        else if position = 3 \<and> take 3 compareBuf = ''VAR'' then False
        else if position = 4 \<and> take 4 compareBuf = ''GOTO'' then False
        else True)"

definition checkEndOfArgument :: "string \<Rightarrow> nat \<Rightarrow> bool \<Rightarrow> bool \<times> bool" where
  "checkEndOfArgument compareBuf position stringDeclaration =
    (let c = buf_char compareBuf position; p1 = buf_char compareBuf (position - 1)
     in if 1 \<le> position \<and> p1 = DQUOTE \<and> \<not> stringDeclaration then (True, True)
        else if 1 \<le> position \<and> (p1 = DQUOTE \<or> c = NUL) \<and> stringDeclaration then (False, False)
        else if 1 \<le> position \<and> stringDeclaration then (True, True)
        else (False, plain_continues compareBuf position))"

text \<open>\<^verbatim>\<open>while(checkEndOfArgument(compareBuf, tempPtr)) tempPtr += 1;\<close>\<close>

function arg_end :: "string \<Rightarrow> nat \<Rightarrow> bool \<Rightarrow> (nat \<times> bool) option" where
  "arg_end compareBuf tempPtr stringDeclaration =
    (if length compareBuf < tempPtr then None
     else let (sd, goes_on) = checkEndOfArgument compareBuf tempPtr stringDeclaration
          in if goes_on then arg_end compareBuf (tempPtr + 1) sd else Some (tempPtr, sd))"
  by pat_completeness auto
termination by (relation "measure (\<lambda>(b, t, _). length b + 1 - t)") auto

declare arg_end.simps [simp del]

definition is_separator :: "char \<Rightarrow> bool" where
  "is_separator c \<longleftrightarrow> c = CHR ''('' \<or> c = CHR '','' \<or> c = CHR '')''"

definition skip_separators :: "string \<Rightarrow> nat \<Rightarrow> nat" where
  "skip_separators buf p = p + length (takeWhile is_separator (drop p buf))"

text \<open>At most \<^term>\<open>n\<close> further arguments from \<^verbatim>\<open>tempPtr\<close> on. An argument is copied to \<^verbatim>\<open>tempBuf[50]\<close>
  before it is decoded, so 50 characters or more are out of bounds.\<close>

fun line_args :: "nat \<Rightarrow> string \<Rightarrow> nat \<Rightarrow> bool \<Rightarrow> (string list \<times> bool) option" where
  "line_args 0 buf tempPtr sd = Some ([], sd)"
| "line_args (Suc n) buf tempPtr sd =
    (if length buf \<le> tempPtr then Some ([], sd)
     else case arg_end buf (tempPtr + 1) sd of
            None \<Rightarrow> None
          | Some (e, sd') \<Rightarrow>
              if 50 \<le> e - tempPtr then None
              else (case line_args n buf (skip_separators buf e) sd' of
                      None \<Rightarrow> None
                    | Some (args, sd'') \<Rightarrow> Some (take (e - tempPtr) (drop tempPtr buf) # args, sd'')))"

subsection \<open>Variables\<close>

record variableEntry =
  var_value :: int
  var_name :: string
  var_readOnly :: bool

definition find_variable :: "string \<Rightarrow> variableEntry list \<Rightarrow> variableEntry option" where
  "find_variable name vs = List.find (\<lambda>v. var_name v = name) vs"

definition variableFunction :: "string \<Rightarrow> int \<Rightarrow> variableEntry list \<Rightarrow> bool \<Rightarrow> bool \<times> variableEntry list" where
  "variableFunction name initValue vs readOnly =
    (if \<exists>v \<in> set vs. var_name v = name then (False, vs)
     else (True, vs @ [\<lparr>var_value = initValue, var_name = name, var_readOnly = readOnly\<rparr>]))"

text \<open>Only the first entry with the name is updated, and only when it is writable. Without any entry
  the loop does not run and the function returns true.\<close>

fun updateVariable :: "string \<Rightarrow> int \<Rightarrow> variableEntry list \<Rightarrow> bool \<times> variableEntry list" where
  "updateVariable name x [] = (True, [])"
| "updateVariable name x (v # vs) =
    (if var_name v = name then (True, (if var_readOnly v then v else v\<lparr>var_value := x\<rparr>) # vs)
     else if vs = [] then (False, [v])
     else let (r, vs') = updateVariable name x vs in (r, v # vs'))"

subsection \<open>Decoding\<close>

datatype arg_type = ARGTYPE_UNKNOWN | ARGTYPE_FUNCTION | ARGTYPE_OPERATOR | ARGTYPE_VARIABLE
  | ARGTYPE_NUMERIC | ARGTYPE_STRING

definition functionCallList :: "string list" where
  "functionCallList = [''IF'', ''ELSE'', ''ENDIF'', ''GOTO'', ''GPI'', ''GPO'', ''WAIT'', ''BOOT'', ''FAN'',
    ''LED'', ''LCDW'', ''LCDC'', ''LCDR'', ''LCDB'', ''LCDP'', ''VAR'', ''SPIR'', ''SPIW'', ''XPAD'', ''END'']"

definition operatorList :: "string list" where
  "operatorList = [''=='', ''!='', ''>'', ''<'', ''>='', ''<='', ''='', ''+'', ''-'', ''*'', ''/'', ''%'',
    ''<<'', ''>>'']"

fun index_of :: "'a \<Rightarrow> 'a list \<Rightarrow> nat option" where
  "index_of x [] = None"
| "index_of x (y # ys) = (if x = y then Some 0 else map_option Suc (index_of x ys))"

text \<open>The result: the type, the number if the call stores one (the caller's is kept otherwise), and the
  text the argument points to, if any. A string literal loses its first and last character.\<close>

definition decodeArgument :: "string \<Rightarrow> variableEntry list \<Rightarrow> arg_type \<times> int option \<times> string option" where
  "decodeArgument inputArg vs =
    (case index_of inputArg functionCallList of
       Some i \<Rightarrow> (ARGTYPE_FUNCTION, Some (int i), Some inputArg)
     | None \<Rightarrow>
    (case index_of inputArg operatorList of
       Some i \<Rightarrow> (ARGTYPE_OPERATOR, Some (int i), None)
     | None \<Rightarrow>
       if buf_char inputArg 0 \<noteq> DQUOTE
       then (case find_variable inputArg vs of
               Some v \<Rightarrow> (ARGTYPE_VARIABLE, Some (var_value v), Some (var_name v))
             | None \<Rightarrow>
                 if isdigit (buf_char inputArg 0) \<or> buf_char inputArg 0 = CHR ''-''
                 then (ARGTYPE_NUMERIC, Some (fst (strtol inputArg 0)), None)
                 else (ARGTYPE_STRING, None, Some inputArg))
       else (ARGTYPE_STRING, None, Some (take (length inputArg - 2) (tl inputArg)))))"

end
