(* ===== verification/FunctionsAccessor.thy ===== *)
theory FunctionsAccessor
  imports HardwareIdentifier
begin

text \<open>
  xblast/scriptEngine/functionsAccessor.c, the functions through which a script reaches the
  hardware. The general-purpose port is the model of lib/LPCMod/BootLPCMod.c in
  \<^verbatim>\<open>HardwareIdentifier\<close>. Calls into the display, the fan, the LED and the boot code are appended to a
  trace. What the hardware answers is a parameter: the value of the register XBLAST_IO and of the
  controller's buttons at each query, counted by \<^verbatim>\<open>queries\<close>.
\<close>

datatype hw_call =
    Wait int
  | BootModBios FlashBank
  | BootOriginalBios FlashBank
  | I2CSetFanSpeed u8
  | SetLED string
  | PrintLine u8 string
  | WriteLCDClearLine u8
  | WriteLCDCommand u8
  | SetLCDBacklight u8
  | InitLCD5V bool

record script_env =
  env_xio :: "nat \<Rightarrow> u8"
  env_button :: "nat \<Rightarrow> nat \<Rightarrow> int"
  env_escape :: "nat \<Rightarrow> bool"
  env_nbLines :: int
  env_LineSize :: int

record script_io =
  lpc :: lpc_hw
  calls :: "hw_call list"
  queries :: nat

definition io_call :: "hw_call \<Rightarrow> script_io \<Rightarrow> script_io" where
  "io_call c s = s\<lparr>calls := calls s @ [c]\<rparr>"

definition io_read_gpio :: "script_env \<Rightarrow> script_io \<Rightarrow> script_io" where
  "io_read_gpio env s =
    s\<lparr>lpc := snd (LPCMod_ReadIO (env_xio env (queries s)) None (lpc s)), queries := queries s + 1\<rparr>"

definition gpiFunction :: "script_env \<Rightarrow> u8 \<Rightarrow> script_io \<Rightarrow> bool \<times> script_io" where
  "gpiFunction env port s =
    (let s' = io_read_gpio env s
     in (if port \<noteq> 0 then GPI1 (gpio (lpc s')) else GPI0 (gpio (lpc s')), s'))"

definition gpoFunction :: "script_env \<Rightarrow> u8 \<Rightarrow> u8 \<Rightarrow> script_io \<Rightarrow> script_io" where
  "gpoFunction env port val s =
    s\<lparr>lpc := LPCMod_WriteIO (env_xio env (queries s)) port val (lpc s), queries := queries s + 1\<rparr>"

definition bootFunction :: "int \<Rightarrow> script_io \<Rightarrow> bool \<times> script_io" where
  "bootFunction bank s =
    (if bank = uint FlashBank_512Bank \<or> bank = uint FlashBank_256Bank \<or> bank = uint FlashBank_OSBank
     then (True, io_call (BootModBios (word_of_int bank)) s)
     else if bank = uint FlashBank_SplitTSOP0Bank \<or> bank = uint FlashBank_SplitTSOP1Bank \<or>
             bank = uint FlashBank_FullTSOPBank
     then (True, io_call (BootOriginalBios (word_of_int bank)) s)
     else (False, s))"

definition fanFunction :: "u8 \<Rightarrow> script_io \<Rightarrow> script_io" where
  "fanFunction speed s = (if 10 \<le> speed \<and> speed \<le> 100 then io_call (I2CSetFanSpeed speed) s else s)"

definition ledFunction :: "string \<Rightarrow> script_io \<Rightarrow> script_io" where
  "ledFunction pattern s = io_call (SetLED pattern) s"

definition lcdPrintFunction :: "script_env \<Rightarrow> u8 \<Rightarrow> string \<Rightarrow> u8 \<Rightarrow> script_io \<Rightarrow> bool \<times> script_io" where
  "lcdPrintFunction env line text0 stringLength s =
    (if env_nbLines env - 1 < uint line then (False, s)
     else let inputStringLength = (word_of_nat (length text0) :: u8);
              n = (if uint stringLength < env_LineSize env
                   then (if inputStringLength < stringLength then inputStringLength else stringLength)
                   else word_of_int (env_LineSize env))
          in (True, io_call (PrintLine line (take (unat n) text0)) s))"

definition lcdClearLineFunction :: "script_env \<Rightarrow> u8 \<Rightarrow> script_io \<Rightarrow> bool \<times> script_io" where
  "lcdClearLineFunction env line s =
    (if env_nbLines env - 1 < uint line then (False, s) else (True, io_call (WriteLCDClearLine line) s))"

definition lcdResetFunction :: "script_io \<Rightarrow> script_io" where
  "lcdResetFunction s = io_call (WriteLCDCommand 0x01) s"

definition lcdBacklightFunction :: "u8 \<Rightarrow> script_io \<Rightarrow> script_io" where
  "lcdBacklightFunction level s = io_call (SetLCDBacklight level) s"

definition lcdPowerFunction :: "u8 \<Rightarrow> script_io \<Rightarrow> script_io" where
  "lcdPowerFunction on s = io_call (InitLCD5V (on \<noteq> 0)) s"

definition io_fast_write :: "u8 \<Rightarrow> u8 \<Rightarrow> script_io \<Rightarrow> script_io" where
  "io_fast_write port val s = s\<lparr>lpc := LPCMod_FastWriteIO port val (lpc s)\<rparr>"

text \<open>One round of the loop of \<^verbatim>\<open>SPIRead\<close>, with the byte read so far, and the loop from round \<^term>\<open>i\<close>
  with \<^term>\<open>n\<close> rounds to go.\<close>

definition SPIRead_round :: "script_env \<Rightarrow> nat \<Rightarrow> u8 \<Rightarrow> script_io \<Rightarrow> u8 \<times> script_io" where
  "SPIRead_round env i res s =
    (let s1 = io_fast_write 0x2 0 s;
         s2 = io_fast_write 0x2 0x2 s1;
         s3 = io_read_gpio env s2
     in (push_bit 1 res OR push_bit i (bool_byte (GPI1 (gpio (lpc s3)))), s3))"

fun SPIRead_loop :: "script_env \<Rightarrow> nat \<Rightarrow> nat \<Rightarrow> u8 \<Rightarrow> script_io \<Rightarrow> u8 \<times> script_io" where
  "SPIRead_loop env i 0 res s = (res, s)"
| "SPIRead_loop env i (Suc n) res s =
    (let (res', s') = SPIRead_round env i res s in SPIRead_loop env (Suc i) n res' s')"

definition SPIRead :: "script_env \<Rightarrow> script_io \<Rightarrow> u8 \<times> script_io" where
  "SPIRead env s = SPIRead_loop env 0 8 0 s"

fun SPIWrite_loop :: "nat \<Rightarrow> u8 \<Rightarrow> script_io \<Rightarrow> script_io" where
  "SPIWrite_loop 0 data s = s"
| "SPIWrite_loop (Suc i) data s =
    SPIWrite_loop i data (io_fast_write 0x2 0x2 (io_fast_write 0x3 (drop_bit i data AND 0x01) s))"

definition SPIWrite :: "u8 \<Rightarrow> script_io \<Rightarrow> script_io" where
  "SPIWrite data s = io_fast_write 0x3 0 (SPIWrite_loop 8 data s)"

definition XPADRead :: "script_env \<Rightarrow> int \<Rightarrow> script_io \<Rightarrow> int \<times> script_io" where
  "XPADRead env xpadVariable s =
    (let key = xpadVariable - 1
     in if 0 \<le> key \<and> key \<le> 5
        then (if env_button env (queries s) (nat key) = 1 then key + 1 else 0,
              s\<lparr>queries := queries s + 1\<rparr>)
        else (0, s))"

definition emergencyEscape :: "script_env \<Rightarrow> script_io \<Rightarrow> bool \<times> script_io" where
  "emergencyEscape env s = (env_escape env (queries s), s\<lparr>queries := queries s + 1\<rparr>)"

subsection \<open>The serial port\<close>

text \<open>A receiver on the port: at every rising edge of the clock, output 1, it takes the data line,
  output 0.\<close>

fun spi_receive :: "bool \<Rightarrow> u8 list \<Rightarrow> bool list" where
  "spi_receive clk [] = []"
| "spi_receive clk (b # bs) =
    (if \<not> clk \<and> bit b 5 then bit b 4 # spi_receive (bit b 5) bs else spi_receive (bit b 5) bs)"

definition port_writes :: "script_io \<Rightarrow> u8 list" where
  "port_writes s = map snd (filter (\<lambda>w. fst w = XBLAST_IO) (lpc_io (lpc s)))"

lemma fast_write_port:
  "port_writes (io_fast_write port val s) = port_writes s @
    [push_bit 7 (bool_byte (if port AND 0x08 \<noteq> 0 then val AND 0x08 \<noteq> 0 else GPO3 (gpio (lpc s)))) OR
     push_bit 6 (bool_byte (if port AND 0x04 \<noteq> 0 then val AND 0x04 \<noteq> 0 else GPO2 (gpio (lpc s)))) OR
     push_bit 5 (bool_byte (if port AND 0x02 \<noteq> 0 then val AND 0x02 \<noteq> 0 else GPO1 (gpio (lpc s)))) OR
     push_bit 4 (bool_byte (if port AND 0x01 \<noteq> 0 then val AND 0x01 \<noteq> 0 else GPO0 (gpio (lpc s)))) OR
     bool_byte (EN_5V (gpio (lpc s)))]"
  by (simp add: port_writes_def io_fast_write_def LPCMod_FastWriteIO_def LPCMod_WriteGenPurposeIOs_def
      lpc_out_def Let_def)

lemma spi_bit:
  assumes "v = 0 \<or> v = 1"
  shows "\<exists>b1 b2. port_writes (io_fast_write 0x2 0x2 (io_fast_write 0x3 v s)) = port_writes s @ [b1, b2] \<and>
    \<not> bit b1 5 \<and> bit b2 5 \<and> (bit b2 4 \<longleftrightarrow> v = 1)"
proof -
  have "GPO0 (gpio (lpc (io_fast_write 0x3 v s))) \<longleftrightarrow> v = 1"
    using assms by (auto simp: io_fast_write_def LPCMod_FastWriteIO_def LPCMod_WriteGenPurposeIOs_def lpc_out_def Let_def)
  then show ?thesis using assms by (auto simp: fast_write_port bit_simps bit_bool_byte)
qed

lemma spi_receive_append:
  "spi_receive c (xs @ ys) = spi_receive c xs @ spi_receive (if xs = [] then c else bit (last xs) 5) ys"
  by (induction xs arbitrary: c) auto

lemma SPIWrite_loop_wire:
  "\<exists>bs. port_writes (SPIWrite_loop n data s) = port_writes s @ bs \<and>
    (\<forall>c. spi_receive c bs = map (bit data) (rev [0..<n]))"
proof (induction n arbitrary: s)
  case (Suc n)
  let ?v = "drop_bit n data AND 0x01"
  have v: "?v = 0 \<or> ?v = 1" "?v = 1 \<longleftrightarrow> bit data n"
    by (simp_all add: and_one_eq mod_2_eq_odd bit_iff_odd_drop_bit)
  obtain b1 b2 where b: "port_writes (io_fast_write 0x2 0x2 (io_fast_write 0x3 ?v s)) = port_writes s @ [b1, b2]"
    "\<not> bit b1 5" "bit b2 5" "bit b2 4 \<longleftrightarrow> ?v = 1"
    using spi_bit [OF v(1)] by blast
  obtain bs where bs: "port_writes (SPIWrite_loop (Suc n) data s) = port_writes s @ [b1, b2] @ bs"
    "\<forall>c. spi_receive c bs = map (bit data) (rev [0..<n])"
    using Suc [of "io_fast_write 0x2 0x2 (io_fast_write 0x3 ?v s)"] b(1) by auto
  then show ?case using b v by (intro exI [of _ "[b1, b2] @ bs"]) (simp add: spi_receive_append)
qed (intro exI [of _ "[]"], simp)

lemma SPIWrite_wire:
  "\<exists>bs. port_writes (SPIWrite data s) = port_writes s @ bs \<and>
    (\<forall>c. spi_receive c bs = map (bit data) [7, 6, 5, 4, 3, 2, 1, 0])"
proof -
  obtain bs where bs: "port_writes (SPIWrite_loop 8 data s) = port_writes s @ bs"
    "\<forall>c. spi_receive c bs = map (bit data) (rev [0..<8])"
    using SPIWrite_loop_wire by blast
  obtain b where b: "port_writes (SPIWrite data s) = port_writes s @ bs @ [b]" "\<not> bit b 5"
    using bs(1) by (simp add: SPIWrite_def fast_write_port bit_simps bit_bool_byte)
  have "rev [0..<8] = [7, 6, 5, 4, 3, 2, 1, 0]" by (simp add: upt_rec)
  then show ?thesis using b bs(2) by (intro exI [of _ "bs @ [b]"]) (simp add: spi_receive_append)
qed

text \<open>\<^verbatim>\<open>SPIRead\<close> shifts the byte and also shifts each new bit by the round it was sampled in, so that every
  bit ends up in the same place.\<close>

definition gpi1_sample :: "script_env \<Rightarrow> script_io \<Rightarrow> nat \<Rightarrow> bool" where
  "gpi1_sample env s i \<longleftrightarrow> has_xblast_io (lpc s) \<and> bit (env_xio env (queries s + i)) 3"

lemma io_fast_write_keeps:
  "has_xblast_io (lpc (io_fast_write port val s)) = has_xblast_io (lpc s)"
  "queries (io_fast_write port val s) = queries s"
  by (simp_all add: io_fast_write_def LPCMod_FastWriteIO_def LPCMod_WriteGenPurposeIOs_def lpc_out_def
      has_xblast_io_def Let_def)

lemma io_read_gpio_result:
  "GPI1 (gpio (lpc (io_read_gpio env s))) = gpi1_sample env s 0"
  "has_xblast_io (lpc (io_read_gpio env s)) = has_xblast_io (lpc s)"
  "queries (io_read_gpio env s) = queries s + 1"
  by (simp_all add: io_read_gpio_def LPCMod_ReadIO_def gpio_of_byte_def gpi1_sample_def has_xblast_io_def Let_def
      and_bit_eq_0_u8)

lemma SPIRead_round_result:
  "SPIRead_round env i res s = (res', s') \<Longrightarrow>
    res' = push_bit 1 res OR push_bit i (bool_byte (gpi1_sample env s 0)) \<and>
    queries s' = queries s + 1 \<and> has_xblast_io (lpc s') = has_xblast_io (lpc s)"
  by (auto simp: SPIRead_round_def Let_def io_read_gpio_result io_fast_write_keeps gpi1_sample_def)

lemma ex_le_Suc_iff: "(\<exists>j\<le>Suc n. P j) \<longleftrightarrow> P 0 \<or> (\<exists>j\<le>n. P (Suc j))"
proof
  assume "\<exists>j\<le>Suc n. P j"
  then obtain j where "j \<le> Suc n" "P j" by blast
  then show "P 0 \<or> (\<exists>j\<le>n. P (Suc j))" by (cases j) auto
qed auto

lemma SPIRead_loop_result:
  assumes "push_bit 1 res = (if a then push_bit i 1 else 0)"
  shows "fst (SPIRead_loop env i (Suc n) res s) =
    (if a \<or> (\<exists>j\<le>n. gpi1_sample env s j) then push_bit (i + n) 1 else 0)"
  using assms
proof (induction n arbitrary: i res s a)
  case 0
  obtain res' s' where r: "SPIRead_round env i res s = (res', s')" by (cases "SPIRead_round env i res s")
  then show ?case using SPIRead_round_result [OF r] 0 by (auto simp: bool_byte_def)
next
  case (Suc n)
  obtain res' s' where r: "SPIRead_round env i res s = (res', s')" by (cases "SPIRead_round env i res s")
  note r' = SPIRead_round_result [OF r]
  let ?a = "a \<or> gpi1_sample env s 0"
  have "res' = (if ?a then push_bit i 1 else 0)"
    using r' Suc.prems by (auto simp: bool_byte_def)
  then have "push_bit 1 res' = (if ?a then push_bit (Suc i) 1 else 0)"
    using push_bit_push_bit [of 1 i "1 :: u8"] by simp
  from Suc.IH [OF this, of s'] have
    "fst (SPIRead_loop env i (Suc (Suc n)) res s) =
      (if ?a \<or> (\<exists>j\<le>n. gpi1_sample env s' j) then push_bit (Suc i + n) 1 else 0)"
    unfolding SPIRead_loop.simps(2) [of env i "Suc n"] r by simp
  moreover have "gpi1_sample env s' j = gpi1_sample env s (Suc j)" for j
    using r' by (simp add: gpi1_sample_def)
  ultimately show ?case by (simp only: ex_le_Suc_iff [of n] add_Suc add_Suc_right disj_assoc)
qed

text \<open>C35: what the serial port functions of the scripts do on the wire. \<^verbatim>\<open>SPIWrite\<close> sends the eight bits of
  its byte, most significant first, to a receiver that samples on the rising clock edge, whatever
  the state of the port before; \<^verbatim>\<open>SPIRead\<close> does not return the eight bits it samples: the result is
  0x80 if any of them is set and 0 if none is.\<close>

theorem spi_transfer:
  "(\<exists>bs. port_writes (SPIWrite data s) = port_writes s @ bs \<and>
      (\<forall>c. spi_receive c bs = map (bit data) [7, 6, 5, 4, 3, 2, 1, 0])) \<and>
   fst (SPIRead env s) = (if \<exists>i\<le>7. gpi1_sample env s i then 0x80 else 0)"
proof
  show "\<exists>bs. port_writes (SPIWrite data s) = port_writes s @ bs \<and>
      (\<forall>c. spi_receive c bs = map (bit data) [7, 6, 5, 4, 3, 2, 1, 0])"
    by (rule SPIWrite_wire)
  have "SPIRead env s = SPIRead_loop env 0 (Suc 7) 0 s" by (simp add: SPIRead_def)
  then show "fst (SPIRead env s) = (if \<exists>i\<le>7. gpi1_sample env s i then 0x80 else 0)"
    using SPIRead_loop_result [of 0 False 0 env 7 s] by simp
qed

end
