(* ===== verification/ScriptEngine.thy ===== *)
theory ScriptEngine
  imports ScriptIf ScriptArgs FunctionsAccessor "HOL-Library.Signed_Division"
begin

text \<open>
  The interpreter \<^verbatim>\<open>runScript\<close> of xblast/scriptEngine/xblastScriptEngine.c. Its local variables are the
  record \<^verbatim>\<open>script_state\<close>; \<^verbatim>\<open>stringStartPtr\<close> and \<^verbatim>\<open>stringStopPtr\<close> are equal whenever a line begins, and
  are one field \<^verbatim>\<open>pc\<close>. The five entries of \<^verbatim>\<open>argumentList\<close> live as long as the script: an entry
  that a line does not use keeps type and value of an earlier line, as in the C code. \<^verbatim>\<open>ifEntry\<close> is an
  index into the list of IF statements, \<^const>\<open>None\<close> before its first assignment.

  A line ends in one of three ways: the script goes on, the script ends (\<^verbatim>\<open>goto endExecution\<close>), or the
  code does something C gives no meaning to, such as following a null pointer, reading an
  uninitialised pointer, leaving an array or dividing by zero. Signed addition, subtraction and
  multiplication wrap at 32 bits, as the compiled code does.
\<close>

record script_arg =
  arg_exist :: bool
  arg_type :: arg_type
  arg_value :: int
  arg_text :: "string option"

record script_state =
  pc :: int
  argumentList :: "script_arg list"
  stringDeclaration :: bool
  variableList :: "variableEntry list"
  ifStatementList :: "ifStatementEntry list"
  ifEntry :: "nat option"
  arithAccumulator :: int
  accumulatorInUse :: bool
  arithOpInLine :: int
  script_io :: script_io

datatype line_result = Stuck | Ended script_state | Running script_state

subsection \<open>Comparisons and arithmetic\<close>

definition s32 :: "int \<Rightarrow> int" where
  "s32 x = signed_take_bit 31 x"

definition c_div :: "int \<Rightarrow> int \<Rightarrow> int option" where
  "c_div a b = (if b = 0 \<or> a = - (2 ^ 31) \<and> b = -1 then None else Some (a sdiv b))"

definition c_mod :: "int \<Rightarrow> int \<Rightarrow> int option" where
  "c_mod a b = (if b = 0 \<or> a = - (2 ^ 31) \<and> b = -1 then None else Some (a smod b))"

definition c_shl :: "int \<Rightarrow> int \<Rightarrow> int option" where
  "c_shl a n = (if n < 0 \<or> 32 \<le> n then None else Some (s32 (a * 2 ^ nat n)))"

definition c_shr :: "int \<Rightarrow> int \<Rightarrow> int option" where
  "c_shr a n = (if n < 0 \<or> 32 \<le> n then None else Some (a div 2 ^ nat n))"

definition ifFunction :: "int \<Rightarrow> u8 \<Rightarrow> int \<Rightarrow> bool" where
  "ifFunction param1 op param2 =
    (if op = 0 then param1 = param2
     else if op = 1 then param1 \<noteq> param2
     else if op = 2 then param1 > param2
     else if op = 3 then param1 < param2
     else if op = 4 then param1 \<ge> param2
     else if op = 5 then param1 \<le> param2
     else False)"

text \<open>The two switches over \<^verbatim>\<open>arithOpInLine\<close>: for a variable the accumulator is the right operand of every
  operation; for a number it is the left operand of \<^verbatim>\<open>-=\<close> and \<^verbatim>\<open>/=\<close>.\<close>

definition arith_variable :: "int \<Rightarrow> int \<Rightarrow> int \<Rightarrow> int option" where
  "arith_variable op v acc =
    (if op = 7 then Some (s32 (acc + v))
     else if op = 8 then Some (s32 (v - acc))
     else if op = 9 then Some (s32 (acc * v))
     else if op = 10 then c_div v acc
     else if op = 11 then c_mod v acc
     else if op = 12 then c_shl v acc
     else if op = 13 then c_shr v acc
     else Some acc)"

definition arith_numeric :: "int \<Rightarrow> int \<Rightarrow> int \<Rightarrow> int option" where
  "arith_numeric op v acc =
    (if op = 7 then Some (s32 (acc + v))
     else if op = 8 then Some (s32 (acc - v))
     else if op = 9 then Some (s32 (acc * v))
     else if op = 10 then c_div acc v
     else if op = 11 then c_mod v acc
     else if op = 12 then c_shl v acc
     else if op = 13 then c_shr v acc
     else Some acc)"

subsection \<open>The function calls\<close>

abbreviation arg :: "script_state \<Rightarrow> nat \<Rightarrow> script_arg" where
  "arg st k \<equiv> argumentList st ! k"

definition arg_number :: "script_arg \<Rightarrow> bool" where
  "arg_number a \<longleftrightarrow> arg_type a = ARGTYPE_VARIABLE \<or> arg_type a = ARGTYPE_NUMERIC"

text \<open>A chain of \<^verbatim>\<open>!argumentList[k].exist || \<dots>\<close>, which may run past the five entries.\<close>

fun args_present :: "nat list \<Rightarrow> script_state \<Rightarrow> bool option" where
  "args_present [] st = Some True"
| "args_present (k # ks) st =
    (if 5 \<le> k then None else if arg_exist (arg st k) then args_present ks st else Some False)"

text \<open>The search loops over the IF statements: the first match from an index on, else the last entry.\<close>

definition search_entry :: "(ifStatementEntry \<Rightarrow> bool) \<Rightarrow> ifStatementEntry list \<Rightarrow> nat \<Rightarrow> nat" where
  "search_entry P es i = min (i + length (takeWhile (\<lambda>e. \<not> P e) (drop i es))) (length es - 1)"

definition exec_IF :: "nat \<Rightarrow> script_state \<Rightarrow> line_result" where
  "exec_IF i st =
    (case args_present [i + 1, i + 2, i + 3] st of
       None \<Rightarrow> Stuck
     | Some False \<Rightarrow> Ended st
     | Some True \<Rightarrow>
         if ifStatementList st = [] then Stuck
         else let es = ifStatementList st;
                  j = search_entry (\<lambda>e. ifPosition e = pc st) es 0;
                  valid = ifFunction (arg_value (arg st (i + 1))) (word_of_int (arg_value (arg st (i + 2))))
                    (arg_value (arg st (i + 3)));
                  st' = st\<lparr>ifEntry := Some j, ifStatementList := es[j := (es ! j)\<lparr>validAssertion := valid\<rparr>]\<rparr>
              in Running (if valid then st'
                          else st'\<lparr>pc := (if elsePosition (es ! j) \<noteq> -1 then elsePosition (es ! j)
                                          else endifPosition (es ! j))\<rparr>))"

definition exec_ELSE :: "script_state \<Rightarrow> line_result" where
  "exec_ELSE st =
    (if ifStatementList st = [] then Stuck
     else let es = ifStatementList st;
              j = search_entry (\<lambda>e. elsePosition e = pc st) es 0;
              st' = st\<lparr>ifEntry := Some j\<rparr>
          in Running (if validAssertion (es ! j) then st'\<lparr>pc := endifPosition (es ! j)\<rparr> else st'))"

definition exec_ENDIF :: "script_state \<Rightarrow> line_result" where
  "exec_ENDIF st =
    (case ifEntry st of
       None \<Rightarrow> Stuck
     | Some k \<Rightarrow>
         let es = ifStatementList st;
             j = search_entry (\<lambda>e. endifPosition e = pc st) es k
         in Running (st\<lparr>ifEntry := Some j, ifStatementList := es[j := (es ! j)\<lparr>validAssertion := False\<rparr>]\<rparr>))"

definition exec_GOTO :: "labelEntry list \<Rightarrow> nat \<Rightarrow> script_state \<Rightarrow> line_result" where
  "exec_GOTO labels i st =
    (if i = 0 \<and> arg_exist (arg st 1) \<and> labels \<noteq> []
     then (case arg_text (arg st 1) of
             None \<Rightarrow> Stuck
           | Some name \<Rightarrow>
               (case List.find (\<lambda>l. label_name l = name) labels of
                  None \<Rightarrow> Running st
                | Some l \<Rightarrow> Running (st\<lparr>pc := stringPos l\<rparr>)))
     else Running st)"

definition exec_VAR :: "nat \<Rightarrow> script_state \<Rightarrow> line_result" where
  "exec_VAR i st =
    (if i = 0 \<and> arg_exist (arg st 1)
     then (case arg_text (arg st 1) of
             None \<Rightarrow> Stuck
           | Some name \<Rightarrow>
               let x = (if arg_exist (arg st 3) then arg_value (arg st 3) else 0)
               in Running (st\<lparr>variableList := snd (variableFunction name x (variableList st) False)\<rparr>))
     else Ended st)"

fun xpad_scan :: "script_env \<Rightarrow> nat \<Rightarrow> int \<Rightarrow> script_io \<Rightarrow> int \<times> script_io" where
  "xpad_scan env 0 cycleButtons s = (0, s)"
| "xpad_scan env (Suc n) cycleButtons s =
    (let (r, s') = XPADRead env cycleButtons s
     in if r \<noteq> 0 then (r, s') else xpad_scan env n (cycleButtons + 1) s')"

definition accumulate :: "int \<times> script_io \<Rightarrow> script_state \<Rightarrow> line_result" where
  "accumulate r st =
    Running (st\<lparr>arithAccumulator := fst r, accumulatorInUse := True, script_io := snd r\<rparr>)"

definition exec_XPAD :: "script_env \<Rightarrow> script_state \<Rightarrow> line_result" where
  "exec_XPAD env st =
    (if arg_type (arg st 0) = ARGTYPE_VARIABLE \<and> arg_exist (arg st 1)
     then accumulate
       (if \<not> arg_exist (arg st 3) then xpad_scan env 6 1 (script_io st)
        else if arg_type (arg st 3) = ARGTYPE_VARIABLE \<and> 1 \<le> arg_value (arg st 3) \<and> arg_value (arg st 3) \<le> 6
        then XPADRead env (arg_value (arg st 3)) (script_io st)
        else (0, script_io st)) st
     else Running st)"

definition exec_GPI :: "script_env \<Rightarrow> script_state \<Rightarrow> line_result" where
  "exec_GPI env st =
    (if arg_type (arg st 0) = ARGTYPE_VARIABLE \<and> arg_exist (arg st 3)
     then let (b, s') = gpiFunction env (word_of_int (arg_value (arg st 3))) (script_io st)
          in accumulate (of_bool b, s') st
     else Running st)"

definition exec_SPIR :: "script_env \<Rightarrow> script_state \<Rightarrow> line_result" where
  "exec_SPIR env st =
    (if arg_type (arg st 0) = ARGTYPE_VARIABLE \<and> arg_exist (arg st 1)
     then let (b, s') = SPIRead env (script_io st) in accumulate (uint b, s') st
     else Running st)"

definition io_step :: "script_state \<Rightarrow> script_io \<Rightarrow> line_result" where
  "io_step st s = Running (st\<lparr>script_io := s\<rparr>)"

text \<open>A call whose only argument has to be a number.\<close>

definition exec_unary :: "(int \<Rightarrow> script_io \<Rightarrow> script_io) \<Rightarrow> script_state \<Rightarrow> line_result" where
  "exec_unary f st =
    (if arg_exist (arg st 1) \<and> arg_number (arg st 1)
     then io_step st (f (arg_value (arg st 1)) (script_io st)) else Running st)"

definition exec_GPO :: "script_env \<Rightarrow> script_state \<Rightarrow> line_result" where
  "exec_GPO env st =
    (if arg_exist (arg st 1) \<and> arg_exist (arg st 2)
     then io_step st (gpoFunction env (word_of_int (arg_value (arg st 1))) (word_of_int (arg_value (arg st 2)))
       (script_io st)) else Running st)"

definition exec_LED :: "script_state \<Rightarrow> line_result" where
  "exec_LED st =
    (case arg_text (arg st 1) of
       Some t \<Rightarrow> if arg_exist (arg st 1) then io_step st (ledFunction t (script_io st)) else Running st
     | None \<Rightarrow> Running st)"

definition exec_LCDW :: "script_env \<Rightarrow> script_state \<Rightarrow> line_result" where
  "exec_LCDW env st =
    (case arg_text (arg st 2) of
       Some t \<Rightarrow>
         if arg_exist (arg st 1) \<and> arg_exist (arg st 2) \<and> arg_type (arg st 2) = ARGTYPE_STRING
         then io_step st (snd (lcdPrintFunction env (word_of_int (arg_value (arg st 1))) t
           (word_of_int (if arg_exist (arg st 3) \<and> arg_number (arg st 3) then arg_value (arg st 3)
                         else env_LineSize env)) (script_io st)))
         else Running st
     | None \<Rightarrow> Running st)"

definition exec_function :: "script_env \<Rightarrow> labelEntry list \<Rightarrow> nat \<Rightarrow> script_state \<Rightarrow> line_result" where
  "exec_function env labels i st =
    (let f = arg_value (arg st i)
     in if f = 0 then exec_IF i st
        else if f = 1 then exec_ELSE st
        else if f = 2 then exec_ENDIF st
        else if f = 3 then exec_GOTO labels i st
        else if f = 4 then exec_GPI env st
        else if f = 5 then exec_GPO env st
        else if f = 6 then exec_unary (\<lambda>ms. io_call (Wait ms)) st
        else if f = 7 then exec_unary (\<lambda>bank s. snd (bootFunction bank s)) st
        else if f = 8 then exec_unary (\<lambda>v. fanFunction (word_of_int v)) st
        else if f = 9 then exec_LED st
        else if f = 10 then exec_LCDW env st
        else if f = 11 then exec_unary (\<lambda>v s. snd (lcdClearLineFunction env (word_of_int v) s)) st
        else if f = 12 then io_step st (lcdResetFunction (script_io st))
        else if f = 13 then exec_unary (\<lambda>v. lcdBacklightFunction (word_of_int v)) st
        else if f = 14 then exec_unary (\<lambda>v. lcdPowerFunction (word_of_int v)) st
        else if f = 15 then exec_VAR i st
        else if f = 16 then exec_SPIR env st
        else if f = 17 then exec_unary (\<lambda>v. SPIWrite (word_of_int v)) st
        else if f = 18 then exec_XPAD env st
        else Ended st)"

subsection \<open>One argument, one line, one script\<close>

definition assign_variable :: "script_state \<Rightarrow> line_result" where
  "assign_variable st =
    (if accumulatorInUse st \<and> arg_type (arg st 1) = ARGTYPE_OPERATOR \<and> arg_value (arg st 1) = 6
     then let x = arithAccumulator st;
              st' = st\<lparr>argumentList := (argumentList st)[0 := (arg st 0)\<lparr>arg_value := x\<rparr>]\<rparr>
          in (case arg_text (arg st 0) of
                None \<Rightarrow> Stuck
              | Some name \<Rightarrow>
                  let (ok, vs) = updateVariable name x (variableList st)
                  in if ok then Running (st'\<lparr>variableList := vs\<rparr>) else Ended (st'\<lparr>variableList := vs\<rparr>))
     else Running st)"

definition operand :: "(int \<Rightarrow> int \<Rightarrow> int \<Rightarrow> int option) \<Rightarrow> int \<Rightarrow> script_state \<Rightarrow> line_result" where
  "operand arith v st =
    (if accumulatorInUse st
     then (case arith (arithOpInLine st) v (arithAccumulator st) of
             None \<Rightarrow> Stuck
           | Some a \<Rightarrow> Running (st\<lparr>arithAccumulator := a\<rparr>))
     else Running (st\<lparr>arithAccumulator := v, accumulatorInUse := True\<rparr>))"

definition exec_arg :: "script_env \<Rightarrow> labelEntry list \<Rightarrow> nat \<Rightarrow> script_state \<Rightarrow> line_result" where
  "exec_arg env labels i st =
    (case arg_type (arg st i) of
       ARGTYPE_FUNCTION \<Rightarrow> exec_function env labels i st
     | ARGTYPE_VARIABLE \<Rightarrow>
         if i = 0 then assign_variable st else operand arith_variable (arg_value (arg st i)) st
     | ARGTYPE_OPERATOR \<Rightarrow> Running (st\<lparr>arithOpInLine := arg_value (arg st i)\<rparr>)
     | ARGTYPE_NUMERIC \<Rightarrow> operand arith_numeric (arg_value (arg st i)) st
     | _ \<Rightarrow> Running st)"

text \<open>The loop over the arguments, from the last one down to the first.\<close>

fun exec_args :: "script_env \<Rightarrow> labelEntry list \<Rightarrow> nat \<Rightarrow> script_state \<Rightarrow> line_result" where
  "exec_args env labels 0 st = Running st"
| "exec_args env labels (Suc i) st =
    (if arg_exist (arg st i)
     then (case exec_arg env labels i st of
             Running st' \<Rightarrow> exec_args env labels i st'
           | r \<Rightarrow> r)
     else exec_args env labels i st)"

definition clean_arg :: "script_arg \<Rightarrow> script_arg" where
  "clean_arg a = a\<lparr>arg_exist := False,
     arg_text := (if arg_type a = ARGTYPE_STRING then None else arg_text a)\<rparr>"

definition decode_into :: "variableEntry list \<Rightarrow> string \<Rightarrow> script_arg \<Rightarrow> script_arg" where
  "decode_into vs t a =
    (let (ty, v, txt) = decodeArgument t vs
     in \<lparr>arg_exist = True, arg_type = ty, arg_value = (case v of None \<Rightarrow> arg_value a | Some x \<Rightarrow> x),
         arg_text = txt\<rparr>)"

fun decode_args :: "variableEntry list \<Rightarrow> string list \<Rightarrow> script_arg list \<Rightarrow> script_arg list" where
  "decode_args vs (t # ts) (a # as) = decode_into vs t a # decode_args vs ts as"
| "decode_args vs _ as = as"

text \<open>A line that is no label: the position moves behind it, the arguments of the last line are dropped,
  the emergency escape is polled, and the arguments are cut, decoded and executed.\<close>

definition exec_line :: "script_env \<Rightarrow> labelEntry list \<Rightarrow> int \<Rightarrow> string \<Rightarrow> script_state \<Rightarrow> line_result" where
  "exec_line env labels next_line l st =
    (let (escape, s) = emergencyEscape env (script_io st);
         st1 = st\<lparr>pc := next_line, argumentList := map clean_arg (argumentList st), script_io := s\<rparr>
     in if escape then Ended st1
        else (case line_args 5 (takeWhile (\<lambda>c. c \<noteq> NUL) l) 0 (stringDeclaration st1) of
                None \<Rightarrow> Stuck
              | Some (ts, sd) \<Rightarrow>
                  exec_args env labels 5
                    (st1\<lparr>stringDeclaration := sd,
                      argumentList := decode_args (variableList st1) ts (argumentList st1),
                      arithOpInLine := -1, accumulatorInUse := False\<rparr>)))"

definition run_line :: "script_env \<Rightarrow> string \<Rightarrow> labelEntry list \<Rightarrow> script_state \<Rightarrow> line_result" where
  "run_line env script labels st =
    (let p = nat (pc st);
         l = takeWhile (\<lambda>c. c \<noteq> NL) (take 100 (drop p script));
         next_line = int (p + length l + 1)
     in if script ! p = CHR ''$'' then Running (st\<lparr>pc := next_line\<rparr>)
        else if 100 \<le> length l then Ended st
        else exec_line env labels next_line l st)"

datatype script_result = ScriptStuck | ScriptFuel | ScriptDone script_state

text \<open>At most \<^term>\<open>n\<close> lines. The loop test compares unsigned numbers, so that the position -1 ends the
  script.\<close>

fun run_loop :: "nat \<Rightarrow> script_env \<Rightarrow> string \<Rightarrow> labelEntry list \<Rightarrow> script_state \<Rightarrow> script_result" where
  "run_loop n env script labels st =
    (if 0 \<le> pc st \<and> pc st < int (length script)
     then (case n of
             0 \<Rightarrow> ScriptFuel
           | Suc m \<Rightarrow>
               (case run_line env script labels st of
                  Stuck \<Rightarrow> ScriptStuck
                | Ended st' \<Rightarrow> ScriptDone st'
                | Running st' \<Rightarrow> run_loop m env script labels st'))
     else ScriptDone st)"

declare run_loop.simps [simp del]

definition predefined :: "(string \<times> int) list" where
  "predefined = [(''BNK512'', 0x84), (''BNK256'', 0x86), (''BNKOS'', 0x87), (''BNKFULLTSOP'', 0),
     (''BNKTSOPSPLIT0'', 0x10), (''BNKTSOPSPLIT1'', 0x18), (''xpadA'', 1), (''xpadB'', 2), (''xpadX'', 3),
     (''xpadY'', 4), (''xpadBl'', 5), (''xpadW'', 6)]"

text \<open>\<^verbatim>\<open>sprintf(tempBuf, "_param%u", i)\<close>.\<close>

fun decimal :: "nat \<Rightarrow> string" where
  "decimal n = (if n < 10 then [char_of (48 + n)] else decimal (n div 10) @ [char_of (48 + n mod 10)])"

declare decimal.simps [simp del]

definition initial_variables :: "int list \<Rightarrow> variableEntry list" where
  "initial_variables params =
    fold (\<lambda>(n, x) vs. snd (variableFunction n x vs True)) predefined
      (fold (\<lambda>(i, x) vs. snd (variableFunction (''_param'' @ decimal i) x vs False))
        (zip [0..<length params] params) [])"

definition initial_state :: "int list \<Rightarrow> ifStatementEntry list \<Rightarrow> script_io \<Rightarrow> script_state" where
  "initial_state params ifs s =
    \<lparr>pc = 0,
     argumentList = replicate 5 \<lparr>arg_exist = False, arg_type = ARGTYPE_UNKNOWN, arg_value = 0, arg_text = None\<rparr>,
     stringDeclaration = False, variableList = initial_variables params, ifStatementList = ifs,
     ifEntry = None, arithAccumulator = 0, accumulatorInUse = False, arithOpInLine = -1, script_io = s\<rparr>"

definition runScript :: "nat \<Rightarrow> script_env \<Rightarrow> string \<Rightarrow> int list \<Rightarrow> script_io \<Rightarrow> script_result" where
  "runScript fuel env script params s =
    (case parseFileForLabels script of
       None \<Rightarrow> ScriptStuck
     | Some labels \<Rightarrow>
         (case parseFileForIFStatements script of
            None \<Rightarrow> ScriptStuck
          | Some (False, ifs) \<Rightarrow> ScriptDone (initial_state params ifs s)
          | Some (True, ifs) \<Rightarrow> run_loop fuel env script labels (initial_state params ifs s)))"

end
