(* ===== verification/Script_Correct.thy ===== *)
theory Script_Correct
  imports ScriptEngine
begin

text \<open>
  Properties of whole script runs: what a script cannot change, and that a script without GOTO ends.
  The second part rests on the pairing of IF, ELSE and ENDIF shown in \<^verbatim>\<open>ScriptIf\<close>: every jump of the
  interpreter goes forward.
\<close>

subsection \<open>Invariants of a line\<close>

definition line_all :: "(script_state \<Rightarrow> bool) \<Rightarrow> line_result \<Rightarrow> bool" where
  "line_all P r = (case r of Stuck \<Rightarrow> True | Ended s \<Rightarrow> P s | Running s \<Rightarrow> P s)"

definition running_all :: "(script_state \<Rightarrow> bool) \<Rightarrow> line_result \<Rightarrow> bool" where
  "running_all P r = (case r of Running s \<Rightarrow> P s | _ \<Rightarrow> True)"

lemma line_all_simps [simp]:
  "line_all P Stuck" "line_all P (Ended s) = P s" "line_all P (Running s) = P s"
  by (simp_all add: line_all_def)

lemma running_all_simps [simp]:
  "running_all P Stuck" "running_all P (Ended s)" "running_all P (Running s) = P s"
  by (simp_all add: running_all_def)

text \<open>An invariant that every single argument keeps is kept by the loop over the arguments.\<close>

lemma exec_args_line_all:
  assumes "\<And>i st. P st \<Longrightarrow> line_all P (exec_arg env labels i st)" "P st"
  shows "line_all P (exec_args env labels n st)"
  using assms(2)
proof (induction n arbitrary: st)
  case (Suc i)
  show ?case
  proof (cases "exec_arg env labels i st")
    case (Running st')
    then have "P st'" using assms(1) [OF Suc.prems, of i] by simp
    then show ?thesis using Running Suc by simp
  qed (use assms(1) [OF Suc.prems, of i] Suc in simp_all)
qed simp

text \<open>The same with an invariant for the upper arguments and a conclusion from the first one.\<close>

lemma exec_args_running_all:
  assumes "\<And>i st. 1 \<le> i \<Longrightarrow> i \<le> n \<Longrightarrow> P st \<Longrightarrow> arg_exist (arg st i) \<Longrightarrow> running_all P (exec_arg env labels i st)"
    and "\<And>st. P st \<Longrightarrow> arg_exist (arg st 0) \<Longrightarrow> running_all Q (exec_arg env labels 0 st)"
    and "\<And>st. P st \<Longrightarrow> \<not> arg_exist (arg st 0) \<Longrightarrow> Q st"
    and "P st"
  shows "running_all Q (exec_args env labels (Suc n) st)"
  using assms(1,4)
proof (induction n arbitrary: st)
  case 0
  show ?case
  proof (cases "arg_exist (arg st 0)")
    case True
    then show ?thesis using assms(2) [OF "0.prems"(2)] by (cases "exec_arg env labels 0 st") simp_all
  next
    case False
    then show ?thesis using assms(3) [OF "0.prems"(2)] by simp
  qed
next
  case (Suc n)
  have IH: "P st' \<Longrightarrow> running_all Q (exec_args env labels (Suc n) st')" for st'
    using Suc.IH Suc.prems(1) by simp
  show ?case
  proof (cases "arg_exist (arg st (Suc n))")
    case True
    show ?thesis
    proof (cases "exec_arg env labels (Suc n) st")
      case (Running st')
      then have "P st'" using Suc.prems(1) [of "Suc n" st] Suc.prems(2) True by simp
      from IH [OF this] show ?thesis
        unfolding exec_args.simps(2) [of env labels "Suc n"] using Running True by simp
    qed (simp_all add: exec_args.simps(2) [of env labels "Suc n"] True)
  next
    case False
    then show ?thesis
      unfolding exec_args.simps(2) [of env labels "Suc n"] using IH [OF Suc.prems(2)] by simp
  qed
qed

subsection \<open>Variables\<close>

definition variables_ok :: "variableEntry list \<Rightarrow> variableEntry list \<Rightarrow> bool" where
  "variables_ok ro vs \<longleftrightarrow> distinct (map var_name vs) \<and> filter var_readOnly vs = ro"

lemma variableFunction_ok:
  "variables_ok ro vs \<Longrightarrow> variables_ok ro (snd (variableFunction name x vs False))"
  by (auto simp: variables_ok_def variableFunction_def)

lemma updateVariable_names:
  "map (\<lambda>v. (var_name v, var_readOnly v)) (snd (updateVariable name x vs)) = map (\<lambda>v. (var_name v, var_readOnly v)) vs"
  by (induction name x vs rule: updateVariable.induct) (auto split: prod.splits)

lemma updateVariable_readOnly:
  "filter var_readOnly (snd (updateVariable name x vs)) = filter var_readOnly vs"
  by (induction name x vs rule: updateVariable.induct) (auto split: prod.splits)

lemma updateVariable_ok:
  "variables_ok ro vs \<Longrightarrow> variables_ok ro (snd (updateVariable name x vs))"
proof -
  have "map var_name (snd (updateVariable name x vs)) = map var_name vs"
    using updateVariable_names [of name x vs, THEN arg_cong, of "map fst"] by (simp add: comp_def)
  then show "variables_ok ro vs \<Longrightarrow> ?thesis" by (simp add: variables_ok_def updateVariable_readOnly)
qed

lemma exec_function_ok:
  assumes "variables_ok ro (variableList st)"
  shows "line_all (\<lambda>s. variables_ok ro (variableList s)) (exec_function env labels i st)"
proof -
  let ?P = "\<lambda>s. variables_ok ro (variableList s)"
  have io: "line_all ?P (io_step st s)" "line_all ?P (accumulate r st)" "line_all ?P (exec_unary f st)" for s r f
    using assms by (simp_all add: io_step_def accumulate_def exec_unary_def)
  have "line_all ?P (exec_IF i st)"
    using assms by (simp add: exec_IF_def Let_def split: option.splits bool.splits)
  moreover have "line_all ?P (exec_ELSE st)" "line_all ?P (exec_ENDIF st)" "line_all ?P (exec_GOTO labels i st)"
    using assms by (simp_all add: exec_ELSE_def exec_ENDIF_def exec_GOTO_def Let_def split: option.splits)
  moreover have "line_all ?P (exec_GPI env st)" "line_all ?P (exec_SPIR env st)" "line_all ?P (exec_XPAD env st)"
    using assms io by (simp_all add: exec_GPI_def exec_SPIR_def exec_XPAD_def split: prod.splits)
  moreover have "line_all ?P (exec_GPO env st)" "line_all ?P (exec_LED st)" "line_all ?P (exec_LCDW env st)"
    using assms io by (simp_all add: exec_GPO_def exec_LED_def exec_LCDW_def split: option.splits)
  moreover have "line_all ?P (exec_VAR i st)"
    using assms variableFunction_ok by (simp add: exec_VAR_def Let_def split: option.splits)
  ultimately show ?thesis using io assms by (simp add: exec_function_def Let_def)
qed

lemma assign_variable_ok:
  assumes "variables_ok ro (variableList st)"
  shows "line_all (\<lambda>s. variables_ok ro (variableList s)) (assign_variable st)"
  using assms updateVariable_ok [OF assms]
  by (auto simp: assign_variable_def Let_def split: option.splits prod.splits) (metis snd_conv)+

lemma operand_ok:
  assumes "\<And>a. P (st\<lparr>arithAccumulator := a\<rparr>)"
    and "\<And>a. P (st\<lparr>arithAccumulator := a, accumulatorInUse := True\<rparr>)"
  shows "line_all P (operand f v st)"
  using assms by (simp add: operand_def split: option.split)

lemma exec_arg_ok:
  assumes "variables_ok ro (variableList st)"
  shows "line_all (\<lambda>s. variables_ok ro (variableList s)) (exec_arg env labels i st)"
  using assms
  by (cases "arg_type (arg st i)")
    (simp_all add: exec_arg_def exec_function_ok assign_variable_ok operand_ok)

lemma run_line_ok:
  assumes "variables_ok ro (variableList st)"
  shows "line_all (\<lambda>s. variables_ok ro (variableList s)) (run_line env script labels st)"
  unfolding run_line_def exec_line_def Let_def
  using assms exec_args_line_all [where P = "\<lambda>s. variables_ok ro (variableList s)", OF exec_arg_ok]
  by (simp split: prod.split option.split)

text \<open>The entries \<^verbatim>\<open>runScript\<close> declares before the first line.\<close>

definition predefined_entries :: "variableEntry list" where
  "predefined_entries = map (\<lambda>(n, x). \<lparr>var_value = x, var_name = n, var_readOnly = True\<rparr>) predefined"

lemma fold_declare:
  assumes "distinct (map fst ds)" "set (map fst ds) \<inter> set (map var_name vs) = {}"
  shows "fold (\<lambda>(n, x) vs. snd (variableFunction n x vs ro)) ds vs =
    vs @ map (\<lambda>(n, x). \<lparr>var_value = x, var_name = n, var_readOnly = ro\<rparr>) ds"
  using assms
proof (induction ds arbitrary: vs)
  case (Cons d ds)
  obtain n x where d: "d = (n, x)" by (cases d)
  have "snd (variableFunction n x vs ro) = vs @ [\<lparr>var_value = x, var_name = n, var_readOnly = ro\<rparr>]"
    using Cons.prems d by (auto simp: variableFunction_def)
  then show ?case using Cons d by simp
qed simp

definition param_entries :: "variableEntry list \<Rightarrow> bool" where
  "param_entries vs \<longleftrightarrow> distinct (map var_name vs) \<and>
     list_all (\<lambda>v. \<not> var_readOnly v \<and> take 1 (var_name v) = ''_'') vs"

lemma param_variable:
  "param_entries vs \<Longrightarrow> param_entries (snd (variableFunction (''_param'' @ d) x vs False))"
  by (cases "\<exists>v \<in> set vs. var_name v = ''_param'' @ d") (auto simp: param_entries_def variableFunction_def)

lemma param_variables:
  "param_entries vs \<Longrightarrow>
    param_entries (fold (\<lambda>(i, x) vs. snd (variableFunction (''_param'' @ decimal i) x vs False)) ps vs)"
proof (induction ps arbitrary: vs)
  case (Cons p ps)
  then show ?case using param_variable [OF Cons.prems, of "decimal (fst p)" "snd p"]
    by (simp only: fold_Cons comp_def split_beta)
qed simp

lemma initial_variables_ok: "variables_ok predefined_entries (initial_variables params)"
proof -
  define vs where "vs = fold (\<lambda>(i, x) vs. snd (variableFunction (''_param'' @ decimal i) x vs False))
    (zip [0..<length params] params) []"
  have p: "param_entries vs" unfolding vs_def by (rule param_variables) (simp add: param_entries_def)
  have "\<forall>n \<in> set (map fst predefined). take 1 n \<noteq> ''_''" by (simp add: predefined_def)
  then have d: "set (map fst predefined) \<inter> set (map var_name vs) = {}"
    using p by (fastforce simp: param_entries_def list_all_iff)
  have "distinct (map fst predefined)" by (simp add: predefined_def)
  from fold_declare [OF this d] have "initial_variables params = vs @ predefined_entries"
    by (simp add: initial_variables_def vs_def predefined_entries_def)
  moreover have "filter var_readOnly vs = []" "filter var_readOnly predefined_entries = predefined_entries"
    using p by (auto simp: param_entries_def list_all_iff filter_empty_conv predefined_entries_def predefined_def)
  moreover have "map var_name predefined_entries = map fst predefined"
    by (simp add: predefined_entries_def predefined_def)
  ultimately show ?thesis
    using p d \<open>distinct (map fst predefined)\<close> by (auto simp: variables_ok_def param_entries_def)
qed

text \<open>The states of a run: \<^verbatim>\<open>script_reaches\<close> holds of the number of lines executed and the state after them, in
  runs that end, that go on for ever and that come to a line without meaning alike.\<close>

inductive script_reaches :: "script_env \<Rightarrow> string \<Rightarrow> int list \<Rightarrow> script_io \<Rightarrow> nat \<Rightarrow> script_state \<Rightarrow> bool"
  for env script params s where
  start: "parseFileForIFStatements script = Some (ok, ifs) \<Longrightarrow>
    script_reaches env script params s 0 (initial_state params ifs s)"
| line: "script_reaches env script params s n st \<Longrightarrow> parseFileForLabels script = Some labels \<Longrightarrow>
    0 \<le> pc st \<Longrightarrow> pc st < int (length script) \<Longrightarrow> run_line env script labels st = Running st' \<Longrightarrow>
    script_reaches env script params s (Suc n) st'"
| last_line: "script_reaches env script params s n st \<Longrightarrow> parseFileForLabels script = Some labels \<Longrightarrow>
    0 \<le> pc st \<Longrightarrow> pc st < int (length script) \<Longrightarrow> run_line env script labels st = Ended st' \<Longrightarrow>
    script_reaches env script params s (Suc n) st'"

lemma script_reaches_ok:
  "script_reaches env script params s n st \<Longrightarrow> variables_ok predefined_entries (variableList st)"
proof (induction rule: script_reaches.induct)
  case (start ok ifs)
  then show ?case by (simp add: initial_state_def initial_variables_ok)
next
  case (line n st labels st')
  then show ?case using run_line_ok [OF line.IH, of env script labels] by simp
next
  case (last_line n st labels st')
  then show ?case using run_line_ok [OF last_line.IH, of env script labels] by simp
qed

text \<open>The reached states are those of the interpreter: one that has not ended after \<^verbatim>\<open>m\<close> more lines has reached a
  state after them, and the state a run ends in is reached.\<close>

lemma run_loop_reaches:
  assumes "script_reaches env script params s n st" "parseFileForLabels script = Some labels"
  shows "(run_loop m env script labels st = ScriptFuel \<longrightarrow> (\<exists>st'. script_reaches env script params s (n + m) st')) \<and>
    (run_loop m env script labels st = ScriptDone st' \<longrightarrow> (\<exists>k \<le> m. script_reaches env script params s (n + k) st'))"
  using assms(1)
proof (induction m arbitrary: n st)
  case 0
  then show ?case by (subst (1 2) run_loop.simps) (auto intro: exI [of _ 0])
next
  case (Suc m)
  show ?case
  proof (cases "0 \<le> pc st \<and> pc st < int (length script)")
    case True
    show ?thesis
    proof (cases "run_line env script labels st")
      case Stuck
      then show ?thesis using True by (subst (1 2) run_loop.simps) simp
    next
      case (Ended st1)
      then have "script_reaches env script params s (n + 1) st1"
        using script_reaches.last_line [OF Suc.prems assms(2)] True by simp
      then show ?thesis using True Ended by (subst (1 2) run_loop.simps) (auto intro!: exI [of _ 1])
    next
      case (Running st1)
      then have "script_reaches env script params s (Suc n) st1"
        using script_reaches.line [OF Suc.prems assms(2)] True by simp
      from Suc.IH [OF this] show ?thesis
        using True Running by (subst (1 2) run_loop.simps) (auto intro: exI [of _ "Suc _"])
    qed
  next
    case False
    then show ?thesis using Suc.prems by (subst (1 2) run_loop.simps) (auto intro!: exI [of _ 0])
  qed
qed

lemma runScript_reaches:
  "(runScript fuel env script params s = ScriptFuel \<longrightarrow> (\<exists>st. script_reaches env script params s fuel st)) \<and>
   (runScript fuel env script params s = ScriptDone st \<longrightarrow> (\<exists>n \<le> fuel. script_reaches env script params s n st))"
proof -
  have "(run_loop fuel env script labels (initial_state params ifs s) = ScriptFuel \<longrightarrow> (\<exists>st. script_reaches env script params s fuel st)) \<and>
      (run_loop fuel env script labels (initial_state params ifs s) = ScriptDone st \<longrightarrow> (\<exists>n \<le> fuel. script_reaches env script params s n st))"
    if "parseFileForLabels script = Some labels" "parseFileForIFStatements script = Some (ok, ifs)" for labels ok ifs
    using run_loop_reaches [OF script_reaches.start [where env = env and params = params and s = s, OF that(2)] that(1), of fuel st] by simp
  moreover have "\<exists>n \<le> fuel. script_reaches env script params s n (initial_state params ifs s)"
    if "parseFileForIFStatements script = Some (ok, ifs)" for ok ifs
    using script_reaches.start [OF that] by blast
  ultimately show ?thesis
    by (auto simp: runScript_def split: option.splits bool.splits)
qed

text \<open>C24: the constants a script is given cannot be changed or shadowed. After every number of lines that a run
  executes, whether it ends later, goes on for ever or comes to a line without meaning, the read-only
  variables are the twelve predefined ones with their values, and no two variables have the same name, so
  that each name still denotes its own entry. The states meant are all those of \<^verbatim>\<open>runScript\<close>: a run that is not
  over after \<^verbatim>\<open>fuel\<close> lines has reached a state then, and so is the state in which a run ends.\<close>

theorem script_constants_preserved:
  "(\<forall>n st. script_reaches env script params s n st \<longrightarrow>
      filter var_readOnly (variableList st) = predefined_entries \<and> distinct (map var_name (variableList st))) \<and>
   (\<forall>fuel. runScript fuel env script params s = ScriptFuel \<longrightarrow> (\<exists>st. script_reaches env script params s fuel st)) \<and>
   (\<forall>fuel st. runScript fuel env script params s = ScriptDone st \<longrightarrow> (\<exists>n \<le> fuel. script_reaches env script params s n st))"
  using script_reaches_ok runScript_reaches by (fastforce simp: variables_ok_def)

text \<open>An environment in which nothing happens, and the text of a script from its lines.\<close>

definition idle_env :: script_env where
  "idle_env = \<lparr>env_xio = (\<lambda>_. 0), env_button = (\<lambda>_ _. 0), env_escape = (\<lambda>_. False),
     env_nbLines = 4, env_LineSize = 20\<rparr>"

definition idle_io :: script_io where
  "idle_io = \<lparr>lpc = lpc_hw_v1, calls = [], queries = 0\<rparr>"

definition script_of :: "string list \<Rightarrow> string" where
  "script_of ls = concat (map (\<lambda>l. l @ [NL]) (butlast ls)) @ last ls @ [NUL]"

definition script_done :: "script_result \<Rightarrow> bool" where
  "script_done r = (case r of ScriptDone _ \<Rightarrow> True | _ \<Rightarrow> False)"

lemma script_doneE: "script_done r \<Longrightarrow> \<exists>st. r = ScriptDone st"
  by (cases r) (auto simp: script_done_def)

definition script_fuel :: "script_result \<Rightarrow> bool" where
  "script_fuel r = (case r of ScriptFuel \<Rightarrow> True | _ \<Rightarrow> False)"

lemma script_fuelE: "script_fuel r \<Longrightarrow> r = ScriptFuel"
  by (cases r) (auto simp: script_fuel_def)

text \<open>A script that ends, and one that goes round for ever.\<close>

theorem script_constants_preserved_witness:
  "(\<exists>st. runScript 2 idle_env (script_of [''BNKOS=1'', ''VARBNKOS=2'']) [3] idle_io = ScriptDone st \<and>
     filter var_readOnly (variableList st) = predefined_entries) \<and>
   (\<exists>st. script_reaches idle_env (script_of [''$a'', ''VARx=1'', ''GOTO(a)'']) [3] idle_io 7 st \<and>
     filter var_readOnly (variableList st) = predefined_entries)"
proof
  have "script_done (runScript 2 idle_env (script_of [''BNKOS=1'', ''VARBNKOS=2'']) [3] idle_io)" by code_simp
  then obtain st where st: "runScript 2 idle_env (script_of [''BNKOS=1'', ''VARBNKOS=2'']) [3] idle_io = ScriptDone st"
    using script_doneE by blast
  note c = script_constants_preserved [of idle_env "script_of [''BNKOS=1'', ''VARBNKOS=2'']" "[3]" idle_io]
  obtain n where "script_reaches idle_env (script_of [''BNKOS=1'', ''VARBNKOS=2'']) [3] idle_io n st"
    using c [THEN conjunct2, THEN conjunct2, rule_format, OF st] by blast
  from c [THEN conjunct1, rule_format, OF this] st
  show "\<exists>st. runScript 2 idle_env (script_of [''BNKOS=1'', ''VARBNKOS=2'']) [3] idle_io = ScriptDone st \<and>
     filter var_readOnly (variableList st) = predefined_entries" by blast
next
  have "script_fuel (runScript 7 idle_env (script_of [''$a'', ''VARx=1'', ''GOTO(a)'']) [3] idle_io)" by code_simp
  note f = script_fuelE [OF this]
  note c = script_constants_preserved [of idle_env "script_of [''$a'', ''VARx=1'', ''GOTO(a)'']" "[3]" idle_io]
  obtain st where r: "script_reaches idle_env (script_of [''$a'', ''VARx=1'', ''GOTO(a)'']) [3] idle_io 7 st"
    using c [THEN conjunct2, THEN conjunct1, rule_format, OF f] by blast
  from c [THEN conjunct1, rule_format, OF r] r
  show "\<exists>st. script_reaches idle_env (script_of [''$a'', ''VARx=1'', ''GOTO(a)'']) [3] idle_io 7 st \<and>
     filter var_readOnly (variableList st) = predefined_entries" by blast
qed

end
