(* ===== verification/Script_Ends.thy ===== *)
theory Script_Ends
  imports Script_Correct
begin

text \<open>
  A script without GOTO whose IF statements are nested blocks ends: every line moves the position
  forward. The keyword of a line as the interpreter cuts it has to be the one the first pass saw;
  \<^verbatim>\<open>structured_script\<close> says so. At the end, two scripts that show what happens otherwise.
\<close>

subsection \<open>Positions of lines\<close>

lemma lines_at_Nil [simp]: "lines_at q [] = []"
  by (simp add: lines_at.simps)

lemma lines_at_Cons:
  assumes "s \<noteq> []"
  shows "lines_at q s = (q, takeWhile (\<lambda>c. c \<noteq> NL) s) #
    lines_at (q + length (takeWhile (\<lambda>c. c \<noteq> NL) s) + 1) (drop (length (takeWhile (\<lambda>c. c \<noteq> NL) s) + 1) s)"
  using assms by (subst lines_at.simps) (simp add: Let_def dropWhile_eq_drop)

lemma lines_at_induct [case_names Nil Line]:
  assumes "\<And>q. P q []"
    and "\<And>q s l. s \<noteq> [] \<Longrightarrow> l = takeWhile (\<lambda>c. c \<noteq> NL) s \<Longrightarrow>
      lines_at q s = (q, l) # lines_at (q + length l + 1) (drop (length l + 1) s) \<Longrightarrow>
      P (q + length l + 1) (drop (length l + 1) s) \<Longrightarrow> P q s"
  shows "P q s"
proof (induction "length s" arbitrary: q s rule: less_induct)
  case less
  show ?case
  proof (cases "s = []")
    case False
    have "length (drop (length (takeWhile (\<lambda>c. c \<noteq> NL) s) + 1) s) < length s" using False by simp
    then show ?thesis using assms(2) [OF False refl lines_at_Cons [OF False]] less by blast
  qed (use assms(1) in simp)
qed

lemma lines_at_line:
  "(p, l) \<in> set (lines_at q s) \<Longrightarrow>
    q \<le> p \<and> p < q + length s \<and> l = takeWhile (\<lambda>c. c \<noteq> NL) (drop (p - q) s) \<and>
    (p + length l + 1 < q + length s \<longrightarrow> p + length l + 1 \<in> fst ` set (lines_at q s))"
proof (induction q s rule: lines_at_induct)
  case (Line q s l')
  let ?q = "q + length l' + 1" and ?s = "drop (length l' + 1) s"
  have ls: "lines_at q s = (q, l') # lines_at ?q ?s" by fact
  consider "p = q" "l = l'" | "(p, l) \<in> set (lines_at ?q ?s)" using Line.prems ls by auto
  then show ?case
  proof cases
    case 1
    have "?q \<in> fst ` set (lines_at ?q ?s)" if "?q < q + length s"
      using that by (subst lines_at_Cons) auto
    then show ?thesis using 1 Line.hyps(1,2) ls by auto
  next
    case 2
    note IH = Line.IH [OF 2]
    have "p - ?q + (length l' + 1) = p - q" using IH by linarith
    then have "drop (p - ?q) ?s = drop (p - q) s" by (metis drop_drop)
    moreover have "?q \<le> p" "p < ?q + length ?s" using IH by blast+
    then have "?q + length ?s = q + length s" by simp
    ultimately show ?thesis using IH unfolding ls by force
  qed
qed simp

lemma if_tokens_ConsE:
  assumes "if_tokens script ((p, l) # ls) = Some ts"
  obtains w ts' where "if_word script p = Some w" "if_tokens script ls = Some ts'"
    "ts = (case keyword_of w of None \<Rightarrow> ts' | Some k \<Rightarrow> (k, int (p + length l + 1)) # ts')"
  using assms that by (cases "if_word script p"; cases "if_tokens script ls") simp_all

lemma if_tokens_sorted:
  "if_tokens script (lines_at q s) = Some ts \<Longrightarrow>
    sorted_wrt (<) (map snd ts) \<and> list_all (\<lambda>t. int q < snd t) ts"
proof (induction q s arbitrary: ts rule: lines_at_induct)
  case (Line q s l)
  obtain w ts' where w: "if_word script q = Some w"
    and ts': "if_tokens script (lines_at (q + length l + 1) (drop (length l + 1) s)) = Some ts'"
    and ts: "ts = (case keyword_of w of None \<Rightarrow> ts' | Some k \<Rightarrow> (k, int (q + length l + 1)) # ts')"
    using Line.prems unfolding Line.hyps(3) by (rule if_tokens_ConsE)
  have "sorted_wrt (<) (map snd ts')" "list_all (\<lambda>t. int (q + length l + 1) < snd t) ts'"
    using Line.IH [OF ts'] by auto
  then show ?case unfolding ts by (auto simp: list_all_iff split: option.split)
qed simp

lemma if_tokens_mem:
  "if_tokens script ls = Some ts \<Longrightarrow> (p, l) \<in> set ls \<Longrightarrow> if_word script p = Some w \<Longrightarrow> keyword_of w = Some k \<Longrightarrow>
    (k, int (p + length l + 1)) \<in> set ts"
proof (induction ls arbitrary: ts)
  case (Cons a ls)
  then show ?case by (cases a) (auto split: option.splits)
qed simp

lemma if_tokens_line:
  "if_tokens script ls = Some ts \<Longrightarrow> t \<in> set ts \<Longrightarrow> \<exists>p l. (p, l) \<in> set ls \<and> snd t = int (p + length l + 1)"
proof (induction ls arbitrary: ts)
  case (Cons a ls)
  obtain p l where a: "a = (p, l)" by (cases a)
  obtain w ts' where "if_tokens script ls = Some ts'"
    and ts: "ts = (case keyword_of w of None \<Rightarrow> ts' | Some k \<Rightarrow> (k, int (p + length l + 1)) # ts')"
    using Cons.prems(1) unfolding a by (rule if_tokens_ConsE)
  then have IH: "t \<in> set ts' \<Longrightarrow> \<exists>p l. (p, l) \<in> set ls \<and> snd t = int (p + length l + 1)"
    using Cons.IH by blast
  have "t \<in> set ts' \<or> snd t = int (p + length l + 1)" using Cons.prems(2) ts by (cases "keyword_of w") auto
  then show ?case using IH a by (meson list.set_intros)
qed simp

subsection \<open>Jump targets\<close>

definition positions :: "ifStatementEntry \<Rightarrow> int \<times> int \<times> int" where
  "positions e = (ifPosition e, elsePosition e, endifPosition e)"

definition ordered_entry :: "ifStatementEntry \<Rightarrow> bool" where
  "ordered_entry e \<longleftrightarrow> ifPosition e < endifPosition e \<and>
     (elsePosition e \<noteq> -1 \<longrightarrow> ifPosition e < elsePosition e \<and> elsePosition e < endifPosition e)"

lemma entries_ordered:
  "sorted_wrt (<) (map snd (block_tokens x)) \<Longrightarrow> list_all ordered_entry (block_entries x)"
  "sorted_wrt (<) (map snd (blocks_tokens xs)) \<Longrightarrow> list_all ordered_entry (blocks_entries xs)"
  by (induction x and xs rule: block_tokens_blocks_tokens.induct)
    (auto simp: sorted_wrt_append ordered_entry_def)

lemma token_entries:
  "(k, q) \<in> set (block_tokens x) \<Longrightarrow> (k = KwIf \<longrightarrow> (\<exists>e \<in> set (block_entries x). ifPosition e = q)) \<and>
    (k = KwElse \<longrightarrow> (\<exists>e \<in> set (block_entries x). elsePosition e = q))"
  "(k, q) \<in> set (blocks_tokens xs) \<Longrightarrow> (k = KwIf \<longrightarrow> (\<exists>e \<in> set (blocks_entries xs). ifPosition e = q)) \<and>
    (k = KwElse \<longrightarrow> (\<exists>e \<in> set (blocks_entries xs). elsePosition e = q))"
  by (induction x and xs rule: block_tokens_blocks_tokens.induct) auto

lemma entry_tokens:
  "e \<in> set (block_entries x) \<Longrightarrow> endifPosition e \<in> snd ` set (block_tokens x) \<and>
    (elsePosition e \<noteq> -1 \<longrightarrow> elsePosition e \<in> snd ` set (block_tokens x))"
  "e \<in> set (blocks_entries xs) \<Longrightarrow> endifPosition e \<in> snd ` set (blocks_tokens xs) \<and>
    (elsePosition e \<noteq> -1 \<longrightarrow> elsePosition e \<in> snd ` set (blocks_tokens xs))"
  by (induction x and xs rule: block_tokens_blocks_tokens.induct) auto

lemma search_entry_found:
  assumes "e \<in> set es" "P e"
  shows "search_entry P es 0 < length es \<and> P (es ! search_entry P es 0)"
proof -
  let ?n = "length (takeWhile (\<lambda>e. \<not> P e) es)"
  have n: "?n < length es" using assms by (induction es) auto
  then have "search_entry P es 0 = ?n" by (simp add: search_entry_def)
  then show ?thesis using n nth_length_takeWhile [OF n] by simp
qed

subsection \<open>Lines that do not jump\<close>

definition same_frame :: "script_state \<Rightarrow> script_state \<Rightarrow> bool" where
  "same_frame st s \<longleftrightarrow> pc s = pc st \<and> argumentList s = argumentList st \<and>
     stringDeclaration s = stringDeclaration st \<and>
     map positions (ifStatementList s) = map positions (ifStatementList st)"

lemma positions_update [simp]:
  "map positions (es[j := (es ! j)\<lparr>validAssertion := b\<rparr>]) = map positions es"
proof (cases "j < length es")
  case True
  have "positions ((es ! j)\<lparr>validAssertion := b\<rparr>) = map positions es ! j"
    using True by (simp add: positions_def)
  then show ?thesis by (simp add: map_update list_update_id)
qed (simp add: list_update_beyond)

lemma exec_function_frame:
  assumes "arg_value (arg st i) \<notin> {0, 1, 3}"
  shows "running_all (same_frame st) (exec_function env labels i st)"
proof -
  let ?P = "same_frame st"
  have io: "running_all ?P (io_step st s)" "running_all ?P (accumulate r st)" "running_all ?P (exec_unary f st)" for s r f
    by (simp_all add: io_step_def accumulate_def exec_unary_def same_frame_def)
  have st: "?P st" by (simp add: same_frame_def)
  have "running_all ?P (exec_ENDIF st)"
    by (simp add: exec_ENDIF_def same_frame_def Let_def split: option.split)
  moreover have "running_all ?P (exec_GPI env st)" "running_all ?P (exec_SPIR env st)" "running_all ?P (exec_XPAD env st)"
    using st io by (simp_all add: exec_GPI_def exec_SPIR_def exec_XPAD_def split: prod.split)
  moreover have "running_all ?P (exec_GPO env st)" "running_all ?P (exec_LED st)" "running_all ?P (exec_LCDW env st)"
    using st io by (simp_all add: exec_GPO_def exec_LED_def exec_LCDW_def split: option.split)
  moreover have "running_all ?P (exec_VAR i st)"
    by (simp add: exec_VAR_def same_frame_def Let_def split: option.split)
  ultimately show ?thesis using assms io by (simp add: exec_function_def Let_def)
qed

definition jump_arg :: "script_arg \<Rightarrow> bool" where
  "jump_arg a \<longleftrightarrow> arg_type a = ARGTYPE_FUNCTION \<and> arg_value a \<in> {0, 1, 3}"

lemma exec_arg_frame:
  assumes "\<not> jump_arg (arg st i)" "1 \<le> i"
  shows "running_all (same_frame st) (exec_arg env labels i st)"
  using assms exec_function_frame [of st i env labels]
  by (auto simp: exec_arg_def jump_arg_def operand_def same_frame_def split: arg_type.split option.split)

text \<open>The first argument may also be assigned to, which changes its value in the list.\<close>

definition same_position :: "script_state \<Rightarrow> script_state \<Rightarrow> bool" where
  "same_position st s \<longleftrightarrow> pc s = pc st \<and> length (argumentList s) = length (argumentList st) \<and>
     stringDeclaration s = stringDeclaration st \<and>
     map positions (ifStatementList s) = map positions (ifStatementList st)"

lemma same_frame_position: "same_frame st s \<Longrightarrow> same_position st s"
  by (simp add: same_frame_def same_position_def)

lemma exec_arg_position:
  assumes "\<not> jump_arg (arg st 0)"
  shows "running_all (same_position st) (exec_arg env labels 0 st)"
proof (cases "arg_type (arg st 0)")
  case ARGTYPE_FUNCTION
  then have "running_all (same_frame st) (exec_function env labels 0 st)"
    using assms exec_function_frame by (simp add: jump_arg_def)
  then show ?thesis using ARGTYPE_FUNCTION same_frame_position
    by (auto simp: exec_arg_def running_all_def split: line_result.splits)
qed (auto simp: exec_arg_def operand_def assign_variable_def same_position_def Let_def split: option.split prod.split)

subsection \<open>Lines that jump\<close>

definition at_line :: "string \<Rightarrow> int \<Rightarrow> bool" where
  "at_line script x \<longleftrightarrow> 0 \<le> x \<and> (int (length script) \<le> x \<or> nat x \<in> fst ` set (lines_at 0 script))"

lemma at_line_next:
  assumes "(p, l) \<in> set (lines_at 0 script)"
  shows "at_line script (int (p + length l + 1))"
  using lines_at_line [OF assms] by (auto simp: at_line_def nat_add_distrib)

definition forward :: "string \<Rightarrow> script_state \<Rightarrow> script_state \<Rightarrow> bool" where
  "forward script st s \<longleftrightarrow> pc st \<le> pc s \<and> (pc s = pc st \<or> at_line script (pc s)) \<and>
     length (argumentList s) = length (argumentList st) \<and> stringDeclaration s = stringDeclaration st \<and>
     map positions (ifStatementList s) = map positions (ifStatementList st)"

lemma forward_position: "same_position st s \<Longrightarrow> forward script st s"
  by (simp add: same_position_def forward_def)

definition jump_ok :: "string \<Rightarrow> ifStatementEntry \<Rightarrow> bool" where
  "jump_ok script e \<longleftrightarrow> ordered_entry e \<and> at_line script (endifPosition e) \<and>
     (elsePosition e \<noteq> -1 \<longrightarrow> at_line script (elsePosition e))"

lemma jump_ok_positions: "positions e = positions e' \<Longrightarrow> jump_ok script e = jump_ok script e'"
  by (simp add: positions_def jump_ok_def ordered_entry_def)

lemma exec_IF_forward:
  assumes "e \<in> set (ifStatementList st)" "ifPosition e = pc st"
    and "\<And>e. e \<in> set (ifStatementList st) \<Longrightarrow> jump_ok script e"
  shows "running_all (forward script st) (exec_IF i st)"
proof -
  let ?es = "ifStatementList st"
  let ?j = "search_entry (\<lambda>e. ifPosition e = pc st) ?es 0"
  have j: "?j < length ?es" "ifPosition (?es ! ?j) = pc st"
    using search_entry_found [where P = "\<lambda>e. ifPosition e = pc st", OF assms(1,2)] by auto
  then have "jump_ok script (?es ! ?j)" using assms(3) by simp
  then show ?thesis using j
    by (auto simp: exec_IF_def Let_def forward_def jump_ok_def ordered_entry_def
        split: option.split bool.split)
qed

lemma exec_ELSE_forward:
  assumes "e \<in> set (ifStatementList st)" "elsePosition e = pc st" "0 \<le> pc st"
    and "\<And>e. e \<in> set (ifStatementList st) \<Longrightarrow> jump_ok script e"
  shows "running_all (forward script st) (exec_ELSE st)"
proof -
  let ?es = "ifStatementList st"
  let ?j = "search_entry (\<lambda>e. elsePosition e = pc st) ?es 0"
  have j: "?j < length ?es" "elsePosition (?es ! ?j) = pc st"
    using search_entry_found [where P = "\<lambda>e. elsePosition e = pc st", OF assms(1,2)] by auto
  then have "jump_ok script (?es ! ?j)" using assms(4) by simp
  then show ?thesis using j assms(3)
    by (auto simp: exec_ELSE_def Let_def forward_def jump_ok_def ordered_entry_def)
qed

subsection \<open>Structured scripts\<close>

text \<open>No line has a GOTO, and IF and ELSE come first on their line, as the word of the line.\<close>

definition structured_line :: "string \<Rightarrow> nat \<times> string \<Rightarrow> bool" where
  "structured_line script pl =
    (case line_args 5 (takeWhile (\<lambda>c. c \<noteq> NUL) (snd pl)) 0 False of
       None \<Rightarrow> True
     | Some (ts, _) \<Rightarrow>
         list_all (\<lambda>t. t \<noteq> ''GOTO'') ts \<and> list_all (\<lambda>t. t \<noteq> ''IF'' \<and> t \<noteq> ''ELSE'') (drop 1 ts) \<and>
         (take 1 ts = [''IF''] \<longrightarrow> if_word script (fst pl) = Some ''IF'') \<and>
         (take 1 ts = [''ELSE''] \<longrightarrow> if_word script (fst pl) = Some ''ELSE''))"

definition structured_script :: "string \<Rightarrow> bool" where
  "structured_script script = list_all (structured_line script) (lines_at 0 script)"

lemma arg_end_closed: "arg_end buf p sd = Some (e, sd') \<Longrightarrow> \<not> sd'"
proof (induction buf p sd rule: arg_end.induct)
  case (1 buf p sd)
  have c: "checkEndOfArgument buf p sd = (d, False) \<Longrightarrow> \<not> d" for d
    by (auto simp: checkEndOfArgument_def Let_def split: if_splits)
  obtain d g where dg: "checkEndOfArgument buf p sd = (d, g)" by (cases "checkEndOfArgument buf p sd")
  show ?case using 1 dg c by (subst (asm) (2) arg_end.simps) (auto split: if_splits)
qed

lemma line_args_closed: "line_args n buf p False = Some (ts, sd') \<Longrightarrow> \<not> sd' \<and> length ts \<le> n"
proof (induction n arbitrary: p ts sd')
  case (Suc n)
  show ?case
  proof (cases "length buf \<le> p")
    case False
    then obtain e sd1 ts1 where "arg_end buf (p + 1) False = Some (e, sd1)"
      "line_args n buf (skip_separators buf e) sd1 = Some (ts1, sd')" "length ts = Suc (length ts1)"
      using Suc.prems by (auto split: option.splits if_splits)
    then show ?thesis using Suc.IH [of "skip_separators buf e" ts1 sd'] arg_end_closed by fastforce
  qed (use Suc.prems in simp)
qed simp

lemma index_of_nth: "index_of x xs = Some i \<Longrightarrow> i < length xs \<and> xs ! i = x"
  by (induction xs arbitrary: i) (auto split: if_splits)

lemma decode_into_function:
  assumes "arg_type (decode_into vs t a) = ARGTYPE_FUNCTION"
  shows "\<exists>i < 20. arg_value (decode_into vs t a) = int i \<and> functionCallList ! i = t"
proof (cases "index_of t functionCallList")
  case (Some i)
  then show ?thesis using index_of_nth [OF Some]
    by (intro exI [of _ i]) (simp add: decode_into_def decodeArgument_def functionCallList_def)
next
  case None
  then show ?thesis using assms
    by (auto simp: decode_into_def decodeArgument_def split: option.splits if_splits)
qed

lemma decode_into_jump:
  assumes "jump_arg (decode_into vs t a)"
  shows "(arg_value (decode_into vs t a) = 0 \<longrightarrow> t = ''IF'') \<and> (arg_value (decode_into vs t a) = 1 \<longrightarrow> t = ''ELSE'') \<and>
    (arg_value (decode_into vs t a) = 3 \<longrightarrow> t = ''GOTO'')"
  using decode_into_function [of vs t a] assms by (auto simp: jump_arg_def functionCallList_def)

lemma decode_args_nth:
  "k < length as \<Longrightarrow> decode_args vs ts as ! k = (if k < length ts then decode_into vs (ts ! k) (as ! k) else as ! k)"
  by (induction vs ts as arbitrary: k rule: decode_args.induct) (auto simp: nth_Cons split: nat.split)

lemma decode_args_length [simp]: "length (decode_args vs ts as) = length as"
  by (induction vs ts as rule: decode_args.induct) auto

subsection \<open>Every line moves forward\<close>

lemma entries_jump_ok:
  assumes "if_tokens script (lines_at 0 script) = Some (blocks_tokens bs)"
    and "map positions es = map positions (blocks_entries bs)" "e \<in> set es"
  shows "jump_ok script e"
proof -
  obtain e' where e': "e' \<in> set (blocks_entries bs)" "positions e = positions e'"
    using assms(2,3) by (metis (mono_tags) imageE image_eqI list.set_map)
  have "ordered_entry e'"
    using entries_ordered(2) [of bs] if_tokens_sorted [OF assms(1)] e'(1) by (simp add: list_all_iff)
  moreover have "at_line script x" if "x \<in> snd ` set (blocks_tokens bs)" for x
    using that if_tokens_line [OF assms(1)] at_line_next by fastforce
  ultimately show ?thesis
    using entry_tokens(2) [OF e'(1)] jump_ok_positions [OF e'(2)] by (simp add: jump_ok_def)
qed

lemma keyword_entry:
  assumes "if_tokens script (lines_at 0 script) = Some (blocks_tokens bs)"
    and "map positions es = map positions (blocks_entries bs)"
    and "(p, l) \<in> set (lines_at 0 script)" "if_word script p = Some w"
  shows "w = ''IF'' \<Longrightarrow> \<exists>e \<in> set es. ifPosition e = int (p + length l + 1)"
    and "w = ''ELSE'' \<Longrightarrow> \<exists>e \<in> set es. elsePosition e = int (p + length l + 1)"
proof -
  have tr: "\<exists>e \<in> set es. f (positions e) = x" if "\<exists>e \<in> set (blocks_entries bs). f (positions e) = x" for f and x :: int
    using that assms(2) by (metis (mono_tags) imageE image_eqI list.set_map)
  have mem: "keyword_of w = Some k \<Longrightarrow> (k, int (p + length l + 1)) \<in> set (blocks_tokens bs)" for k
    using if_tokens_mem [OF assms(1,3,4)] .
  show "w = ''IF'' \<Longrightarrow> \<exists>e \<in> set es. ifPosition e = int (p + length l + 1)"
    using token_entries(2) [OF mem [of KwIf]] tr [of fst] by (simp add: keyword_of_def positions_def)
  show "w = ''ELSE'' \<Longrightarrow> \<exists>e \<in> set es. elsePosition e = int (p + length l + 1)"
    using token_entries(2) [OF mem [of KwElse]] tr [of "fst \<circ> snd"] by (simp add: keyword_of_def positions_def)
qed

lemma exec_first_forward:
  assumes tok: "if_tokens script (lines_at 0 script) = Some (blocks_tokens bs)"
    and es: "map positions (ifStatementList st) = map positions (blocks_entries bs)"
    and pl: "(p, l) \<in> set (lines_at 0 script)" "pc st = int (p + length l + 1)"
    and "arg_value (arg st 0) = 0 \<Longrightarrow> jump_arg (arg st 0) \<Longrightarrow> if_word script p = Some ''IF''"
    and "arg_value (arg st 0) = 1 \<Longrightarrow> jump_arg (arg st 0) \<Longrightarrow> if_word script p = Some ''ELSE''"
    and "\<not> (arg_value (arg st 0) = 3 \<and> jump_arg (arg st 0))"
  shows "running_all (forward script st) (exec_arg env labels 0 st)"
proof (cases "jump_arg (arg st 0)")
  case False
  then show ?thesis using exec_arg_position [of st env labels] forward_position
    by (auto simp: running_all_def split: line_result.splits)
next
  case True
  then consider "arg_value (arg st 0) = 0" | "arg_value (arg st 0) = 1" using assms(7) by (auto simp: jump_arg_def)
  then show ?thesis
  proof cases
    case 1
    then obtain e where "e \<in> set (ifStatementList st)" "ifPosition e = pc st"
      using keyword_entry(1) [OF tok es pl(1) assms(5) [OF 1 True]] pl(2) by auto
    from exec_IF_forward [OF this entries_jump_ok [OF tok es]] show ?thesis
      using 1 True by (simp add: exec_arg_def exec_function_def jump_arg_def)
  next
    case 2
    then obtain e where "e \<in> set (ifStatementList st)" "elsePosition e = pc st"
      using keyword_entry(2) [OF tok es pl(1) assms(6) [OF 2 True]] pl(2) by auto
    from exec_ELSE_forward [OF this _ entries_jump_ok [OF tok es]] show ?thesis
      using 2 True pl(2) by (simp add: exec_arg_def exec_function_def jump_arg_def)
  qed
qed

lemma takeWhile_take: "takeWhile P (take n xs) = take n (takeWhile P xs)"
  by (induction xs arbitrary: n) (auto simp: take_Cons split: nat.split)

definition run_inv :: "string \<Rightarrow> ifStatementEntry list \<Rightarrow> script_state \<Rightarrow> bool" where
  "run_inv script es st \<longleftrightarrow> at_line script (pc st) \<and> \<not> stringDeclaration st \<and>
     length (argumentList st) = 5 \<and> map positions (ifStatementList st) = map positions es"

lemma no_jump_token:
  "t \<noteq> ''IF'' \<Longrightarrow> t \<noteq> ''ELSE'' \<Longrightarrow> t \<noteq> ''GOTO'' \<Longrightarrow> \<not> jump_arg (decode_into vs t a)"
  using decode_into_jump [of vs t a] by (auto simp: jump_arg_def)

text \<open>The arguments in use after decoding are those of the tokens of the line.\<close>

lemma decode_args_used:
  assumes "length as = 5" "list_all (\<lambda>a. \<not> arg_exist a) as" "k < 5" "arg_exist (decode_args vs ts as ! k)"
  shows "k < length ts \<and> decode_args vs ts as ! k = decode_into vs (ts ! k) (as ! k)"
  using assms decode_args_nth [of k as vs ts] by (auto simp: list_all_length split: if_splits)

lemma upper_args_plain:
  assumes "length as = 5" "list_all (\<lambda>a. \<not> arg_exist a) as" "Suc k < 5" "arg_exist (decode_args vs ts as ! Suc k)"
    and "list_all (\<lambda>t. t \<noteq> ''GOTO'') ts" "list_all (\<lambda>t. t \<noteq> ''IF'' \<and> t \<noteq> ''ELSE'') (drop 1 ts)"
  shows "\<not> jump_arg (decode_args vs ts as ! Suc k)"
proof -
  have u: "Suc k < length ts" "decode_args vs ts as ! Suc k = decode_into vs (ts ! Suc k) (as ! Suc k)"
    using decode_args_used [OF assms(1-4)] by blast+
  have "drop 1 ts ! k = ts ! Suc k" "k < length (drop 1 ts)" using u(1) by simp_all
  then have "ts ! Suc k \<in> set (drop 1 ts)" by (metis nth_mem)
  moreover have "ts ! Suc k \<in> set ts" using u(1) by (rule nth_mem)
  ultimately have "ts ! Suc k \<noteq> ''IF'' \<and> ts ! Suc k \<noteq> ''ELSE'' \<and> ts ! Suc k \<noteq> ''GOTO''"
    using assms(5,6) unfolding list_all_iff by blast
  then show ?thesis unfolding u(2) using no_jump_token by blast
qed

lemma same_frame_trans:
  "same_frame st s \<Longrightarrow> running_all (same_frame s) r \<Longrightarrow> running_all (same_frame st) r"
  "same_frame st s \<Longrightarrow> running_all (forward script s) r \<Longrightarrow> running_all (forward script st) r"
  by (auto simp: running_all_def same_frame_def forward_def split: line_result.splits)

lemma exec_line_forward:
  assumes tok: "if_tokens script (lines_at 0 script) = Some (blocks_tokens bs)" and "structured_script script"
    and pl: "(p, l) \<in> set (lines_at 0 script)" "pc st = int (p + length l + 1)"
    and ts: "line_args 5 (takeWhile (\<lambda>c. c \<noteq> NUL) l) 0 False = Some (ts, sd)"
    and args: "argumentList st = decode_args vs ts as" "length as = 5" "list_all (\<lambda>a. \<not> arg_exist a) as"
    and es: "map positions (ifStatementList st) = map positions (blocks_entries bs)"
  shows "running_all (forward script st) (exec_args env labels 5 st)"
proof -
  have "structured_line script (p, l)" using assms(2) pl(1) by (simp add: structured_script_def list_all_iff)
  then have str: "list_all (\<lambda>t. t \<noteq> ''GOTO'') ts" "list_all (\<lambda>t. t \<noteq> ''IF'' \<and> t \<noteq> ''ELSE'') (drop 1 ts)"
      "take 1 ts = [''IF''] \<longrightarrow> if_word script p = Some ''IF''" "take 1 ts = [''ELSE''] \<longrightarrow> if_word script p = Some ''ELSE''"
    by (simp_all add: structured_line_def ts)
  have first: "running_all (forward script st) (exec_arg env labels 0 s)"
    if s: "same_frame st s" "arg_exist (arg s 0)" for s
  proof (rule same_frame_trans(2) [OF s(1)])
    have "arg s 0 = decode_args vs ts as ! 0" using s(1) args(1) by (simp add: same_frame_def)
    then obtain t ts' where "ts = t # ts'" "arg s 0 = decode_into vs t (as ! 0)"
      using decode_args_used [OF args(2,3), of 0 vs ts] s(2) by (cases ts) auto
    then show "running_all (forward script s) (exec_arg env labels 0 s)"
      using decode_into_jump [of vs t "as ! 0"] str s(1) es pl
      by (intro exec_first_forward [OF tok _ pl(1)]) (auto simp: same_frame_def)
  qed
  have "running_all (forward script st) (exec_args env labels (Suc 4) st)"
  proof (rule exec_args_running_all [where P = "same_frame st"])
    fix i s assume i: "1 \<le> i" "i \<le> 4" "same_frame st s" "arg_exist (arg s i)"
    then have "\<not> jump_arg (arg s i)"
      using upper_args_plain [OF args(2,3) _ _ str(1,2), of "i - 1" vs] args(1) by (cases i) (auto simp: same_frame_def)
    then show "running_all (same_frame st) (exec_arg env labels i s)"
      using i by (intro same_frame_trans(1) [OF i(3) exec_arg_frame])
  qed (use first in \<open>auto simp: same_frame_def forward_def\<close>)
  then show ?thesis by simp
qed

lemma label_pass_short:
  "label_pass ls acc = Some labels \<Longrightarrow> (p, CHR ''$'' # l) \<in> set ls \<Longrightarrow> length (CHR ''$'' # l) < 100"
  by (induction ls acc rule: label_pass.induct) (auto split: if_splits)

lemma forward_run_inv:
  assumes "running_all (forward script st) r" "run_inv script es st"
  shows "running_all (\<lambda>s. pc st \<le> pc s \<and> run_inv script es s) r"
  using assms by (auto simp: running_all_def forward_def run_inv_def split: line_result.splits)

lemma exec_line_inv:
  assumes tok: "if_tokens script (lines_at 0 script) = Some (blocks_tokens bs)" and str: "structured_script script"
    and pl: "(p, l) \<in> set (lines_at 0 script)" and inv: "run_inv script (blocks_entries bs) st"
  shows "running_all (\<lambda>s. int p < pc s \<and> run_inv script (blocks_entries bs) s)
    (exec_line env labels (int (p + length l + 1)) l st)"
proof -
  obtain esc s where e: "emergencyEscape env (script_io st) = (esc, s)" by (cases "emergencyEscape env (script_io st)")
  define st1 where "st1 = st\<lparr>pc := int (p + length l + 1), argumentList := map clean_arg (argumentList st), script_io := s\<rparr>"
  have sd: "stringDeclaration st1 = False" "length (argumentList st1) = 5"
    "list_all (\<lambda>a. \<not> arg_exist a) (argumentList st1)"
    using inv by (simp_all add: st1_def run_inv_def clean_arg_def list_all_iff)
  have ex: "exec_line env labels (int (p + length l + 1)) l st =
    (if esc then Ended st1
     else (case line_args 5 (takeWhile (\<lambda>c. c \<noteq> NUL) l) 0 (stringDeclaration st1) of
             None \<Rightarrow> Stuck
           | Some (ts, sd) \<Rightarrow> exec_args env labels 5 (st1\<lparr>stringDeclaration := sd,
               argumentList := decode_args (variableList st1) ts (argumentList st1),
               arithOpInLine := -1, accumulatorInUse := False\<rparr>)))"
    by (simp only: exec_line_def e prod.case Let_def st1_def)
  show ?thesis
  proof (cases "line_args 5 (takeWhile (\<lambda>c. c \<noteq> NUL) l) 0 False")
    case None
    then show ?thesis unfolding ex sd(1) by simp
  next
    case (Some r)
    obtain ts d where r: "r = (ts, d)" by (cases r)
    define st2 where "st2 = st1\<lparr>stringDeclaration := d,
      argumentList := decode_args (variableList st1) ts (argumentList st1), arithOpInLine := -1, accumulatorInUse := False\<rparr>"
    have pc2: "pc st2 = int (p + length l + 1)" by (simp add: st2_def st1_def)
    have inv2: "run_inv script (blocks_entries bs) st2"
      using inv sd at_line_next [OF pl] line_args_closed [OF Some [unfolded r]]
      by (simp add: run_inv_def st2_def st1_def)
    have "running_all (forward script st2) (exec_args env labels 5 st2)"
      using inv2 sd(2,3)
      by (intro exec_line_forward [OF tok str pl pc2 Some [unfolded r]]) (simp_all add: st2_def run_inv_def)
    from forward_run_inv [OF this inv2] have
      "running_all (\<lambda>s. int p < pc s \<and> run_inv script (blocks_entries bs) s) (exec_args env labels 5 st2)"
      by (auto simp: running_all_def pc2 split: line_result.splits)
    then show ?thesis unfolding ex sd(1) Some r option.case prod.case st2_def [symmetric] by simp
  qed
qed

lemma run_line_forward:
  assumes tok: "if_tokens script (lines_at 0 script) = Some (blocks_tokens bs)" and str: "structured_script script"
    and lab: "parseFileForLabels script = Some labels0"
    and inv: "run_inv script (blocks_entries bs) st" and pc: "pc st < int (length script)"
  shows "running_all (\<lambda>s. pc st < pc s \<and> run_inv script (blocks_entries bs) s) (run_line env script labels st)"
proof -
  define p where "p = nat (pc st)"
  have pos: "pc st = int p" using inv by (simp add: p_def run_inv_def at_line_def)
  obtain l where pl: "(p, l) \<in> set (lines_at 0 script)"
    using inv pc by (auto simp: run_inv_def at_line_def p_def)
  have l: "l = takeWhile (\<lambda>c. c \<noteq> NL) (drop p script)" "p < length script"
    using lines_at_line [OF pl] by auto
  have l100: "takeWhile (\<lambda>c. c \<noteq> NL) (take 100 (drop p script)) = take 100 l"
    unfolding l(1) by (rule takeWhile_take)
  have run: "run_line env script labels st =
      (if script ! p = CHR ''$'' then Running (st\<lparr>pc := int (p + length l + 1)\<rparr>)
       else exec_line env labels (int (p + length l + 1)) l st)" if "length l < 100"
    using that by (simp add: run_line_def l100 p_def [symmetric] Let_def)
  show ?thesis
  proof (cases "length l < 100")
    case True
    have "run_inv script (blocks_entries bs) (st\<lparr>pc := int (p + length l + 1)\<rparr>)"
      using inv at_line_next [OF pl] by (simp add: run_inv_def)
    then show ?thesis using run [OF True] exec_line_inv [OF tok str pl inv] pos by simp
  next
    case False
    have "script ! p \<noteq> CHR ''$''"
    proof
      assume a: "script ! p = CHR ''$''"
      have "drop p script = script ! p # drop (Suc p) script" using l(2) by (simp add: Cons_nth_drop_Suc)
      then obtain l' where "l = CHR ''$'' # l'" using a l(1) by simp
      then show False using label_pass_short lab pl False unfolding parseFileForLabels_def by blast
    qed
    then show ?thesis using False by (simp add: run_line_def l100 p_def [symmetric] Let_def)
  qed
qed

lemma run_loop_stop:
  "\<not> (0 \<le> pc st \<and> pc st < int (length script)) \<Longrightarrow> run_loop n env script labels st = ScriptDone st"
  by (subst run_loop.simps) (rule if_not_P)

lemma run_loop_line:
  assumes "0 \<le> pc st \<and> pc st < int (length script)"
  shows "run_loop 0 env script labels st = ScriptFuel"
    and "run_loop (Suc n) env script labels st =
      (case run_line env script labels st of
         Stuck \<Rightarrow> ScriptStuck | Ended st' \<Rightarrow> ScriptDone st' | Running st' \<Rightarrow> run_loop n env script labels st')"
  using assms by (subst run_loop.simps, simp)+

text \<open>More lines than a finished run needs do not change it.\<close>

lemma run_loop_fuel_mono:
  "run_loop n env script labels st \<noteq> ScriptFuel \<Longrightarrow> n \<le> m \<Longrightarrow>
    run_loop m env script labels st = run_loop n env script labels st"
proof (induction n arbitrary: m st)
  case 0
  then show ?case using run_loop_stop run_loop_line(1) by metis
next
  case (Suc n)
  obtain m' where m: "m = Suc m'" "n \<le> m'" using Suc.prems(2) by (cases m) auto
  show ?case
  proof (cases "0 \<le> pc st \<and> pc st < int (length script)")
    case True
    show ?thesis using Suc.prems(1) Suc.IH [OF _ m(2)] unfolding m(1) run_loop_line(2) [OF True]
      by (cases "run_line env script labels st") simp_all
  next
    case False
    then show ?thesis using run_loop_stop by metis
  qed
qed

lemma run_loop_ends:
  assumes "if_tokens script (lines_at 0 script) = Some (blocks_tokens bs)" "structured_script script"
    and "parseFileForLabels script = Some labels0"
    and "run_inv script (blocks_entries bs) st" "length script - nat (pc st) \<le> n"
  shows "run_loop n env script labels st \<noteq> ScriptFuel"
  using assms(4,5)
proof (induction n arbitrary: st)
  case 0
  then have "int (length script) \<le> pc st" by (auto simp: run_inv_def at_line_def)
  then show ?case by (simp add: run_loop_stop)
next
  case (Suc n)
  show ?case
  proof (cases "pc st < int (length script)")
    case True
    note f = run_line_forward [OF assms(1-3) Suc.prems(1) True, of env labels]
    have pc: "0 \<le> pc st" using Suc.prems(1) by (simp add: run_inv_def at_line_def)
    show ?thesis
    proof (cases "run_line env script labels st")
      case (Running st')
      then have "run_inv script (blocks_entries bs) st'" "pc st < pc st'" using f by simp_all
      then have "run_loop n env script labels st' \<noteq> ScriptFuel"
        using Suc.IH [of st'] Suc.prems(2) pc True by linarith
      then show ?thesis using Running pc True by (simp add: run_loop_line(2))
    qed (use pc True in \<open>simp_all add: run_loop_line(2)\<close>)
  qed (simp add: run_loop_stop)
qed

text \<open>C22: a structured script leaves the interpreter loop. The conditions are that the IF, ELSE and ENDIF of the
  script are nested blocks, that every IF in the part before an ELSE has an ELSE of its own, and that the
  arguments of every line, as the interpreter cuts them, have no GOTO and have IF and ELSE only in
  front, where the first pass saw them. Then, whatever the parameters and the hardware answer, with as many
  rounds as the script has characters the run has ended or has come to a line without meaning in C, and
  more rounds give the same result.\<close>

theorem structured_script_ends:
  assumes "if_tokens script (lines_at 0 script) = Some (blocks_tokens bs)" and "elses_complete bs"
    and "structured_script script" and "length script \<le> fuel"
  shows "(runScript fuel env script params s = ScriptStuck \<or> (\<exists>st. runScript fuel env script params s = ScriptDone st)) \<and>
    runScript fuel env script params s = runScript (length script) env script params s"
proof (cases "parseFileForLabels script")
  case (Some labels)
  let ?st = "initial_state params (blocks_entries bs) s"
  have p: "parseFileForIFStatements script = Some (True, blocks_entries bs)" using assms(1,2) by (rule parse_blocks)
  have "at_line script 0" by (cases "script = []") (simp_all add: at_line_def lines_at_Cons)
  then have "run_inv script (blocks_entries bs) ?st" by (simp add: run_inv_def initial_state_def)
  from run_loop_ends [OF assms(1,3) Some this, of "length script" env labels]
  have e: "run_loop (length script) env script labels ?st \<noteq> ScriptFuel" by (simp add: initial_state_def)
  have r: "runScript n env script params s = run_loop n env script labels ?st" for n
    by (simp add: runScript_def Some p)
  show ?thesis
    unfolding r run_loop_fuel_mono [OF e assms(4)] using e
    by (cases "run_loop (length script) env script labels ?st") simp_all
qed (simp add: runScript_def)

definition sample_script :: string where
  "sample_script = script_of [''VARx=1'', ''IF(x==2)'', ''FAN(20)'', ''ELSE'', ''IF(x==1)'', ''FAN(50)'', ''ENDIF'', ''ENDIF'']"

theorem structured_script_ends_witness:
  "length sample_script = 58 \<and>
   (runScript 1000 idle_env sample_script [] idle_io = ScriptStuck \<or> (\<exists>st. runScript 1000 idle_env sample_script [] idle_io = ScriptDone st)) \<and>
   runScript 1000 idle_env sample_script [] idle_io = runScript 58 idle_env sample_script [] idle_io"
proof -
  let ?bs = "[IfThenElse 16 [] 29 [IfThen 38 [] 52] 59]"
  have t: "if_tokens sample_script (lines_at 0 sample_script) = Some (blocks_tokens ?bs)" by code_simp
  have c: "elses_complete ?bs" "structured_script sample_script" "length sample_script = 58" by code_simp+
  have l: "length sample_script \<le> 1000" unfolding c(3) by simp
  show ?thesis using structured_script_ends [OF t c(1,2) l, of idle_env "[]" idle_io] unfolding c(3) by blast
qed

subsection \<open>Scripts outside of the condition\<close>

text \<open>An inner IF without ELSE takes the ELSE of the outer one: the ELSE part runs although the outer
  condition is true.\<close>

lemma else_part_runs_after_true_if:
  "(case runScript 10 idle_env
      (script_of [''IF(1==1)'', ''IF(1==2)'', ''ENDIF'', ''ELSE'', ''FAN(20)'', ''ENDIF'']) [] idle_io of
      ScriptDone st \<Rightarrow> calls (script_io st) = [I2CSetFanSpeed 20] | _ \<Rightarrow> False)"
  by code_simp

text \<open>A script without GOTO that jumps from an ELSE back to the same line over and over; here for the
  first hundred lines.\<close>

lemma misplaced_else_loops:
  "runScript 100 idle_env
     (script_of [''IF(1==1)'', ''IF(1==1)'', ''IF(1==1)'', ''ELSE'', ''ENDIF'', ''ENDIF'', ''ELSE'', ''ENDIF'']) [] idle_io =
   ScriptFuel"
  by code_simp

text \<open>The difference of two numbers has the wrong sign, and the quotient is inverted.\<close>

lemma numeric_operands_reversed:
  "(case runScript 10 idle_env (script_of [''VARx'', ''x=10-3'', ''VARy'', ''y=10/40'']) [] idle_io of
      ScriptDone st \<Rightarrow> map var_value (drop 12 (variableList st)) = [-7, 4] | _ \<Rightarrow> False)"
  by code_simp

end
