(* ===== verification/BootLibrary.thy ===== *)
theory BootLibrary
  imports Xblast_Prelude
begin

text \<open>
  The memory manager of lib/misc/BootLibrary.c. Memory is handed out in clusters of 16 KB; the first
  cluster holds a table with one byte per cluster, in which an allocated block is a pattern of
  marker bytes. The table is a function from the cluster number, \<^verbatim>\<open>words\<close> is the memory in which \<^verbatim>\<open>malloc\<close>
  keeps the header in front of the memory it returns. Interrupt masking is left out.

  The abstract view is a map from start clusters to blocks. \<^verbatim>\<open>represents\<close> says that a table encodes such
  a map; \<^verbatim>\<open>t_malloc\<close> and \<^verbatim>\<open>t_free\<close> are then insertion of a block in free clusters and its removal.
\<close>

definition tolower :: "int \<Rightarrow> int" where
  "tolower ch = (if 65 \<le> ch \<and> ch < 91 then ch + 32 else ch)"

definition toupper :: "int \<Rightarrow> int" where
  "toupper ch = (if 97 \<le> ch \<and> ch \<le> 122 then 65 + ch - 97 else ch)"

record mem_manager =
  MemoryManagerStartAddress :: u32
  memsmall :: "nat \<Rightarrow> u8"
  words :: "u32 \<Rightarrow> u32"

definition MemoryManagerGetFree :: "mem_manager \<Rightarrow> nat" where
  "MemoryManagerGetFree m = length (filter (\<lambda>counter. memsmall m counter = 0) [0..<0x400])"

definition MemoryManagementInitialization :: "u32 \<Rightarrow> mem_manager \<Rightarrow> mem_manager" where
  "MemoryManagementInitialization pvStartAddress m =
    m\<lparr>MemoryManagerStartAddress := pvStartAddress,
      memsmall := (\<lambda>k. if k < 0x4000 then 0 else memsmall m k)(0 := 0xff)\<rparr>"

subsection \<open>Clusters\<close>

text \<open>The first cluster from which on \<^term>\<open>n\<close> clusters are free.\<close>

definition free_run :: "(nat \<Rightarrow> u8) \<Rightarrow> nat \<Rightarrow> nat \<Rightarrow> bool" where
  "free_run tab n counter = list_all (\<lambda>k. tab k = 0) [counter..<counter + n]"

definition first_fit :: "(nat \<Rightarrow> u8) \<Rightarrow> nat \<Rightarrow> nat option" where
  "first_fit tab n = List.find (free_run tab n) [1..<0x400]"

definition fill :: "nat \<Rightarrow> nat \<Rightarrow> u8 \<Rightarrow> (nat \<Rightarrow> u8) \<Rightarrow> nat \<Rightarrow> u8" where
  "fill c n b tab = (\<lambda>k. if c \<le> k \<and> k < c + n then b else tab k)"

definition mark_small :: "nat \<Rightarrow> (nat \<Rightarrow> u8) \<Rightarrow> nat \<Rightarrow> u8" where
  "mark_small c tab = tab(c := 0xAA)"

definition mark_mid :: "nat \<Rightarrow> (nat \<Rightarrow> u8) \<Rightarrow> nat \<Rightarrow> u8" where
  "mark_mid c tab = tab(c := 0xFE, c + 1 := 0xDC, c + 2 := 0xBA, c + 3 := 0xB8)"

definition mark_big :: "nat \<Rightarrow> nat \<Rightarrow> (nat \<Rightarrow> u8) \<Rightarrow> nat \<Rightarrow> u8" where
  "mark_big n c tab = (fill c n 0xFF tab)
     (c := 0xBB, c + 1 := 0xCC, c + n - 2 := 0xCC, c + n - 1 := 0xBB)"

definition needsectory :: "u32 \<Rightarrow> nat" where
  "needsectory sz = unat (((sz AND 0xffffc000) + 0x4000) div 0x4000)"

definition take_clusters :: "nat \<Rightarrow> (nat \<Rightarrow> (nat \<Rightarrow> u8) \<Rightarrow> nat \<Rightarrow> u8) \<Rightarrow> mem_manager \<Rightarrow> u32 \<times> mem_manager" where
  "take_clusters n mark m =
    (case first_fit (memsmall m) n of
       None \<Rightarrow> (0, m)
     | Some c \<Rightarrow> (MemoryManagerStartAddress m + word_of_nat c * 0x4000, m\<lparr>memsmall := mark c (memsmall m)\<rparr>))"

definition t_malloc :: "u32 \<Rightarrow> mem_manager \<Rightarrow> u32 \<times> mem_manager" where
  "t_malloc sz m =
    (if sz < 0x4000 + 1 then take_clusters 1 mark_small m
     else if sz < 0x10000 + 1 then take_clusters 4 mark_mid m
     else if sz < 5 * 1024 * 1024 + 1 then take_clusters (needsectory sz) (mark_big (needsectory sz)) m
     else (0, m))"

text \<open>The loop that clears a large block, with the rounds to go; it stops behind the closing pair or at
  the end of the searched part of the table.\<close>

fun clear_big :: "nat \<Rightarrow> nat \<Rightarrow> (nat \<Rightarrow> u8) \<Rightarrow> nat \<Rightarrow> u8" where
  "clear_big 0 counter tab = tab"
| "clear_big (Suc n) counter tab =
    (if tab counter = 0xCC \<and> tab (counter + 1) = 0xBB then tab(counter := 0, counter + 1 := 0)
     else clear_big n (counter + 1) (tab(counter := 0)))"

definition free_clusters :: "nat \<Rightarrow> (nat \<Rightarrow> u8) \<Rightarrow> nat \<Rightarrow> u8" where
  "free_clusters c tab =
    (if tab c = 0xAA then tab(c := 0)
     else if tab c = 0xFE \<and> tab (c + 1) = 0xDC \<and> tab (c + 2) = 0xBA \<and> tab (c + 3) = 0xB8
     then fill c 4 0 tab
     else if tab c = 0xBB \<and> tab (c + 1) = 0xCC \<and> tab (c + 2) = 0xFF \<and> tab (c + 3) = 0xFF
     then clear_big (0x400 - c) c tab
     else tab)"

definition t_free :: "u32 \<Rightarrow> mem_manager \<Rightarrow> mem_manager" where
  "t_free ptr m =
    (let temp = ptr - MemoryManagerStartAddress m
     in if temp AND 0xffffc000 = temp
        then m\<lparr>memsmall := free_clusters (unat (temp div 0x4000)) (memsmall m)\<rparr>
        else m)"

text \<open>The header is two words in front of the returned address: the cluster address and a magic number.
  The result of \<^verbatim>\<open>t_malloc\<close> is not tested.\<close>

definition malloc :: "u32 \<Rightarrow> mem_manager \<Rightarrow> u32 \<times> mem_manager" where
  "malloc sz m =
    (let temp = (sz + 0x200) AND 0xffFFff00;
         (block, m1) = t_malloc temp m;
         tempmalloc = (block + 0x100) AND 0xffFFff00
     in (tempmalloc, m1\<lparr>words := (words m1)(tempmalloc - 8 := block, tempmalloc - 4 := 0x1234567)\<rparr>))"

text \<open>\<^verbatim>\<open>memset\<close> to zero, as the table and the words see it: a word only whose first bytes are covered
  loses those.\<close>

definition memset0 :: "u32 \<Rightarrow> u32 \<Rightarrow> mem_manager \<Rightarrow> mem_manager" where
  "memset0 ptr n m = m\<lparr>
    memsmall := (\<lambda>k. if k < 0x4000 \<and> MemoryManagerStartAddress m + word_of_nat k - ptr < n then 0 else memsmall m k),
    words := (\<lambda>a. let d = a - ptr
      in if d < n then (if 4 \<le> n - d then 0 else words m a AND NOT (mask (8 * unat (n - d)))) else words m a)\<rparr>"

definition calloc :: "u32 \<Rightarrow> u32 \<Rightarrow> mem_manager \<Rightarrow> u32 \<times> mem_manager" where
  "calloc nmemb sz m = (let (ptr, m1) = malloc (nmemb * sz) m in (ptr, memset0 ptr (nmemb * sz) m1))"

definition free :: "u32 \<Rightarrow> mem_manager \<Rightarrow> mem_manager" where
  "free ptr m =
    (if ptr = 0 then m
     else if words m (ptr - 4) \<noteq> 0x1234567 then m
     else t_free (words m (ptr - 8)) m)"

subsection \<open>The abstract allocator\<close>

datatype block = Small | Mid | Big nat

fun block_size :: "block \<Rightarrow> nat" where
  "block_size Small = 1"
| "block_size Mid = 4"
| "block_size (Big n) = n"

fun block_cell :: "block \<Rightarrow> nat \<Rightarrow> u8" where
  "block_cell Small k = 0xAA"
| "block_cell Mid k = (if k = 0 then 0xFE else if k = 1 then 0xDC else if k = 2 then 0xBA else 0xB8)"
| "block_cell (Big n) k =
    (if k = n - 1 then 0xBB else if k = n - 2 then 0xCC else if k = 1 then 0xCC else if k = 0 then 0xBB else 0xFF)"

definition clusters :: "nat \<Rightarrow> block \<Rightarrow> nat set" where
  "clusters c b = {c..<c + block_size b}"

definition block_ok :: "block \<Rightarrow> bool" where
  "block_ok b \<longleftrightarrow> (case b of Big n \<Rightarrow> 5 \<le> n \<and> n \<le> 321 | _ \<Rightarrow> True)"

text \<open>Only the first 1024 clusters are searched. A large block that reaches over them is cleared only up
  to there, so nothing is said of the clusters behind that are not in use.\<close>

definition represents :: "(nat \<rightharpoonup> block) \<Rightarrow> (nat \<Rightarrow> u8) \<Rightarrow> bool" where
  "represents h tab \<longleftrightarrow>
    (\<forall>c b. h c = Some b \<longrightarrow> 1 \<le> c \<and> c < 0x400 \<and> block_ok b \<and> (\<forall>k < block_size b. tab (c + k) = block_cell b k)) \<and>
    (\<forall>c b c' b'. h c = Some b \<longrightarrow> h c' = Some b' \<longrightarrow> c \<noteq> c' \<longrightarrow> clusters c b \<inter> clusters c' b' = {}) \<and>
    (\<forall>k. 1 \<le> k \<longrightarrow> k < 0x400 \<longrightarrow> tab k \<noteq> 0 \<longrightarrow> (\<exists>c b. h c = Some b \<and> k \<in> clusters c b))"

definition mark_block :: "block \<Rightarrow> nat \<Rightarrow> (nat \<Rightarrow> u8) \<Rightarrow> nat \<Rightarrow> u8" where
  "mark_block b c tab = (\<lambda>k. if k \<in> clusters c b then block_cell b (k - c) else tab k)"

lemma clusters_cases:
  obtains "k \<notin> clusters c b" | i where "k = c + i" "i < block_size b" "k \<in> clusters c b"
proof (cases "k \<in> clusters c b")
  case True
  then have "k = c + (k - c)" "k - c < block_size b" by (auto simp: clusters_def)
  then show thesis using that(2) True by blast
qed (use that(1) in blast)

lemma mark_small_eq: "mark_small c tab = mark_block Small c tab"
  by (rule ext) (simp add: mark_small_def mark_block_def clusters_def)

lemma mark_mid_eq: "mark_mid c tab = mark_block Mid c tab"
proof
  fix k
  show "mark_mid c tab k = mark_block Mid c tab k"
  proof (cases k c Mid rule: clusters_cases)
    case 1
    then show ?thesis by (auto simp: mark_mid_def mark_block_def clusters_def)
  next
    case (2 i)
    then have "i = 0 \<or> i = 1 \<or> i = 2 \<or> i = 3" by auto
    then show ?thesis using 2 by (elim disjE) (simp_all add: mark_mid_def mark_block_def)
  qed
qed

lemma mark_big_eq:
  assumes "5 \<le> n"
  shows "mark_big n c tab = mark_block (Big n) c tab"
proof
  fix k
  show "mark_big n c tab k = mark_block (Big n) c tab k"
  proof (cases k c "Big n" rule: clusters_cases)
    case 1
    then have "k < c \<or> c + n \<le> k" by (auto simp: clusters_def)
    then have "k \<noteq> c + n - 1" "k \<noteq> c + n - 2" "k \<noteq> c + 1" "k \<noteq> c" "\<not> (c \<le> k \<and> k < c + n)"
      using assms by auto
    then show ?thesis unfolding mark_big_def mark_block_def fun_upd_apply fill_def using 1 by auto
  next
    case (2 i)
    then have i: "i < n" by simp
    have eq: "k = c + n - 1 \<longleftrightarrow> i = n - 1" "k = c + n - 2 \<longleftrightarrow> i = n - 2" "k = c + 1 \<longleftrightarrow> i = 1" "k = c \<longleftrightarrow> i = 0"
      using 2(1) i assms by auto
    show ?thesis unfolding mark_big_def mark_block_def fun_upd_apply eq using 2 i by (simp add: fill_def)
  qed
qed

lemmas mark_block_eq = mark_small_eq mark_mid_eq mark_big_eq

lemma block_cell_nonzero: "block_cell b k \<noteq> 0"
  by (cases b) auto

lemma block_ok_size: "block_ok b \<Longrightarrow> 1 \<le> block_size b"
  by (cases b) (auto simp: block_ok_def)

lemma representsD:
  assumes "represents h tab" "h c = Some b"
  shows "1 \<le> c" "c < 0x400" "block_ok b" "k \<in> clusters c b \<Longrightarrow> tab k = block_cell b (k - c)"
proof -
  show "1 \<le> c" "c < 0x400" "block_ok b" using assms unfolding represents_def by blast+
  have "\<forall>k < block_size b. tab (c + k) = block_cell b k" using assms unfolding represents_def by blast
  moreover assume "k \<in> clusters c b"
  then have "k = c + (k - c)" "k - c < block_size b" by (auto simp: clusters_def)
  ultimately show "tab k = block_cell b (k - c)" by metis
qed

lemma representsI:
  assumes "\<And>c b. h c = Some b \<Longrightarrow> 1 \<le> c \<and> c < 0x400 \<and> block_ok b"
    and "\<And>c b k. h c = Some b \<Longrightarrow> k \<in> clusters c b \<Longrightarrow> tab k = block_cell b (k - c)"
    and "\<And>c b c' b'. h c = Some b \<Longrightarrow> h c' = Some b' \<Longrightarrow> c \<noteq> c' \<Longrightarrow> clusters c b \<inter> clusters c' b' = {}"
    and "\<And>k. 1 \<le> k \<Longrightarrow> k < 0x400 \<Longrightarrow> tab k \<noteq> 0 \<Longrightarrow> \<exists>c b. h c = Some b \<and> k \<in> clusters c b"
  shows "represents h tab"
proof -
  have "tab (c + k) = block_cell b k" if "h c = Some b" "k < block_size b" for c b k
    using assms(2) [OF that(1), of "c + k"] that(2) by (simp add: clusters_def)
  then show ?thesis using assms(1,3,4) unfolding represents_def by blast
qed

subsection \<open>Allocation\<close>

lemma first_fit_Some:
  assumes "first_fit tab n = Some c"
  shows "1 \<le> c \<and> c < 0x400 \<and> free_run tab n c \<and> (\<forall>c'. 1 \<le> c' \<longrightarrow> c' < c \<longrightarrow> \<not> free_run tab n c')"
proof -
  obtain i where i: "i < length [1..<0x400]" "free_run tab n ([1..<0x400] ! i)" "c = [1..<0x400] ! i"
    "\<forall>j<i. \<not> free_run tab n ([1..<0x400] ! j)"
    using assms unfolding first_fit_def find_Some_iff by blast
  have c: "c = 1 + i" "i < 0x3ff" using i(1,3) by (simp_all del: upt_Suc)
  have "\<not> free_run tab n c'" if "1 \<le> c'" "c' < c" for c'
  proof -
    have "c' - 1 < i" "[1..<0x400] ! (c' - 1) = c'" using that c by (simp_all del: upt_Suc)
    then show ?thesis using i(4) by metis
  qed
  then show ?thesis using i(2,3) c by auto
qed

lemma first_fit_None: "first_fit tab n = None \<longleftrightarrow> (\<forall>c. 1 \<le> c \<longrightarrow> c < 0x400 \<longrightarrow> \<not> free_run tab n c)"
  unfolding first_fit_def find_None_iff by (auto simp del: upt_Suc)

lemma representsD_disjoint:
  "represents h tab \<Longrightarrow> h c = Some b \<Longrightarrow> h c' = Some b' \<Longrightarrow> c \<noteq> c' \<Longrightarrow> clusters c b \<inter> clusters c' b' = {}"
  unfolding represents_def by blast

lemma representsD_used:
  assumes "represents h tab" "1 \<le> k" "k < 0x400" "tab k \<noteq> 0"
  obtains c b where "h c = Some b" "k \<in> clusters c b"
  using assms unfolding represents_def by blast

lemma first_cluster: "block_ok b \<Longrightarrow> c \<in> clusters c b"
  using block_ok_size [of b] by (simp add: clusters_def)

lemma represents_insert:
  assumes r: "represents h tab" and c: "1 \<le> c" "c < 0x400" "block_ok b" "h c = None"
    and disj: "\<And>c' b'. h c' = Some b' \<Longrightarrow> clusters c b \<inter> clusters c' b' = {}"
  shows "represents (h(c \<mapsto> b)) (mark_block b c tab)"
proof (rule representsI)
  fix c1 b1 assume h1: "(h(c \<mapsto> b)) c1 = Some b1"
  consider "c1 = c" "b1 = b" | "c1 \<noteq> c" "h c1 = Some b1" using h1 by (cases "c1 = c") simp_all
  note cs = this
  show "1 \<le> c1 \<and> c1 < 0x400 \<and> block_ok b1"
    using cs by cases (use c representsD(1-3) [OF r] in simp_all)
  show "mark_block b c tab k = block_cell b1 (k - c1)" if k: "k \<in> clusters c1 b1" for k
    using cs
  proof cases
    case 2
    then have "k \<notin> clusters c b" using disj k by blast
    then show ?thesis using representsD(4) [OF r 2(2) k] by (simp add: mark_block_def)
  qed (use k in \<open>simp add: mark_block_def\<close>)
  show "clusters c1 b1 \<inter> clusters c2 b2 = {}" if h2: "(h(c \<mapsto> b)) c2 = Some b2" "c1 \<noteq> c2" for c2 b2
    using cs
  proof cases
    case 1
    then show ?thesis using h2 disj by simp
  next
    case 2
    show ?thesis
    proof (cases "c2 = c")
      case True
      then have "b2 = b" using h2(1) by simp
      then show ?thesis using disj [OF 2(2)] True by blast
    next
      case False
      then have "h c2 = Some b2" using h2(1) by simp
      from representsD_disjoint [OF r 2(2) this h2(2)] show ?thesis .
    qed
  qed
next
  fix k assume k: "1 \<le> k" "k < 0x400" "mark_block b c tab k \<noteq> 0"
  show "\<exists>c1 b1. (h(c \<mapsto> b)) c1 = Some b1 \<and> k \<in> clusters c1 b1"
  proof (cases "k \<in> clusters c b")
    case False
    then have "tab k \<noteq> 0" using k(3) by (simp add: mark_block_def)
    then obtain c1 b1 where c1: "h c1 = Some b1" "k \<in> clusters c1 b1" using representsD_used [OF r k(1,2)] by blast
    then have "(h(c \<mapsto> b)) c1 = Some b1" using c(4) by (cases "c1 = c") simp_all
    then show ?thesis using c1(2) by blast
  qed (meson fun_upd_same)
qed

lemma represents_alloc:
  assumes r: "represents h tab" and f: "free_run tab (block_size b) c" "1 \<le> c" "c < 0x400" and b: "block_ok b"
  shows "h c = None \<and> (\<forall>c' b'. h c' = Some b' \<longrightarrow> clusters c b \<inter> clusters c' b' = {}) \<and>
    represents (h(c \<mapsto> b)) (mark_block b c tab)"
proof -
  have zero: "tab k = 0" if "k \<in> clusters c b" for k
    using f(1) that by (simp add: free_run_def list_all_iff clusters_def)
  have disj: "clusters c b \<inter> clusters c' b' = {}" if h': "h c' = Some b'" for c' b'
  proof -
    have "tab k \<noteq> 0" if "k \<in> clusters c' b'" for k
      using representsD(4) [OF r h' that] block_cell_nonzero by simp
    then show ?thesis using zero by blast
  qed
  have none: "h c = None"
  proof (cases "h c")
    case (Some b')
    then show ?thesis using disj [OF Some] first_cluster [OF b] first_cluster [OF representsD(3) [OF r Some]] by blast
  qed simp
  show ?thesis using none disj represents_insert [OF r f(2,3) b none disj] by blast
qed

subsection \<open>Release\<close>

lemma represents_remove:
  assumes r: "represents h tab" and h: "h c = Some b"
    and keep: "\<And>k. k \<notin> clusters c b \<Longrightarrow> tab' k = tab k"
    and clear: "\<And>k. k \<in> clusters c b \<Longrightarrow> k < 0x400 \<Longrightarrow> tab' k = 0"
  shows "represents (h(c := None)) tab'"
proof (rule representsI)
  fix c1 b1 assume h1: "(h(c := None)) c1 = Some b1"
  then have h1': "h c1 = Some b1" "c1 \<noteq> c" by (cases "c1 = c"; simp)+
  show "1 \<le> c1 \<and> c1 < 0x400 \<and> block_ok b1" using representsD(1-3) [OF r h1'(1)] by blast
  show "tab' k = block_cell b1 (k - c1)" if "k \<in> clusters c1 b1" for k
  proof -
    have "k \<notin> clusters c b" using representsD_disjoint [OF r h1'(1) h h1'(2)] that by blast
    then show ?thesis using keep representsD(4) [OF r h1'(1) that] by simp
  qed
  show "clusters c1 b1 \<inter> clusters c2 b2 = {}" if h2: "(h(c := None)) c2 = Some b2" "c1 \<noteq> c2" for c2 b2
  proof -
    have "h c2 = Some b2" using h2(1) by (cases "c2 = c") simp_all
    from representsD_disjoint [OF r h1'(1) this h2(2)] show ?thesis .
  qed
next
  fix k assume k: "1 \<le> k" "k < 0x400" "tab' k \<noteq> 0"
  then have nk: "k \<notin> clusters c b" using clear by blast
  then have "tab k \<noteq> 0" using keep k(3) by simp
  then obtain c1 b1 where c1: "h c1 = Some b1" "k \<in> clusters c1 b1" using representsD_used [OF r k(1,2)] by blast
  then have "c1 \<noteq> c" using nk h by auto
  then have "(h(c := None)) c1 = Some b1" using c1(1) by simp
  then show "\<exists>c1 b1. (h(c := None)) c1 = Some b1 \<and> k \<in> clusters c1 b1" using c1(2) by blast
qed

text \<open>The loop with \<^term>\<open>m\<close> rounds to go clears that many clusters of the block, and the last one too if the
  closing pair begins in the last round.\<close>

lemma clear_big_result:
  assumes "5 \<le> n" "i \<le> n - 2" "\<And>j. i \<le> j \<Longrightarrow> j < n \<Longrightarrow> tab (c + j) = block_cell (Big n) j"
  shows "clear_big m (c + i) tab =
    (\<lambda>k. if c + i \<le> k \<and> k < c + n \<and> (k < c + i + m \<or> 0 < m \<and> n \<le> i + m + 1) then 0 else tab k)"
  using assms(2,3)
proof (induction m arbitrary: i tab)
  case (Suc m)
  have cells: "tab (c + i) = block_cell (Big n) i" "tab (c + i + 1) = block_cell (Big n) (i + 1)"
    using Suc.prems(2) [of i] Suc.prems(2) [of "i + 1"] Suc.prems(1) assms(1) by (simp_all add: add.assoc)
  show ?case
  proof (cases "i = n - 2")
    case True
    then have "i \<noteq> n - 1" "i + 1 = n - 1" using assms(1) by auto
    then have "tab (c + i) = 0xCC" "tab (c + i + 1) = 0xBB" unfolding cells using True by simp_all
    then have "clear_big (Suc m) (c + i) tab = tab(c + i := 0, c + i + 1 := 0)" by simp
    then show ?thesis using True assms(1) by (auto simp: fun_eq_iff)
  next
    case False
    then have i: "Suc i \<le> n - 2" "i + 1 \<noteq> n - 1" "i \<noteq> n - 2" using Suc.prems(1) by auto
    then have "\<not> (tab (c + i) = 0xCC \<and> tab (c + i + 1) = 0xBB)" unfolding cells by (cases "i = 0") auto
    define t1 where "t1 = tab(c + i := 0)"
    have step: "clear_big (Suc m) (c + i) tab = clear_big m (c + Suc i) t1"
      using \<open>\<not> (tab (c + i) = 0xCC \<and> tab (c + i + 1) = 0xBB)\<close> by (auto simp: t1_def)
    have t1: "t1 (c + j) = block_cell (Big n) j" if "Suc i \<le> j" "j < n" for j
      using Suc.prems(2) [of j] that by (simp add: t1_def)
    have IH: "clear_big m (c + Suc i) t1 =
        (\<lambda>k. if c + Suc i \<le> k \<and> k < c + n \<and> (k < c + Suc i + m \<or> 0 < m \<and> n \<le> Suc i + m + 1) then 0 else t1 k)"
      using i(1) t1 by (rule Suc.IH)
    show ?thesis
    proof (rule ext)
      fix k
      have "t1 k = (if k = c + i then 0 else tab k)" by (simp add: t1_def)
      then show "clear_big (Suc m) (c + i) tab k = (if c + i \<le> k \<and> k < c + n \<and>
          (k < c + i + Suc m \<or> 0 < Suc m \<and> n \<le> i + Suc m + 1) then 0 else tab k)"
        unfolding step IH using i(1) by auto
    qed
  qed
qed (auto simp: fun_eq_iff)

text \<open>The clusters of a block at \<^term>\<open>c\<close> that its release leaves in use: all of a block of five clusters, and
  those from 1024 on of a large block that reaches further than one cluster beyond the searched ones.\<close>

definition lost_clusters :: "nat \<Rightarrow> block \<Rightarrow> nat set" where
  "lost_clusters c b = (case b of
     Big n \<Rightarrow> if n = 5 then {c..<c + 5} else if c + n \<le> 0x401 then {} else {0x400..<c + n}
   | _ \<Rightarrow> {})"

lemma free_clusters_result:
  assumes b: "block_ok b" and c: "c < 0x400" and cells: "\<And>k. k < block_size b \<Longrightarrow> tab (c + k) = block_cell b k"
  shows "free_clusters c tab = (\<lambda>k. if k \<in> clusters c b - lost_clusters c b then 0 else tab k)"
proof (cases b)
  case Small
  then show ?thesis using cells [of 0] by (auto simp: free_clusters_def clusters_def lost_clusters_def fun_eq_iff)
next
  case Mid
  then have "free_clusters c tab = fill c 4 0 tab"
    using cells [of 0] cells [of 1] cells [of 2] cells [of 3] by (simp add: free_clusters_def)
  then show ?thesis using Mid by (auto simp: fill_def clusters_def lost_clusters_def fun_eq_iff)
next
  case (Big n)
  have n: "5 \<le> n" using b Big by (simp add: block_ok_def)
  have tab: "tab c = 0xBB" "tab (c + 1) = 0xCC" "tab (c + 2) = 0xFF" "tab (c + 3) = (if n = 5 then 0xCC else 0xFF)"
    using cells [of 0] cells [of 1] cells [of 2] cells [of 3] n Big by auto
  show ?thesis
  proof (cases "n = 5")
    case True
    then show ?thesis using tab Big by (simp add: free_clusters_def clusters_def lost_clusters_def fun_eq_iff)
  next
    case False
    then have "free_clusters c tab = clear_big (0x400 - c) (c + 0) tab" using tab by (simp add: free_clusters_def)
    also have "\<dots> = (\<lambda>k. if k \<in> clusters c b - lost_clusters c b then 0 else tab k)"
      using clear_big_result [OF n, of 0 tab c "0x400 - c"] cells Big False c
      by (auto simp: clusters_def lost_clusters_def fun_eq_iff)
    finally show ?thesis .
  qed
qed

lemma represents_free:
  assumes r: "represents h tab" and h: "h c = Some b"
  shows "if b = Big 5 then free_clusters c tab = tab else represents (h(c := None)) (free_clusters c tab)"
proof -
  have cells: "tab (c + k) = block_cell b k" if "k < block_size b" for k
    using representsD(4) [OF r h, of "c + k"] that by (simp add: clusters_def)
  have f: "free_clusters c tab = (\<lambda>k. if k \<in> clusters c b - lost_clusters c b then 0 else tab k)"
    using representsD(3,2) [OF r h] cells by (rule free_clusters_result)
  have "represents (h(c := None)) (free_clusters c tab)" if "b \<noteq> Big 5"
    unfolding f using that by (intro represents_remove [OF r h]) (auto simp: lost_clusters_def split: block.splits if_splits)
  moreover have "free_clusters c tab = tab" if "b = Big 5"
    unfolding f using that by (simp add: lost_clusters_def clusters_def fun_eq_iff)
  ultimately show ?thesis by simp
qed

subsection \<open>Addresses\<close>

definition MEMORYMANAGERSTART :: u32 where "MEMORYMANAGERSTART = 0x01A00000"
definition MEMORYMANAGEREND :: u32 where "MEMORYMANAGEREND = 0x02FFFFFF"

definition block_kind :: "u32 \<Rightarrow> block" where
  "block_kind sz = (if sz < 0x4001 then Small else if sz < 0x10001 then Mid else Big (needsectory sz))"

lemma and_not_mask_push: "x AND NOT (mask n) = push_bit n (drop_bit n (x :: u32))"
  by (rule bit_word_eqI) (auto simp: bit_simps)

lemma and_high_mask: "x AND 0xffffc000 = push_bit 14 (drop_bit 14 (x :: u32))"
proof -
  have "(0xffffc000 :: u32) = NOT (mask 14)" by (simp add: mask_eq_exp_minus_1)
  then show ?thesis by (simp only: and_not_mask_push)
qed

lemma and_page_mask: "x AND 0xffffff00 = push_bit 8 (drop_bit 8 (x :: u32))"
proof -
  have "(0xffffff00 :: u32) = NOT (mask 8)" by (simp add: mask_eq_exp_minus_1)
  then show ?thesis by (simp only: and_not_mask_push)
qed

lemma unat_push_drop: "unat (push_bit n (drop_bit n (x :: u32))) = unat x div 2 ^ n * 2 ^ n"
proof -
  have x: "unat x < 4294967296" by (rule unat_u32_less)
  then have "unat x div 2 ^ n * 2 ^ n < 4294967296" by (rule le_less_trans [OF div_times_less_eq_dividend])
  then show ?thesis using x
    by (simp add: unsigned_push_bit_eq unsigned_drop_bit_eq drop_bit_eq_div [where ?'a = nat]
        push_bit_eq_mult [where ?'a = nat] take_bit_eq_mod [where ?'a = nat])
qed

lemma needsectory_value: "unat sz \<le> 5 * 1024 * 1024 \<Longrightarrow> needsectory sz = unat sz div 0x4000 + 1"
proof -
  assume sz: "unat sz \<le> 5 * 1024 * 1024"
  let ?r = "sz AND 0xffffc000"
  have r: "unat ?r = unat sz div 0x4000 * 0x4000" unfolding and_high_mask unat_push_drop by simp
  have "unat ?r \<le> unat sz" unfolding r by simp
  then have "unat (?r + 0x4000) = unat ?r + 0x4000" using sz by (simp add: unat_word_ariths)
  then show ?thesis unfolding needsectory_def unat_div r by simp
qed

lemma block_kind_ok: "sz < 5 * 1024 * 1024 + 1 \<Longrightarrow> block_ok (block_kind sz)"
proof -
  assume "sz < 5 * 1024 * 1024 + 1"
  then have s: "unat sz \<le> 5 * 1024 * 1024" by (simp add: word_less_nat_alt)
  show ?thesis
  proof (cases "sz < 0x10001")
    case False
    then have "0x10001 \<le> unat sz" by (simp add: word_less_nat_alt)
    then have "5 \<le> needsectory sz" "needsectory sz \<le> 321" using s unfolding needsectory_value [OF s] by simp_all
    then show ?thesis by (simp add: block_kind_def block_ok_def)
  qed (simp add: block_kind_def block_ok_def)
qed

text \<open>The clusters of a block hold what was asked for.\<close>

lemma block_kind_size: "sz < 5 * 1024 * 1024 + 1 \<Longrightarrow> unat sz \<le> block_size (block_kind sz) * 0x4000"
proof -
  assume "sz < 5 * 1024 * 1024 + 1"
  then have s: "unat sz \<le> 5 * 1024 * 1024" by (simp add: word_less_nat_alt)
  show ?thesis
  proof (cases "sz < 0x10001")
    case False
    have "unat sz \<le> (unat sz div 0x4000 + 1) * 0x4000" by simp
    then show ?thesis using False needsectory_value [OF s] by (simp add: block_kind_def word_less_nat_alt)
  qed (auto simp: block_kind_def word_less_nat_alt)
qed

definition cluster_ptr :: "nat \<Rightarrow> u32" where
  "cluster_ptr c = MEMORYMANAGERSTART + word_of_nat c * 0x4000"

lemma t_malloc_result:
  assumes "MemoryManagerStartAddress m = MEMORYMANAGERSTART"
  shows "t_malloc sz m =
    (if sz < 5 * 1024 * 1024 + 1
     then case first_fit (memsmall m) (block_size (block_kind sz)) of
            None \<Rightarrow> (0, m)
          | Some c \<Rightarrow> (cluster_ptr c, m\<lparr>memsmall := mark_block (block_kind sz) c (memsmall m)\<rparr>)
     else (0, m))"
proof (cases "sz < 5 * 1024 * 1024 + 1")
  case True
  show ?thesis
  proof (cases "sz < 0x10001")
    case False
    then have k: "block_kind sz = Big (needsectory sz)" by (auto simp: block_kind_def word_less_nat_alt)
    then have "5 \<le> needsectory sz" using block_kind_ok [OF True] by (simp add: block_ok_def)
    then show ?thesis using True False k assms
      by (auto simp: t_malloc_def take_clusters_def cluster_ptr_def mark_big_eq word_less_nat_alt split: option.split)
  qed (use True assms in \<open>auto simp: t_malloc_def take_clusters_def block_kind_def cluster_ptr_def mark_block_eq
        split: option.split\<close>)
next
  case False
  then show ?thesis by (auto simp: t_malloc_def word_less_nat_alt)
qed

end
