(* ===== verification/BootHeap.thy ===== *)
theory BootHeap
  imports BootLibrary
begin

text \<open>
  \<^verbatim>\<open>malloc\<close> and \<^verbatim>\<open>free\<close> of lib/misc/BootLibrary.c as their callers see them: the states that sequences of
  calls lead to, the blocks handed out, and what a release gives back. A caller is assumed to
  release only what it holds and to leave the header words alone.
\<close>

lemma unat_cluster_offset: "c \<le> 0x580 \<Longrightarrow> unat (word_of_nat c * 0x4000 :: u32) = c * 0x4000"
proof -
  assume c: "c \<le> 0x580"
  then have "unat (word_of_nat c :: u32) = c" by (simp add: unsigned_of_nat take_bit_nat_eq_self)
  then have "unat (word_of_nat c * 0x4000 :: u32) = c * 0x4000 mod 2 ^ 32"
    unfolding unat_word_ariths(2) by simp
  then show ?thesis using c by simp
qed

lemma unat_cluster_ptr: "c \<le> 0x580 \<Longrightarrow> unat (cluster_ptr c) = 0x01A00000 + c * 0x4000"
proof -
  assume c: "c \<le> 0x580"
  have "unat (cluster_ptr c) = (0x01A00000 + c * 0x4000) mod 2 ^ 32"
    unfolding cluster_ptr_def MEMORYMANAGERSTART_def unat_word_ariths(1) unat_cluster_offset [OF c] by simp
  then show ?thesis using c by simp
qed

lemma cluster_ptr_inj: "c \<le> 0x580 \<Longrightarrow> c' \<le> 0x580 \<Longrightarrow> cluster_ptr c = cluster_ptr c' \<Longrightarrow> c = c'"
proof -
  assume c: "c \<le> 0x580" "c' \<le> 0x580" and "cluster_ptr c = cluster_ptr c'"
  then have "unat (cluster_ptr c) = unat (cluster_ptr c')" by (simp only:)
  then show "c = c'" unfolding unat_cluster_ptr [OF c(1)] unat_cluster_ptr [OF c(2)] by simp
qed

lemma t_free_cluster:
  assumes "c < 0x400" "MemoryManagerStartAddress m = MEMORYMANAGERSTART"
  shows "t_free (cluster_ptr c) m = m\<lparr>memsmall := free_clusters c (memsmall m)\<rparr>"
proof -
  let ?t = "word_of_nat c * 0x4000 :: u32"
  have t: "unat ?t = c * 0x4000" using assms(1) by (intro unat_cluster_offset) simp
  have "unat (?t AND 0xffffc000) = unat ?t" unfolding and_high_mask unat_push_drop t by simp
  then have "?t AND 0xffffc000 = ?t" by (simp only: unsigned_word_eqI)
  moreover have "unat (?t div 0x4000) = c" unfolding unat_div t by simp
  moreover have "cluster_ptr c - MemoryManagerStartAddress m = ?t" by (simp add: cluster_ptr_def assms(2))
  ultimately show ?thesis by (simp add: t_free_def)
qed

lemma user_ptr:
  assumes "c \<le> 0x580"
  shows "(cluster_ptr c + 0x100) AND 0xffffff00 = cluster_ptr c + 0x100" "unat (cluster_ptr c + 0x100) = 0x01A00100 + c * 0x4000"
proof -
  show u: "unat (cluster_ptr c + 0x100) = 0x01A00100 + c * 0x4000"
    using assms unat_cluster_ptr [OF assms] by (simp add: unat_word_ariths)
  have "unat ((cluster_ptr c + 0x100) AND 0xffffff00) = (0x01A00100 + c * 0x4000) div 256 * 256"
    unfolding and_page_mask unat_push_drop u by simp
  also have "0x01A00100 + c * 0x4000 = (0x1A001 + c * 0x40) * (256 :: nat)" by simp
  also have "(0x1A001 + c * 0x40) * 256 div 256 * (256 :: nat) = unat (cluster_ptr c + 0x100)"
    unfolding u nonzero_mult_div_cancel_right [OF numeral_neq_zero] by simp
  finally show "(cluster_ptr c + 0x100) AND 0xffffff00 = cluster_ptr c + 0x100" by (simp only: unsigned_word_eqI)
qed

definition rounded :: "u32 \<Rightarrow> u32" where
  "rounded sz = (sz + 0x200) AND 0xffffff00"

lemma rounded_bounds: "unat sz + 0x200 < 2 ^ 32 \<Longrightarrow> unat sz + 0x100 < unat (rounded sz) \<and> unat (rounded sz) \<le> unat sz + 0x200"
proof -
  assume a: "unat sz + 0x200 < 2 ^ 32"
  then have "unat (sz + 0x200) = unat sz + 0x200" by (simp add: unat_word_ariths)
  then have "unat (rounded sz) = (unat sz + 0x200) div 256 * 256"
    unfolding rounded_def and_page_mask unat_push_drop by simp
  then show ?thesis by simp
qed

subsection \<open>One allocation\<close>

definition set_header :: "u32 \<Rightarrow> u32 \<Rightarrow> mem_manager \<Rightarrow> mem_manager" where
  "set_header ptr block m = m\<lparr>words := (words m)(ptr - 8 := block, ptr - 4 := 0x1234567)\<rparr>"

lemma set_header_memsmall [simp]: "memsmall (set_header ptr block m) = memsmall m"
  by (simp add: set_header_def)

lemma malloc_cases:
  assumes "MemoryManagerStartAddress m = MEMORYMANAGERSTART" "malloc sz m = (p, m')"
  obtains (exhausted) "p = 0x100" "m' = set_header 0x100 0 m"
      "rounded sz < 5 * 1024 * 1024 + 1 \<longrightarrow> first_fit (memsmall m) (block_size (block_kind (rounded sz))) = None"
  | (block) c where "rounded sz < 5 * 1024 * 1024 + 1"
      "first_fit (memsmall m) (block_size (block_kind (rounded sz))) = Some c" "p = cluster_ptr c + 0x100"
      "m' = set_header p (cluster_ptr c) (m\<lparr>memsmall := mark_block (block_kind (rounded sz)) c (memsmall m)\<rparr>)"
proof (cases "rounded sz < 5 * 1024 * 1024 + 1 \<and> first_fit (memsmall m) (block_size (block_kind (rounded sz))) \<noteq> None")
  case False
  then have "t_malloc (rounded sz) m = (0, m)" unfolding t_malloc_result [OF assms(1)] by (auto split: option.splits)
  then have "p = 0x100" "m' = set_header 0x100 0 m"
    using assms(2) by (simp_all add: malloc_def rounded_def [symmetric] set_header_def Let_def)
  then show thesis by (rule exhausted) (use False in blast)
next
  case True
  then obtain c where c: "first_fit (memsmall m) (block_size (block_kind (rounded sz))) = Some c" by blast
  then have "t_malloc (rounded sz) m =
      (cluster_ptr c, m\<lparr>memsmall := mark_block (block_kind (rounded sz)) c (memsmall m)\<rparr>)"
    unfolding t_malloc_result [OF assms(1)] using True by simp
  moreover have "(cluster_ptr c + 0x100) AND 0xffffff00 = cluster_ptr c + 0x100"
    using first_fit_Some [OF c] by (intro user_ptr(1)) simp
  ultimately have "p = cluster_ptr c + 0x100"
    "m' = set_header p (cluster_ptr c) (m\<lparr>memsmall := mark_block (block_kind (rounded sz)) c (memsmall m)\<rparr>)"
    using assms(2) by (auto simp: malloc_def rounded_def [symmetric] set_header_def Let_def)
  then show thesis by (rule block [OF conjunct1 [OF True] c])
qed

subsection \<open>Reachable states\<close>

definition heap_inv :: "(nat \<rightharpoonup> block) \<Rightarrow> mem_manager \<Rightarrow> bool" where
  "heap_inv h m \<longleftrightarrow> MemoryManagerStartAddress m = MEMORYMANAGERSTART \<and> represents h (memsmall m) \<and>
    (\<forall>c \<in> dom h. words m (cluster_ptr c + 0xF8) = cluster_ptr c \<and> words m (cluster_ptr c + 0xFC) = 0x1234567)"

text \<open>The blocks in use and the state, after any calls: a block of 64 KB to 80 KB stays in use when it is
  released, see below.\<close>

inductive heap_reach :: "(nat \<rightharpoonup> block) \<Rightarrow> mem_manager \<Rightarrow> bool" where
  init: "heap_reach Map.empty (MemoryManagementInitialization MEMORYMANAGERSTART m)"
| malloc_block: "heap_reach h m \<Longrightarrow> malloc sz m = (cluster_ptr c + 0x100, m') \<Longrightarrow> c < 0x400 \<Longrightarrow>
    heap_reach (h(c \<mapsto> block_kind (rounded sz))) m'"
| malloc_fails: "heap_reach h m \<Longrightarrow> malloc sz m = (0x100, m') \<Longrightarrow> heap_reach h m'"
| free_block: "heap_reach h m \<Longrightarrow> h c = Some b \<Longrightarrow>
    heap_reach (if b = Big 5 then h else h(c := None)) (free (cluster_ptr c + 0x100) m)"

lemma unat_in_cluster:
  assumes "c \<le> 0x580" "x < 0x4000"
  shows "unat (cluster_ptr c + word_of_nat x) = 0x01A00000 + c * 0x4000 + x"
proof -
  have "unat (word_of_nat x :: u32) = x" using assms(2) by (simp add: unsigned_of_nat take_bit_nat_eq_self)
  then have "unat (cluster_ptr c + word_of_nat x) = (0x01A00000 + c * 0x4000 + x) mod 2 ^ 32"
    unfolding unat_word_ariths(1) unat_cluster_ptr [OF assms(1)] by simp
  then show ?thesis using assms by simp
qed

lemma header_addresses:
  assumes "c \<le> 0x580"
  shows "unat (cluster_ptr c + 0xF8) = 0x01A000F8 + c * 0x4000" "unat (cluster_ptr c + 0xFC) = 0x01A000FC + c * 0x4000"
    "cluster_ptr c + 0x100 - 8 = cluster_ptr c + 0xF8" "cluster_ptr c + 0x100 - 4 = cluster_ptr c + 0xFC"
  using unat_in_cluster [OF assms, of "0xF8"] unat_in_cluster [OF assms, of "0xFC"] by simp_all

lemma headers_apart:
  assumes c: "c \<le> 0x580" "c' \<le> 0x580" "c \<noteq> c'"
  shows "cluster_ptr c' + 0xF8 \<notin> {cluster_ptr c + 0xF8, cluster_ptr c + 0xFC}"
    and "cluster_ptr c' + 0xFC \<notin> {cluster_ptr c + 0xF8, cluster_ptr c + 0xFC}"
proof -
  note h = header_addresses(1,2) [OF c(1)] header_addresses(1,2) [OF c(2)]
  have ne: "x \<noteq> y" if "unat x \<noteq> unat y" for x y :: u32 using that by auto
  have d: "c < c' \<or> c' < c" using c(3) by linarith
  have "unat (cluster_ptr c' + 0xF8) \<noteq> unat (cluster_ptr c + 0xF8)" "unat (cluster_ptr c' + 0xF8) \<noteq> unat (cluster_ptr c + 0xFC)"
    "unat (cluster_ptr c' + 0xFC) \<noteq> unat (cluster_ptr c + 0xF8)" "unat (cluster_ptr c' + 0xFC) \<noteq> unat (cluster_ptr c + 0xFC)"
    unfolding h using d by linarith+
  then show "cluster_ptr c' + 0xF8 \<notin> {cluster_ptr c + 0xF8, cluster_ptr c + 0xFC}"
    "cluster_ptr c' + 0xFC \<notin> {cluster_ptr c + 0xF8, cluster_ptr c + 0xFC}"
    using ne by blast+
qed

lemma headers_high:
  assumes "c \<le> 0x580"
  shows "cluster_ptr c + 0xF8 \<notin> {0xF8, 0xFC}" "cluster_ptr c + 0xFC \<notin> {0xF8, 0xFC}"
proof -
  have ne: "x \<noteq> y" if "unat x \<noteq> unat y" for x y :: u32 using that by auto
  show "cluster_ptr c + 0xF8 \<notin> {0xF8, 0xFC}" "cluster_ptr c + 0xFC \<notin> {0xF8, 0xFC}"
    using ne header_addresses(1,2) [OF assms] by auto
qed

lemma heap_inv_dom: "heap_inv h m \<Longrightarrow> h c = Some b \<Longrightarrow> c < 0x400"
  unfolding heap_inv_def using representsD(2) by blast

lemma heap_inv_malloc:
  assumes inv: "heap_inv h m" and m: "malloc sz m = (p, m')"
  shows "p = 0x100 \<and> heap_inv h m' \<or>
    (\<exists>c. p = cluster_ptr c + 0x100 \<and> c < 0x400 \<and> h c = None \<and> rounded sz < 5 * 1024 * 1024 + 1 \<and>
      (\<forall>c' b'. h c' = Some b' \<longrightarrow> clusters c (block_kind (rounded sz)) \<inter> clusters c' b' = {}) \<and>
      heap_inv (h(c \<mapsto> block_kind (rounded sz))) m')"
proof -
  have start: "MemoryManagerStartAddress m = MEMORYMANAGERSTART" and rep: "represents h (memsmall m)"
    using inv by (simp_all add: heap_inv_def)
  have dom: "c' \<le> 0x580" if "c' \<in> dom h" for c' using heap_inv_dom [OF inv] that by fastforce
  from start m show ?thesis
  proof (cases rule: malloc_cases)
    case exhausted
    have "heap_inv h m'" unfolding heap_inv_def
    proof (intro conjI ballI)
      fix c assume c: "c \<in> dom h"
      show "words m' (cluster_ptr c + 0xF8) = cluster_ptr c" "words m' (cluster_ptr c + 0xFC) = 0x1234567"
        using inv c headers_high [OF dom [OF c]] by (simp_all add: exhausted(2) set_header_def heap_inv_def)
    qed (simp_all add: exhausted(2) set_header_def start rep)
    then show ?thesis using exhausted(1) by blast
  next
    case (block c)
    let ?b = "block_kind (rounded sz)"
    have c: "1 \<le> c" "c < 0x400" "free_run (memsmall m) (block_size ?b) c" using first_fit_Some [OF block(2)] by blast+
    note al = represents_alloc [OF rep c(3,1,2) block_kind_ok [OF block(1)]]
    have "heap_inv (h(c \<mapsto> ?b)) m'" unfolding heap_inv_def
    proof (intro conjI ballI)
      fix c' assume c': "c' \<in> dom (h(c \<mapsto> ?b))"
      note hd = header_addresses(3,4) [of c]
      show "words m' (cluster_ptr c' + 0xF8) = cluster_ptr c'" "words m' (cluster_ptr c' + 0xFC) = 0x1234567"
        using c' inv headers_apart [of c c'] dom c(2) hd
        by (cases "c' = c"; simp add: block(3,4) set_header_def heap_inv_def)+
    qed (use al in \<open>simp_all add: block(4) set_header_def start\<close>)
    then show ?thesis using al block(1,3) c(2) by blast
  qed
qed

lemma user_ptr_high:
  assumes "c \<le> 0x580"
  shows "cluster_ptr c + 0x100 \<noteq> 0x100" "cluster_ptr c + 0x100 \<noteq> 0"
proof -
  have "0x100 < unat (cluster_ptr c + 0x100)" unfolding user_ptr(2) [OF assms] by simp
  moreover have "unat (0x100 :: u32) = 0x100" "unat (0 :: u32) = 0" by simp_all
  ultimately show "cluster_ptr c + 0x100 \<noteq> 0x100" "cluster_ptr c + 0x100 \<noteq> 0" by (metis less_irrefl, metis not_less0)
qed

lemma free_result:
  assumes inv: "heap_inv h m" and h: "h c = Some b"
  shows "free (cluster_ptr c + 0x100) m = m\<lparr>memsmall := free_clusters c (memsmall m)\<rparr>"
proof -
  have c: "c < 0x400" by (rule heap_inv_dom [OF inv h])
  have "words m (cluster_ptr c + 0xF8) = cluster_ptr c" "words m (cluster_ptr c + 0xFC) = 0x1234567"
    using inv h by (auto simp: heap_inv_def)
  moreover have "t_free (cluster_ptr c) m = m\<lparr>memsmall := free_clusters c (memsmall m)\<rparr>"
    using inv c by (intro t_free_cluster) (simp_all add: heap_inv_def)
  moreover have c': "c \<le> 0x580" using c by simp
  ultimately show ?thesis unfolding free_def header_addresses(3,4) [OF c'] using user_ptr_high(2) [OF c'] by simp
qed

lemma heap_inv_free:
  assumes inv: "heap_inv h m" and h: "h c = Some b"
  shows "heap_inv (if b = Big 5 then h else h(c := None)) (free (cluster_ptr c + 0x100) m)"
proof -
  have rep: "represents h (memsmall m)" using inv by (simp add: heap_inv_def)
  have "represents (if b = Big 5 then h else h(c := None)) (free_clusters c (memsmall m))"
    using represents_free [OF rep h] rep by (auto split: if_splits)
  then show ?thesis unfolding free_result [OF inv h] using inv by (auto simp: heap_inv_def)
qed

lemma heap_reach_inv: "heap_reach h m \<Longrightarrow> heap_inv h m"
proof (induction rule: heap_reach.induct)
  case (init m)
  show ?case by (simp add: heap_inv_def MemoryManagementInitialization_def represents_def)
next
  case (malloc_block h m sz c m')
  then have "cluster_ptr c + 0x100 \<noteq> 0x100" by (intro user_ptr_high) simp
  then obtain c' where c': "cluster_ptr c + 0x100 = cluster_ptr c' + 0x100" "c' < 0x400"
    and i: "heap_inv (h(c' \<mapsto> block_kind (rounded sz))) m'"
    using heap_inv_malloc [OF malloc_block.IH malloc_block.hyps(2)] by blast
  have "c' = c" using c' malloc_block.hyps(3) by (intro cluster_ptr_inj) simp_all
  show ?case using i unfolding \<open>c' = c\<close> .
next
  case (malloc_fails h m sz m')
  have "cluster_ptr c + 0x100 \<noteq> 0x100" if "c < 0x400" for c using that by (intro user_ptr_high) simp
  then show ?case using heap_inv_malloc [OF malloc_fails.IH malloc_fails.hyps(2)] by metis
next
  case (free_block h m c b)
  then show ?case using heap_inv_free by blast
qed

subsection \<open>What callers get\<close>

definition block_bytes :: "nat \<Rightarrow> block \<Rightarrow> nat set" where
  "block_bytes c b = {0x01A00000 + c * 0x4000 ..< 0x01A00000 + (c + block_size b) * 0x4000}"

lemma clusters_bytes: "clusters c b \<inter> clusters c' b' = {} \<Longrightarrow> block_bytes c b \<inter> block_bytes c' b' = {}"
proof (rule ccontr)
  assume d: "clusters c b \<inter> clusters c' b' = {}" and "block_bytes c b \<inter> block_bytes c' b' \<noteq> {}"
  then obtain x where "x \<in> block_bytes c b" "x \<in> block_bytes c' b'" by blast
  then have "(x - 0x01A00000) div 0x4000 \<in> clusters c b" "(x - 0x01A00000) div 0x4000 \<in> clusters c' b'"
    by (auto simp: block_bytes_def clusters_def less_eq_div_iff_mult_less_eq div_less_iff_less_mult)
  then show False using d by blast
qed

text \<open>C33: memory handed out is fresh. After any calls of \<^verbatim>\<open>malloc\<close> and \<^verbatim>\<open>free\<close>, the bytes \<^verbatim>\<open>malloc\<close> returns,
  unless it returns 0x100, lie inside a block of the memory manager's area that overlaps no
  block in use; the requested size must not exceed 4 GB by the 512 bytes \<^verbatim>\<open>malloc\<close> adds.\<close>

theorem malloc_fresh:
  assumes "heap_reach h m" and "malloc sz m = (p, m')" and "p \<noteq> 0x100" and "unat sz + 0x200 < 2 ^ 32"
  shows "\<exists>c b. {unat p ..< unat p + unat sz} \<subseteq> block_bytes c b \<and>
    block_bytes c b \<subseteq> {unat MEMORYMANAGERSTART .. unat MEMORYMANAGEREND} \<and>
    (\<forall>c' b'. h c' = Some b' \<longrightarrow> block_bytes c b \<inter> block_bytes c' b' = {}) \<and> heap_reach (h(c \<mapsto> b)) m'"
proof -
  let ?b = "block_kind (rounded sz)"
  obtain c where c: "p = cluster_ptr c + 0x100" "c < 0x400" "rounded sz < 5 * 1024 * 1024 + 1"
    and d: "\<And>c' b'. h c' = Some b' \<Longrightarrow> clusters c ?b \<inter> clusters c' b' = {}"
    using heap_inv_malloc [OF heap_reach_inv [OF assms(1)] assms(2)] assms(3) by blast
  have p: "unat p = 0x01A00100 + c * 0x4000" using c by (simp add: user_ptr(2))
  have sz: "unat sz + 0x100 \<le> block_size ?b * 0x4000"
    using block_kind_size [OF c(3)] rounded_bounds [OF assms(4)] by linarith
  have "block_size ?b \<le> 321" using block_kind_ok [OF c(3)] by (cases ?b) (auto simp: block_ok_def)
  then have "block_bytes c ?b \<subseteq> {unat MEMORYMANAGERSTART .. unat MEMORYMANAGEREND}"
    using c(2) by (auto simp: block_bytes_def MEMORYMANAGERSTART_def MEMORYMANAGEREND_def)
  moreover have "{unat p ..< unat p + unat sz} \<subseteq> block_bytes c ?b"
    unfolding p block_bytes_def using sz by auto
  moreover have "heap_reach (h(c \<mapsto> ?b)) m'"
    using assms(1,2) c(2) unfolding c(1) by (rule heap_reach.malloc_block)
  ultimately show ?thesis using clusters_bytes d by blast
qed


text \<open>\<^verbatim>\<open>calloc\<close> clears the memory it returns and neither the allocation table nor a header, as long as memory is
  not exhausted and the product of its arguments is not close to 4 GB.\<close>

lemma memset0_words: "i < n \<Longrightarrow> 4 \<le> n - i \<Longrightarrow> words (memset0 p n m) (p + i) = 0"
  by (simp add: memset0_def)

lemma unat_diff_high:
  fixes a b :: u32
  assumes "unat a < unat b"
  shows "unat (a - b) = 2 ^ 32 - (unat b - unat a)"
proof -
  have "unat (a - b) = (if unat b \<le> unat a then unat a - unat b else unat a + 2 ^ 32 - unat b)"
    using unat_sub_if' [of a b] by (simp add: word_le_nat_alt)
  then show ?thesis using assms unat_u32_less [of b] by simp
qed

lemma calloc_keeps_table:
  assumes "heap_reach h m" and "malloc (nmemb * sz) m = (p, m')" and "p \<noteq> 0x100" and n: "unat (nmemb * sz) + 0x200 < 2 ^ 32"
    and k: "k < 0x4000"
  shows "memsmall (snd (calloc nmemb sz m)) k = memsmall m' k"
proof -
  obtain c where c: "p = cluster_ptr c + 0x100" "c < 0x400" "rounded (nmemb * sz) < 5 * 1024 * 1024 + 1"
    and i: "heap_inv (h(c \<mapsto> block_kind (rounded (nmemb * sz)))) m'" "1 \<le> c"
    using heap_inv_malloc [OF heap_reach_inv [OF assms(1)] assms(2)] assms(3) by (metis fun_upd_same heap_inv_def representsD(1))
  have p: "unat p = 0x01A00100 + c * 0x4000" using c by (simp add: user_ptr(2))
  have a: "unat (MEMORYMANAGERSTART + word_of_nat k) = 0x01A00000 + k"
    using unat_in_cluster [of 0 k] k by (simp add: cluster_ptr_def)
  have d: "unat (MEMORYMANAGERSTART + word_of_nat k - p) = 2 ^ 32 - (unat p - (0x01A00000 + k))"
    using unat_diff_high [of "MEMORYMANAGERSTART + word_of_nat k" p] a p k i(2) by simp
  have "unat p - (0x01A00000 + k) \<le> 0x2000000" using p c(2) by simp
  then have "0xF0000000 \<le> unat (MEMORYMANAGERSTART + word_of_nat k - p)"
    unfolding d using diff_le_mono2 [of _ "0x2000000" "2 ^ 32"] by simp
  moreover have "unat (rounded (nmemb * sz)) < 5 * 1024 * 1024 + 1" using c(3) by (simp add: word_less_nat_alt)
  ultimately have "\<not> MEMORYMANAGERSTART + word_of_nat k - p < nmemb * sz"
    using rounded_bounds [OF n] unfolding word_less_nat_alt by linarith
  then show ?thesis using i(1) by (simp add: calloc_def assms(2) memset0_def heap_inv_def)
qed

definition empty_heap :: mem_manager where
  "empty_heap = MemoryManagementInitialization MEMORYMANAGERSTART
    \<lparr>MemoryManagerStartAddress = 0, memsmall = (\<lambda>_. 0), words = (\<lambda>_. 0)\<rparr>"

lemma first_fit_first: "free_run tab n 1 \<Longrightarrow> first_fit tab n = Some 1"
  unfolding first_fit_def by (subst upt_conv_Cons) simp_all

lemma first_fit_second: "\<not> free_run tab n 1 \<Longrightarrow> free_run tab n 2 \<Longrightarrow> first_fit tab n = Some 2"
  unfolding first_fit_def by (subst upt_conv_Cons, simp, subst upt_conv_Cons) (simp_all add: numeral_2_eq_2)

lemma malloc_small: "malloc 100 empty_heap = (0x01A04100,
    set_header 0x01A04100 0x01A04000 (empty_heap\<lparr>memsmall := (memsmall empty_heap)(1 := 0xAA)\<rparr>))"
proof -
  have "first_fit (memsmall empty_heap) 1 = Some 1"
    by (rule first_fit_first) (simp add: free_run_def empty_heap_def MemoryManagementInitialization_def)
  then show ?thesis
    by (simp add: malloc_def t_malloc_def take_clusters_def mark_small_def set_header_def Let_def
      empty_heap_def MemoryManagementInitialization_def MEMORYMANAGERSTART_def)
qed

lemma malloc_second:
  assumes "memsmall m = (memsmall empty_heap)(1 := 0xAA)" and "MemoryManagerStartAddress m = 0x01A00000"
  shows "fst (malloc 20000 m) = 0x01A08100"
proof -
  have "first_fit (memsmall m) 4 = Some 2" unfolding assms(1)
    by (rule first_fit_second; simp add: free_run_def empty_heap_def MemoryManagementInitialization_def upt_conv_Cons)
  then show ?thesis by (simp add: malloc_def t_malloc_def take_clusters_def Let_def assms(2))
qed

lemma malloc_mid: "fst (malloc 20000 (snd (malloc 100 empty_heap))) = 0x01A08100"
  by (rule malloc_second; unfold malloc_small)
    (simp_all add: set_header_def empty_heap_def MemoryManagementInitialization_def MEMORYMANAGERSTART_def)

lemma block_kind_100: "block_kind (rounded 100) = Small"
  by (simp add: block_kind_def rounded_def)

lemma heap_reach_small: "heap_reach [1 \<mapsto> Small] (snd (malloc 100 empty_heap))"
proof -
  have "heap_reach Map.empty empty_heap" unfolding empty_heap_def by (rule heap_reach.init)
  moreover have "malloc 100 empty_heap = (cluster_ptr 1 + 0x100, snd (malloc 100 empty_heap))"
    by (simp add: malloc_small cluster_ptr_def MEMORYMANAGERSTART_def)
  ultimately have "heap_reach [1 \<mapsto> block_kind (rounded 100)] (snd (malloc 100 empty_heap))"
    by (rule heap_reach.malloc_block) simp
  then show ?thesis by (simp only: block_kind_100)
qed

theorem malloc_fresh_witness:
  "\<exists>c b. {0x01A08100 ..< 0x01A08100 + 20000} \<subseteq> block_bytes c b \<and> block_bytes c b \<inter> block_bytes 1 Small = {} \<and>
    heap_reach [1 \<mapsto> Small, c \<mapsto> b] (snd (malloc 20000 (snd (malloc 100 empty_heap))))"
proof -
  let ?m = "snd (malloc 100 empty_heap)"
  have m: "malloc 20000 ?m = (0x01A08100, snd (malloc 20000 ?m))" by (metis malloc_mid prod.collapse)
  have n: "(0x01A08100 :: u32) \<noteq> 0x100" "unat (20000 :: u32) + 0x200 < 2 ^ 32" by simp_all
  have u: "unat (0x01A08100 :: u32) = 0x01A08100" "unat (20000 :: u32) = 20000" by simp_all
  obtain c b where "{0x01A08100 ..< 0x01A08100 + 20000} \<subseteq> block_bytes c b"
    "\<forall>c' b'. [1 \<mapsto> Small] c' = Some b' \<longrightarrow> block_bytes c b \<inter> block_bytes c' b' = {}"
    "heap_reach [1 \<mapsto> Small, c \<mapsto> b] (snd (malloc 20000 ?m))"
    using malloc_fresh [OF heap_reach_small m n] unfolding u by blast
  then show ?thesis using fun_upd_same by metis
qed

text \<open>C34: a release undoes an allocation. After any calls of \<^verbatim>\<open>malloc\<close> and \<^verbatim>\<open>free\<close>, an allocation followed by
  the release of its result leaves every entry of the allocation table as it was before, except exactly those
  of \<^verbatim>\<open>lost_clusters\<close>, which stay marked: all clusters of a block of five, which \<^verbatim>\<open>t_free\<close> does not recognise, and
  the clusters from 1024 on of a larger block that reaches further than one cluster beyond the searched ones.\<close>

theorem malloc_free_restores:
  assumes "heap_reach h m" and "malloc sz m = (p, m')" and "p \<noteq> 0x100"
  shows "\<exists>c < 0x400. p = cluster_ptr c + 0x100 \<and>
    (\<forall>k. memsmall (free p m') k =
      (if k \<in> lost_clusters c (block_kind (rounded sz)) then memsmall m' k else memsmall m k))"
proof -
  let ?b = "block_kind (rounded sz)"
  have inv: "heap_inv h m" by (rule heap_reach_inv [OF assms(1)])
  then have start: "MemoryManagerStartAddress m = MEMORYMANAGERSTART" by (simp add: heap_inv_def)
  obtain c where c: "p = cluster_ptr c + 0x100" "c < 0x400" "free_run (memsmall m) (block_size ?b) c" "block_ok ?b"
    and m': "memsmall m' = mark_block ?b c (memsmall m)"
    using start assms(2)
  proof (cases rule: malloc_cases)
    case exhausted
    then show thesis using assms(3) by blast
  next
    case (block c)
    then show thesis using that first_fit_Some block_kind_ok by simp
  qed
  obtain c' where c': "p = cluster_ptr c' + 0x100" "c' < 0x400" and i: "heap_inv (h(c' \<mapsto> ?b)) m'"
    using heap_inv_malloc [OF inv assms(2)] assms(3) by blast
  have "c' = c" using c(1,2) c' by (intro cluster_ptr_inj) simp_all
  then have f: "memsmall (free p m') = free_clusters c (memsmall m')"
    using free_result [OF i fun_upd_same] c'(1) by simp
  have cells: "memsmall m' (c + k) = block_cell ?b k" if "k < block_size ?b" for k
    unfolding m' using that by (simp add: mark_block_def clusters_def)
  have "memsmall m k = 0" if "k \<in> clusters c ?b" for k
    using c(3) that by (simp add: free_run_def list_all_iff clusters_def)
  moreover have "k \<in> clusters c ?b" if "k \<in> lost_clusters c ?b" for k
    using that c(2) by (auto simp: lost_clusters_def clusters_def split: block.splits if_splits)
  moreover have "memsmall (free p m') = (\<lambda>k. if k \<in> clusters c ?b - lost_clusters c ?b then 0 else memsmall m' k)"
    unfolding f using c(4,2) cells by (rule free_clusters_result)
  ultimately have "memsmall (free p m') k = (if k \<in> lost_clusters c ?b then memsmall m' k else memsmall m k)" for k
    by (auto simp: m' mark_block_def)
  then show ?thesis using c(1,2) by blast
qed

theorem malloc_free_restores_witness:
  "memsmall (free 0x01A08100 (snd (malloc 20000 (snd (malloc 100 empty_heap))))) = memsmall (snd (malloc 100 empty_heap))"
proof -
  let ?m = "snd (malloc 100 empty_heap)"
  have m: "malloc 20000 ?m = (0x01A08100, snd (malloc 20000 ?m))" by (metis malloc_mid prod.collapse)
  have "lost_clusters c (block_kind (rounded 20000)) = {}" for c
    by (simp add: block_kind_def rounded_def lost_clusters_def)
  then show ?thesis using malloc_free_restores [OF heap_reach_small m] by auto
qed

text \<open>\<^verbatim>\<open>malloc\<close> does not report that memory is exhausted. After any calls of \<^verbatim>\<open>malloc\<close> and \<^verbatim>\<open>free\<close> it never
  returns 0; it returns 0x100 exactly when the rounded size is above 5 MB or no run of free
  clusters of that size starts below cluster 1024, and it has then written its header at 0xF8.\<close>

lemma malloc_never_null:
  assumes "heap_reach h m"
  shows "fst (malloc sz m) \<noteq> 0 \<and>
    (fst (malloc sz m) = 0x100 \<longleftrightarrow> 5 * 1024 * 1024 < rounded sz \<or>
      \<not> (\<exists>c \<in> {1..<0x400}. free_run (memsmall m) (block_size (block_kind (rounded sz))) c)) \<and>
    (fst (malloc sz m) = 0x100 \<longrightarrow> words (snd (malloc sz m)) 0xFC = 0x1234567)"
proof -
  obtain p m' where m: "malloc sz m = (p, m')" by fastforce
  have start: "MemoryManagerStartAddress m = MEMORYMANAGERSTART"
    using heap_reach_inv [OF assms] by (simp add: heap_inv_def)
  have lt: "rounded sz < 5 * 1024 * 1024 + 1 \<longleftrightarrow> \<not> 5 * 1024 * 1024 < rounded sz"
    by (simp add: word_less_nat_alt) linarith
  from start m show ?thesis
  proof (cases rule: malloc_cases)
    case exhausted
    then show ?thesis using m lt by (auto simp: set_header_def first_fit_None)
  next
    case (block c)
    then have c: "c \<in> {1..<0x400}" "free_run (memsmall m) (block_size (block_kind (rounded sz))) c"
      using first_fit_Some by auto
    then have "p \<noteq> 0" "p \<noteq> 0x100" using block(3) user_ptr_high [of c] by simp_all
    then show ?thesis using m lt block(1) c by auto
  qed
qed

lemma malloc_never_null_witness:
  "fst (malloc 0x00600000 empty_heap) = 0x100 \<and> words (snd (malloc 0x00600000 empty_heap)) 0xFC = 0x1234567"
proof -
  have "heap_reach Map.empty empty_heap" unfolding empty_heap_def by (rule heap_reach.init)
  moreover have "5 * 1024 * 1024 < rounded 0x00600000" by (simp add: rounded_def)
  ultimately show ?thesis using malloc_never_null [of Map.empty empty_heap "0x00600000"] by blast
qed

end
