(* ===== verification/CString.thy ===== *)
theory CString
  imports ScriptText BootLibrary
begin

text \<open>
  Comparison of strings without regard to case, lib/cromwell/strcasecmp.c. Strings are without their
  terminator and hold no zero character.
\<close>

definition lower :: "char \<Rightarrow> int" where
  "lower c = tolower (of_char c)"

fun strcasecmp :: "string \<Rightarrow> string \<Rightarrow> int" where
  "strcasecmp [] [] = 0"
| "strcasecmp [] (d # t) = 0 - lower d"
| "strcasecmp (c # s) [] = lower c - 0"
| "strcasecmp (c # s) (d # t) = (if lower c = lower d then strcasecmp s t else lower c - lower d)"

fun strncasecmp :: "string \<Rightarrow> string \<Rightarrow> nat \<Rightarrow> int" where
  "strncasecmp s t 0 = 0"
| "strncasecmp [] [] (Suc n) = 0"
| "strncasecmp [] (d # t) (Suc n) = 0 - lower d"
| "strncasecmp (c # s) [] (Suc n) = lower c - 0"
| "strncasecmp (c # s) (d # t) (Suc n) = (if lower c = lower d then strncasecmp s t n else lower c - lower d)"

definition no_nul :: "string \<Rightarrow> bool" where
  "no_nul s = list_all (\<lambda>c. c \<noteq> NUL) s"

lemma char_of_u8: "of_char (char_of (unat b) :: char) = (b :: u8)"
proof -
  have "(of_char (char_of (unat b) :: char) :: u8) = word_of_nat (of_char (char_of (unat b) :: char))"
    by (simp only: of_nat_of_char)
  then show ?thesis using unat_u8_less [of b] by simp
qed

lemma unat_of_char: "unat (of_char c :: u8) = char_code c"
proof -
  have "char_code c < 256" by simp
  moreover have "(of_char c :: u8) = word_of_nat (char_code c)" by (simp only: of_nat_of_char)
  ultimately show ?thesis by (simp add: unsigned_of_nat take_bit_nat_eq_self del: of_nat_of_char)
qed

lemma of_char_eq_0: "(of_char c :: u8) = 0 \<longleftrightarrow> c = NUL"
proof -
  have "char_code c = 0 \<longleftrightarrow> c = NUL" by (cases c) (simp add: of_char_def)
  then show ?thesis using unat_of_char [of c] by (auto simp flip: unat_eq_0)
qed

lemma lower_eq_0: "lower c = 0 \<longleftrightarrow> c = NUL"
proof -
  have "(of_char c :: int) = 0 \<longleftrightarrow> c = NUL" by (cases c) (simp add: of_char_def)
  moreover have "(0 :: int) \<le> of_char c" by (cases c) (simp add: of_char_def)
  ultimately show ?thesis by (auto simp: lower_def tolower_def)
qed

lemma no_nul_simps [simp]: "no_nul []" "no_nul (c # s) \<longleftrightarrow> c \<noteq> NUL \<and> no_nul s"
  "no_nul (s @ t) \<longleftrightarrow> no_nul s \<and> no_nul t"
  by (auto simp: no_nul_def)

lemma strcasecmp_eq_0: "no_nul s \<Longrightarrow> no_nul t \<Longrightarrow> strcasecmp s t = 0 \<longleftrightarrow> map lower s = map lower t"
  by (induction s t rule: strcasecmp.induct) (auto simp: lower_eq_0)

lemma strncasecmp_eq_0:
  "no_nul s \<Longrightarrow> no_nul t \<Longrightarrow> strncasecmp s t n = 0 \<longleftrightarrow> map lower (take n s) = map lower (take n t)"
  by (induction s t n rule: strncasecmp.induct) (auto simp: lower_eq_0)

end
