(* ===== verification/MinIni.thy ===== *)
theory MinIni
  imports CString "HOL-Library.Monad_Syntax"
begin

text \<open>
  Configuration files: lib/minIni/dev/minIni.c as the firmware builds it with minGlue-XBlastOS.h, and
  the line functions of the FatFs library under it (fs/ff13b/source/ff.c, \<^verbatim>\<open>f_gets\<close> and
  \<^verbatim>\<open>f_puts\<close>, which drop carriage returns on input and add them on output). A file is its text,
  a file system a map from names to files, a position in a file the text that follows it. Writing
  to an open file is taken to succeed, as the code does.
\<close>

type_synonym files = "string \<rightharpoonup> string"

definition INI_BUFFERSIZE :: nat where
  "INI_BUFFERSIZE = 256"

subsection \<open>Lines\<close>

fun f_gets_chars :: "nat \<Rightarrow> string \<Rightarrow> string \<times> string" where
  "f_gets_chars n [] = ([], [])"
| "f_gets_chars n (c # s) =
    (if n = 0 then ([], c # s)
     else if c = CR then f_gets_chars n s
     else if c = NL then ([NL], s)
     else let (l, r) = f_gets_chars (n - 1) s in (c # l, r))"

text \<open>Whether a character was read, the string in the buffer, the new position.\<close>

definition ini_read :: "nat \<Rightarrow> string \<Rightarrow> bool \<times> string \<times> string" where
  "ini_read sz pos =
    (let (l, r) = f_gets_chars (sz - 1) pos in (l \<noteq> [], takeWhile (\<lambda>c. c \<noteq> NUL) l, r))"

definition f_puts :: "string \<Rightarrow> string" where
  "f_puts s = concat (map (\<lambda>c. if c = NL then [CR, NL] else [c]) s)"

lemma f_gets_chars_rest: "f_gets_chars n s = (l, r) \<Longrightarrow> length r + length l \<le> length s"
  by (induction n s arbitrary: l r rule: f_gets_chars.induct) (fastforce split: if_splits prod.splits)+

lemma ini_read_shorter: "ini_read n s = (True, l, r) \<Longrightarrow> length r < length s"
proof -
  assume r: "ini_read n s = (True, l, r)"
  obtain a b where ab: "f_gets_chars (n - 1) s = (a, b)" by fastforce
  then have "r = b" "a \<noteq> []" using r by (auto simp: ini_read_def)
  moreover have "length b + length a \<le> length s" by (rule f_gets_chars_rest [OF ab])
  ultimately show ?thesis by (cases a) simp_all
qed

lemma ini_read_rest [termination_simp]: "(True, y) = ini_read n s \<Longrightarrow> length (snd y) < length s"
  by (cases y) (auto dest: ini_read_shorter [OF sym])

subsection \<open>Strings\<close>

datatype quote_option = QUOTE_NONE | QUOTE_ENQUOTE | QUOTE_DEQUOTE

definition low :: "char \<Rightarrow> bool" where
  "low c \<longleftrightarrow> c \<noteq> NUL \<and> char_code c \<le> 32"

definition skipleading :: "string \<Rightarrow> string" where
  "skipleading s = dropWhile low s"

definition striptrailing :: "string \<Rightarrow> string" where
  "striptrailing s = rev (dropWhile low (rev s))"

text \<open>The loops of \<^verbatim>\<open>ini_strncpy\<close>, with the room left for characters.\<close>

fun enquote :: "nat \<Rightarrow> string \<Rightarrow> string" where
  "enquote n [] = []"
| "enquote n (c # s) =
    (if n = 0 then []
     else if c = DQUOTE then (if n < 2 then [] else CHR 0x5C # c # enquote (n - 2) s)
     else c # enquote (n - 1) s)"

fun dequote :: "nat \<Rightarrow> string \<Rightarrow> string" where
  "dequote n [] = []"
| "dequote 0 s = []"
| "dequote (Suc n) [c] = [c]"
| "dequote (Suc n) (c # d # s) =
    (if (c = DQUOTE \<or> c = CHR 0x5C) \<and> d = DQUOTE then d # dequote n s else c # dequote n (d # s))"

definition ini_strncpy :: "nat \<Rightarrow> quote_option \<Rightarrow> string \<Rightarrow> string" where
  "ini_strncpy maxlen option source =
    (let option = (if option = QUOTE_ENQUOTE \<and> maxlen < 3 then QUOTE_NONE else option)
     in case option of
          QUOTE_NONE \<Rightarrow> take (maxlen - 1) source
        | QUOTE_ENQUOTE \<Rightarrow> DQUOTE # enquote (maxlen - 3) source @ [DQUOTE]
        | QUOTE_DEQUOTE \<Rightarrow> dequote (maxlen - 1) source)"

text \<open>The part of a value before a comment; the first argument is \<^verbatim>\<open>isstring\<close>.\<close>

fun before_comment :: "bool \<Rightarrow> string \<Rightarrow> string" where
  "before_comment isstring [] = []"
| "before_comment isstring [c] = (if (c = CHR '';'' \<or> c = CHR ''#'') \<and> \<not> isstring then [] else [c])"
| "before_comment isstring (c # d # s) =
    (if (c = CHR '';'' \<or> c = CHR ''#'') \<and> \<not> isstring then []
     else if c = DQUOTE then
       (if d = DQUOTE then c # d # before_comment isstring s else c # before_comment (\<not> isstring) (d # s))
     else if c = CHR 0x5C \<and> d = DQUOTE then c # d # before_comment isstring s
     else c # before_comment isstring (d # s))"

definition cleanstring :: "string \<Rightarrow> string \<times> quote_option" where
  "cleanstring s =
    (let s = striptrailing (before_comment False s)
     in if s \<noteq> [] \<and> hd s = DQUOTE \<and> last s = DQUOTE then (butlast (tl s), QUOTE_DEQUOTE) else (s, QUOTE_NONE))"

definition starts :: "char \<Rightarrow> string \<Rightarrow> bool" where
  "starts c s \<longleftrightarrow> s \<noteq> [] \<and> hd s = c"

text \<open>The name in a section line, up to the last bracket, and the parts of a line before and behind its
  equal sign or, without one, its colon.\<close>

definition section_name :: "string \<Rightarrow> string option" where
  "section_name sp =
    (if starts (CHR ''['') sp \<and> CHR '']'' \<in> set sp
     then Some (tl (rev (tl (dropWhile (\<lambda>c. c \<noteq> CHR '']'') (rev sp))))) else None)"

definition split_at :: "char \<Rightarrow> string \<Rightarrow> string \<times> string" where
  "split_at c s = (takeWhile (\<lambda>d. d \<noteq> c) s, tl (dropWhile (\<lambda>d. d \<noteq> c) s))"

definition split_line :: "string \<Rightarrow> (string \<times> string) option" where
  "split_line sp =
    (if CHR ''='' \<in> set sp then Some (split_at (CHR ''='') sp)
     else if CHR '':'' \<in> set sp then Some (split_at (CHR '':'') sp) else None)"


subsection \<open>Reading\<close>

function find_section :: "string option \<Rightarrow> int \<Rightarrow> int \<Rightarrow> string \<Rightarrow> (int \<times> string \<times> string) option" where
  "find_section Section idxSection idx pos =
    (case ini_read INI_BUFFERSIZE pos of
       (False, _) \<Rightarrow> None
     | (True, line, pos') \<Rightarrow>
         (case section_name (skipleading line) of
            None \<Rightarrow> find_section Section idxSection idx pos'
          | Some name \<Rightarrow>
              if (case Section of None \<Rightarrow> False | Some sec \<Rightarrow> length name = length sec \<and> strncasecmp name sec (length sec) = 0)
              then Some (idx, name, pos')
              else if idx + 1 \<noteq> idxSection then find_section Section idxSection (idx + 1) pos'
              else Some (idx + 1, name, pos')))"
  by pat_completeness auto
termination by (relation "measure (\<lambda>(_, _, _, pos). length pos)") (auto dest: ini_read_shorter [OF sym])

function find_key :: "string option \<Rightarrow> int \<Rightarrow> int \<Rightarrow> string \<Rightarrow> (int \<times> string \<times> string \<times> string \<times> string) option" where
  "find_key Key idxKey idx pos =
    (case ini_read INI_BUFFERSIZE pos of
       (False, _) \<Rightarrow> None
     | (True, line, pos') \<Rightarrow>
         (let sp = skipleading line
          in if starts (CHR ''['') sp then None
             else if starts (CHR '';'') sp \<or> starts (CHR ''#'') sp then find_key Key idxKey idx pos'
             else case split_line sp of
                    None \<Rightarrow> find_key Key idxKey idx pos'
                  | Some (k, v) \<Rightarrow>
                      if (case Key of None \<Rightarrow> False
                          | Some key \<Rightarrow> key \<noteq> [] \<and> length (striptrailing k) = length key \<and> strncasecmp sp key (length key) = 0)
                      then Some (idx, striptrailing k, v, pos, pos')
                      else if idx + 1 \<noteq> idxKey then find_key Key idxKey (idx + 1) pos'
                      else Some (idx + 1, striptrailing k, v, pos, pos')))"
  by pat_completeness auto
termination by (relation "measure (\<lambda>(_, _, _, pos). length pos)") (auto dest: ini_read_shorter [OF sym])

declare find_section.simps [simp del] find_key.simps [simp del]

text \<open>The string for \<^verbatim>\<open>Buffer\<close>, and the position of the line it is from.\<close>

definition getkeystring :: "string option \<Rightarrow> string option \<Rightarrow> int \<Rightarrow> int \<Rightarrow> nat \<Rightarrow> string \<Rightarrow> (string \<times> string) option" where
  "getkeystring Section Key idxSection idxKey BufferSize pos =
    (let in_section = (case Section of None \<Rightarrow> False | Some sec \<Rightarrow> sec \<noteq> []);
         entry = (\<lambda>p. case find_key Key idxKey (-1) p of
             None \<Rightarrow> None
           | Some (idx, k, v, mark, _) \<Rightarrow>
               if 0 \<le> idxKey then (if idx = idxKey then Some (ini_strncpy BufferSize QUOTE_NONE k, mark) else None)
               else (let (w, quotes) = cleanstring (skipleading v) in Some (ini_strncpy BufferSize quotes w, mark)))
     in if in_section \<or> 0 \<le> idxSection
        then (case find_section Section idxSection (-1) pos of
                None \<Rightarrow> None
              | Some (idx, name, pos') \<Rightarrow>
                  if 0 \<le> idxSection then (if idx = idxSection then Some (ini_strncpy BufferSize QUOTE_NONE name, pos') else None)
                  else entry pos')
        else entry pos)"

definition ini_gets :: "string option \<Rightarrow> string \<Rightarrow> string \<Rightarrow> nat \<Rightarrow> string \<Rightarrow> files \<Rightarrow> string" where
  "ini_gets Section Key DefValue BufferSize Filename fs =
    (case Option.bind (fs Filename) (getkeystring Section (Some Key) (-1) (-1) BufferSize) of
       Some (b, _) \<Rightarrow> b
     | None \<Rightarrow> ini_strncpy BufferSize QUOTE_NONE DefValue)"

definition ini_getl :: "string option \<Rightarrow> string \<Rightarrow> int \<Rightarrow> string \<Rightarrow> files \<Rightarrow> int" where
  "ini_getl Section Key DefValue Filename fs =
    (let b = ini_gets Section Key [] 64 Filename fs
     in if b = [] then DefValue
        else if 2 \<le> length b \<and> toupper (of_char (b ! 1)) = 88 then fst (strtol b 16) else fst (strtol b 10))"

definition ini_getbool :: "string option \<Rightarrow> string \<Rightarrow> int \<Rightarrow> string \<Rightarrow> files \<Rightarrow> int" where
  "ini_getbool Section Key DefValue Filename fs =
    (case ini_gets Section Key [] 2 Filename fs of
       [] \<Rightarrow> DefValue
     | c # _ \<Rightarrow> if toupper (of_char c) \<in> {89, 49, 84} then 1
                else if toupper (of_char c) \<in> {78, 48, 70} then 0 else DefValue)"

definition ini_getsection :: "int \<Rightarrow> nat \<Rightarrow> string \<Rightarrow> files \<Rightarrow> string" where
  "ini_getsection idx BufferSize Filename fs =
    (case Option.bind (fs Filename) (getkeystring None None idx (-1) BufferSize) of Some (b, _) \<Rightarrow> b | None \<Rightarrow> [])"

definition ini_getkey :: "string option \<Rightarrow> int \<Rightarrow> nat \<Rightarrow> string \<Rightarrow> files \<Rightarrow> string" where
  "ini_getkey Section idx BufferSize Filename fs =
    (case Option.bind (fs Filename) (getkeystring Section None (-1) idx BufferSize) of Some (b, _) \<Rightarrow> b | None \<Rightarrow> [])"

text \<open>\<^verbatim>\<open>ini_browse\<close>: the section name is kept in the buffer in front of the line, the key in front of the value.\<close>

function browse_loop :: "(string \<Rightarrow> string \<Rightarrow> string \<Rightarrow> 's \<Rightarrow> bool \<times> 's) \<Rightarrow> string \<Rightarrow> string \<Rightarrow> 's \<Rightarrow> 's" where
  "browse_loop Callback sec pos UserData =
    (let lenSec = length sec + 1 in
     case ini_read (INI_BUFFERSIZE - lenSec) pos of
       (False, _) \<Rightarrow> UserData
     | (True, line, pos') \<Rightarrow>
         (let sp = skipleading line
          in if sp = [] \<or> starts (CHR '';'') sp \<or> starts (CHR ''#'') sp then browse_loop Callback sec pos' UserData
             else case section_name sp of
               Some name \<Rightarrow> browse_loop Callback (ini_strncpy INI_BUFFERSIZE QUOTE_NONE name) pos' UserData
             | None \<Rightarrow>
                 (case split_line sp of
                    None \<Rightarrow> browse_loop Callback sec pos' UserData
                  | Some (k, v) \<Rightarrow>
                      (let key = ini_strncpy (INI_BUFFERSIZE - lenSec) QUOTE_NONE (striptrailing k);
                           lenKey = length key + 1;
                           (w, quotes) = cleanstring (skipleading v);
                           (continue, UserData') =
                             Callback sec key (ini_strncpy (INI_BUFFERSIZE - lenSec - lenKey) quotes w) UserData
                       in if continue then browse_loop Callback sec pos' UserData' else UserData'))))"
  by pat_completeness auto
termination by (relation "measure (\<lambda>(_, _, pos, _). length pos)") (auto dest: ini_read_shorter [OF sym])

declare browse_loop.simps [simp del]

definition ini_browse ::
  "(string \<Rightarrow> string \<Rightarrow> string \<Rightarrow> 's \<Rightarrow> bool \<times> 's) \<Rightarrow> 's \<Rightarrow> string \<Rightarrow> files \<Rightarrow> int \<times> 's" where
  "ini_browse Callback UserData Filename fs =
    (case fs Filename of None \<Rightarrow> (0, UserData) | Some t \<Rightarrow> (1, browse_loop Callback [] t UserData))"


subsection \<open>Writing\<close>

definition ini_tempname :: "string \<Rightarrow> string" where
  "ini_tempname source = butlast (ini_strncpy INI_BUFFERSIZE QUOTE_NONE source) @ ''~''"

definition check_enquote :: "string \<Rightarrow> quote_option" where
  "check_enquote v =
    (if (\<exists>c \<in> set v. c \<in> {DQUOTE, CHR '';'', CHR ''#''}) \<or> v \<noteq> [] \<and> last v = CHR '' '' then QUOTE_ENQUOTE else QUOTE_NONE)"

definition writesection :: "string option \<Rightarrow> string" where
  "writesection Section =
    (case Section of
       None \<Rightarrow> []
     | Some sec \<Rightarrow> if sec = [] then []
                    else CHR ''['' # ini_strncpy (INI_BUFFERSIZE - 4) QUOTE_NONE sec @ [CHR '']'', NL])"

definition writekey :: "string \<Rightarrow> string \<Rightarrow> string" where
  "writekey Key v =
    (let k = ini_strncpy (INI_BUFFERSIZE - 3) QUOTE_NONE Key
     in k @ CHR ''='' # ini_strncpy (INI_BUFFERSIZE - (length k + 1) - 2) (check_enquote v) v @ [NL])"

definition write_entry :: "string option \<Rightarrow> string option \<Rightarrow> string" where
  "write_entry Key v = (case (Key, v) of (Some k, Some w) \<Rightarrow> writekey k w | _ \<Rightarrow> [])"

text \<open>The cache is the number of characters of the input, from \<^verbatim>\<open>mark\<close> on, that are still to be copied.
  \<^verbatim>\<open>cache_flush\<close> reads them again; when the input ends before, its loop does not end.\<close>

function cache_fill :: "nat \<Rightarrow> string \<Rightarrow> string \<Rightarrow> (string \<times> string) option" where
  "cache_fill sz buffer pos =
    (if length buffer < sz
     then (case ini_read (INI_BUFFERSIZE - length buffer) pos of
             (False, _) \<Rightarrow> None
           | (True, line, pos') \<Rightarrow> cache_fill sz (take sz (buffer @ line)) pos')
     else Some (buffer, pos))"
  by pat_completeness auto
termination by (relation "measure (\<lambda>(_, _, pos). length pos)") (auto dest: ini_read_shorter [OF sym])

declare cache_fill.simps [simp del]

text \<open>The state while a file is copied: \<^verbatim>\<open>cachelen\<close>, \<^verbatim>\<open>mark\<close>, the position in the input, the output.\<close>

record copy_state =
  cachelen :: nat
  copy_mark :: string
  rfp :: string
  wfp :: string

definition cache_flush :: "copy_state \<Rightarrow> (bool \<times> copy_state) option" where
  "cache_flush st = do {
     (buffer, pos) \<leftarrow> cache_fill (cachelen st) [] (copy_mark st);
     let buffer = take (INI_BUFFERSIZE - 1) buffer;
     Some (1 < length buffer \<and> last buffer = NL,
       \<lparr>cachelen = 0, copy_mark = pos, rfp = pos, wfp = wfp st @ f_puts buffer\<rparr>)
   }"

definition cache_accum :: "string \<Rightarrow> nat \<Rightarrow> bool \<times> nat" where
  "cache_accum line sz = (if sz + length line \<ge> INI_BUFFERSIZE then (False, sz) else (True, sz + length line))"

definition read_line :: "copy_state \<Rightarrow> bool \<times> string \<times> copy_state" where
  "read_line st = (let (ok, line, pos) = ini_read INI_BUFFERSIZE (rfp st) in (ok, line, st\<lparr>rfp := pos\<rparr>))"

text \<open>A line that was read is copied: added to the cache, which is flushed when it is full.\<close>

definition copy_line :: "string \<Rightarrow> copy_state \<Rightarrow> copy_state option" where
  "copy_line line st =
    (case cache_accum line (cachelen st) of
       (True, n) \<Rightarrow> Some (st\<lparr>cachelen := n\<rparr>)
     | (False, _) \<Rightarrow> do {
         (_, st) \<leftarrow> cache_flush st;
         let (_, line', st) = read_line st;
         Some (st\<lparr>cachelen := snd (cache_accum line' (cachelen st))\<rparr>)
       })"

text \<open>The search for the section: \<^verbatim>\<open>False\<close> when the input ends.\<close>

partial_function (option) copy_section :: "string option \<Rightarrow> string option \<Rightarrow> copy_state \<Rightarrow> (bool \<times> copy_state) option" where
  "copy_section Section Key st =
    (let (ok, line, st) = read_line st;
         matched = (case section_name (skipleading line) of
            None \<Rightarrow> False
          | Some name \<Rightarrow> length name = length (the Section) \<and> strncasecmp name (the Section) (length (the Section)) = 0)
     in if \<not> ok then Some (False, st)
        else do {
          st \<leftarrow> (if \<not> matched \<or> Key \<noteq> None then copy_line line st else Some st);
          if matched then Some (True, st) else copy_section Section Key st
        })"

definition key_matches :: "string option \<Rightarrow> string \<Rightarrow> bool" where
  "key_matches Key sp =
    (case (Key, split_line sp) of
       (Some key, Some (k, _)) \<Rightarrow> key \<noteq> [] \<and> length (striptrailing k) = length key \<and> strncasecmp sp key (length key) = 0
     | _ \<Rightarrow> False)"

text \<open>The search for the entry: \<^const>\<open>None\<close> when the input ends, or whether a new section starts.\<close>

partial_function (option) copy_entries :: "string option \<Rightarrow> copy_state \<Rightarrow> (bool option \<times> copy_state) option" where
  "copy_entries Key st =
    (let (ok, line, st) = read_line st; sp = skipleading line
     in if \<not> ok then Some (None, st)
        else if key_matches Key sp \<or> starts (CHR ''['') sp then Some (Some (starts (CHR ''['') sp), st)
        else if Key = None then copy_entries Key (st\<lparr>copy_mark := rfp st\<rparr>)
        else do { st \<leftarrow> copy_line line st; copy_entries Key st })"

partial_function (option) copy_rest :: "copy_state \<Rightarrow> copy_state option" where
  "copy_rest st =
    (let (ok, line, st) = read_line st
     in if \<not> ok then Some st else do { st \<leftarrow> copy_line line st; copy_rest st })"

definition close_rename :: "string \<Rightarrow> copy_state \<Rightarrow> files \<Rightarrow> files" where
  "close_rename Filename st fs = (fs(Filename := Some (wfp st)))(ini_tempname Filename := None)"

text \<open>The input has ended: the entry is put behind it, on a line of its own.\<close>

definition append_entry :: "string \<Rightarrow> string option \<Rightarrow> string option \<Rightarrow> copy_state \<Rightarrow> copy_state option" where
  "append_entry sec Key v st = do {
     (flag, st) \<leftarrow> cache_flush st;
     Some (if Key \<noteq> None \<and> v \<noteq> None
           then st\<lparr>wfp := wfp st @ (if flag then [] else f_puts [NL]) @ f_puts (sec @ write_entry Key v)\<rparr>
           else st)
   }"

definition put_entry :: "string option \<Rightarrow> string option \<Rightarrow> copy_state \<Rightarrow> copy_state option" where
  "put_entry Key v st = do {
     (found, st) \<leftarrow> copy_entries Key st;
     case found of
       None \<Rightarrow> append_entry [] Key v st
     | Some flag \<Rightarrow> do {
         (_, st) \<leftarrow> cache_flush st;
         let st = st\<lparr>wfp := wfp st @ f_puts (write_entry Key v)\<rparr>;
         let (_, line, st) = read_line st;
         let st = (if flag then st\<lparr>cachelen := snd (cache_accum line (cachelen st))\<rparr> else st\<lparr>copy_mark := rfp st\<rparr>);
         st \<leftarrow> copy_rest st;
         (_, st) \<leftarrow> cache_flush st;
         Some st
       }
   }"

text \<open>The rewriting of an existing file, from its beginning.\<close>

definition rewrite :: "string option \<Rightarrow> string option \<Rightarrow> string option \<Rightarrow> string \<Rightarrow> copy_state option" where
  "rewrite Section Key v t = do {
     (found, st) \<leftarrow> (case Section of
          Some (c # s) \<Rightarrow> copy_section Section Key \<lparr>cachelen = 0, copy_mark = t, rfp = t, wfp = []\<rparr>
        | _ \<Rightarrow> Some (True, \<lparr>cachelen = 0, copy_mark = t, rfp = t, wfp = []\<rparr>));
     if \<not> found then append_entry (writesection Section) Key v st
     else do {
       (_, st) \<leftarrow> cache_flush st;
       let st = (if Key = None then (let (_, _, st) = read_line st in st\<lparr>copy_mark := rfp st\<rparr>) else st);
       put_entry Key v st
     }
   }"

text \<open>\<^verbatim>\<open>writable\<close> says which files can be opened for writing. The result is the return value and the file
  system, \<^const>\<open>None\<close> a loop that does not end.\<close>

definition ini_puts ::
  "(string \<Rightarrow> bool) \<Rightarrow> string option \<Rightarrow> string option \<Rightarrow> string option \<Rightarrow> string \<Rightarrow> files \<Rightarrow> (int \<times> files) option" where
  "ini_puts writable Section Key v Filename fs =
    (case fs Filename of
       None \<Rightarrow>
         if Key \<noteq> None \<and> v \<noteq> None
         then (if \<not> writable Filename then Some (0, fs)
               else Some (1, fs(Filename \<mapsto> f_puts (writesection Section @ write_entry Key v))))
         else Some (1, fs)
     | Some t \<Rightarrow>
         if Key \<noteq> None \<and> v \<noteq> None \<and>
            map_option fst (getkeystring Section Key (-1) (-1) INI_BUFFERSIZE t) = v
         then Some (1, fs)
         else if \<not> writable (ini_tempname Filename) then Some (0, fs)
         else do {
           st \<leftarrow> rewrite Section Key v t;
           Some (1, close_rename Filename st fs)
         })"

text \<open>\<^verbatim>\<open>long2str\<close> writes the digits in reverse; the division truncates.\<close>

function digits_rev :: "int \<Rightarrow> string" where
  "digits_rev n = char_of (nat \<bar>sgn n * (\<bar>n\<bar> mod 10)\<bar> + 48) #
     (if sgn n * (\<bar>n\<bar> div 10) = 0 then [] else digits_rev (sgn n * (\<bar>n\<bar> div 10)))"
  by pat_completeness auto
termination
proof (relation "measure (\<lambda>n. nat \<bar>n\<bar>)", goal_cases)
  case (2 n)
  then show ?case by (auto simp: abs_mult sgn_if split: if_splits)
qed simp

declare digits_rev.simps [simp del]

definition long2str :: "int \<Rightarrow> string" where
  "long2str n = rev (digits_rev n @ (if n < 0 then ''-'' else []))"

definition ini_putl :: "(string \<Rightarrow> bool) \<Rightarrow> string option \<Rightarrow> string option \<Rightarrow> int \<Rightarrow> string \<Rightarrow> files \<Rightarrow> (int \<times> files) option" where
  "ini_putl writable Section Key n Filename fs = ini_puts writable Section Key (Some (long2str n)) Filename fs"

end
