(* ===== verification/MinIni_Text.thy ===== *)
theory MinIni_Text
  imports MinIni
begin

text \<open>
  What the operations of MinIni do to a text file, line by line. A tidy file has lines of at most 254
  characters, each closed by a carriage return and a newline; comments, sections and lines of any
  other form are allowed. Reading such a file gives its lines, and rewriting it through the cache
  of \<^verbatim>\<open>ini_puts\<close> loses, repeats or reorders none of them.
\<close>

definition tidy_line :: "string \<Rightarrow> bool" where
  "tidy_line l \<longleftrightarrow> length l \<le> 254 \<and> NUL \<notin> set l \<and> CR \<notin> set l \<and> NL \<notin> set l"

definition tidy :: "string list \<Rightarrow> bool" where
  "tidy ls = list_all tidy_line ls"

definition render :: "string list \<Rightarrow> string" where
  "render ls = concat (map (\<lambda>l. l @ [CR, NL]) ls)"

text \<open>The lines as the buffer holds them.\<close>

definition plain :: "string list \<Rightarrow> string" where
  "plain ls = concat (map (\<lambda>l. l @ [NL]) ls)"

lemma tidy_simps [simp]: "tidy []" "tidy (l # ls) \<longleftrightarrow> tidy_line l \<and> tidy ls" "tidy (ls @ rs) \<longleftrightarrow> tidy ls \<and> tidy rs"
  by (simp_all add: tidy_def)

lemma render_simps [simp]: "render [] = []" "render (l # ls) = l @ CR # NL # render ls" "render (ls @ rs) = render ls @ render rs"
  by (simp_all add: render_def)

lemma plain_simps [simp]: "plain [] = []" "plain (l # ls) = l @ NL # plain ls" "plain (ls @ rs) = plain ls @ plain rs"
  by (simp_all add: plain_def)

subsection \<open>Reading a line\<close>

lemma f_gets_chars_line:
  "CR \<notin> set l \<Longrightarrow> NL \<notin> set l \<Longrightarrow> length l < n \<Longrightarrow> f_gets_chars n (l @ CR # NL # t) = (l @ [NL], t)"
  by (induction l arbitrary: n) auto

lemma ini_read_line: "tidy_line l \<Longrightarrow> length l + 1 < n \<Longrightarrow> ini_read n (l @ CR # NL # t) = (True, l @ [NL], t)"
proof -
  assume l: "tidy_line l" and n: "length l + 1 < n"
  have "f_gets_chars (n - 1) (l @ CR # NL # t) = (l @ [NL], t)"
    using l n by (intro f_gets_chars_line) (auto simp: tidy_line_def)
  moreover have "takeWhile (\<lambda>c. c \<noteq> NUL) (l @ [NL]) = l @ [NL]"
    using l by (auto simp: tidy_line_def takeWhile_eq_all_conv)
  ultimately show ?thesis by (simp add: ini_read_def)
qed

lemma ini_read_end: "ini_read n [] = (False, [], [])"
  by (simp add: ini_read_def)

lemma f_puts_append: "f_puts (s @ t) = f_puts s @ f_puts t"
  by (simp add: f_puts_def)

lemma f_puts_line: "NL \<notin> set l \<Longrightarrow> f_puts (l @ [NL]) = l @ [CR, NL]"
  unfolding f_puts_append by (induction l) (auto simp: f_puts_def)

lemma f_puts_plain: "tidy ls \<Longrightarrow> f_puts (plain ls) = render ls"
proof (induction ls)
  case (Cons l ls)
  have "f_puts (plain (l # ls)) = f_puts (l @ [NL]) @ f_puts (plain ls)"
    unfolding f_puts_append [symmetric] by simp
  then show ?case using Cons by (simp add: f_puts_line tidy_line_def)
qed (simp add: f_puts_def)

subsection \<open>The cache\<close>

lemma cache_fill_lines:
  "tidy ls \<Longrightarrow> length buf + length (plain ls) < INI_BUFFERSIZE \<Longrightarrow>
    cache_fill (length buf + length (plain ls)) buf (render ls @ t) = Some (buf @ plain ls, t)"
proof (induction ls arbitrary: buf)
  case Nil
  then show ?case by (simp add: cache_fill.simps)
next
  case (Cons l ls)
  let ?sz = "length buf + length (plain (l # ls))"
  have r: "ini_read (INI_BUFFERSIZE - length buf) (l @ CR # NL # render ls @ t) = (True, l @ [NL], render ls @ t)"
    using Cons.prems by (intro ini_read_line) auto
  have "cache_fill ?sz buf (render (l # ls) @ t) = cache_fill ?sz (take ?sz (buf @ l @ [NL])) (render ls @ t)"
    by (subst cache_fill.simps) (simp add: r)
  also have "take ?sz (buf @ l @ [NL]) = buf @ l @ [NL]" by simp
  also have "cache_fill ?sz (buf @ l @ [NL]) (render ls @ t) = Some ((buf @ l @ [NL]) @ plain ls, t)"
    using Cons.IH [of "buf @ l @ [NL]"] Cons.prems by (simp add: add.assoc)
  finally show ?case by simp
qed

text \<open>The state in which some lines are in the cache: read, but not yet copied to the output.\<close>

definition copying :: "string list \<Rightarrow> string \<Rightarrow> string \<Rightarrow> copy_state" where
  "copying ls pos out = \<lparr>cachelen = length (plain ls), copy_mark = render ls @ pos, rfp = pos, wfp = out\<rparr>"

definition cached :: "string list \<Rightarrow> bool" where
  "cached ls \<longleftrightarrow> tidy ls \<and> length (plain ls) < INI_BUFFERSIZE"

lemma last_plain: "ls \<noteq> [] \<Longrightarrow> last (plain ls) = NL"
  by (induction ls rule: rev_induct) auto

lemma cache_flush_copying:
  assumes "cached ls" "cachelen st = length (plain ls)" "copy_mark st = render ls @ pos"
  shows "cache_flush st = Some (1 < length (plain ls), copying [] pos (wfp st @ render ls))"
proof -
  have "cache_fill (length (plain ls)) [] (render ls @ pos) = Some (plain ls, pos)"
    using cache_fill_lines [of ls "[]" pos] assms(1) by (simp add: cached_def)
  moreover have "take (INI_BUFFERSIZE - 1) (plain ls) = plain ls" using assms(1) by (auto simp: cached_def)
  moreover have "1 < length (plain ls) \<Longrightarrow> last (plain ls) = NL" using last_plain [of ls] by (cases "ls = []") simp_all
  ultimately show ?thesis using assms by (auto simp: cache_flush_def copying_def cached_def f_puts_plain Let_def INI_BUFFERSIZE_def)
qed

lemma read_line_copying:
  "tidy_line l \<Longrightarrow> read_line (copying ls (l @ CR # NL # t) out) = (True, l @ [NL], (copying ls (l @ CR # NL # t) out)\<lparr>rfp := t\<rparr>)"
  by (simp add: read_line_def copying_def INI_BUFFERSIZE_def ini_read_line tidy_line_def)

lemma read_line_end: "read_line (copying ls [] out) = (False, [], copying ls [] out)"
  by (simp add: read_line_def copying_def ini_read_end)

lemma copy_line_copying:
  assumes ls: "cached ls" and l: "tidy_line l"
  obtains ls' out' where
    "copy_line (l @ [NL]) ((copying ls (l @ CR # NL # t) out)\<lparr>rfp := t\<rparr>) = Some (copying ls' t out')"
    "cached ls'" "out' @ render ls' = out @ render ls @ l @ [CR, NL]" "ls' \<noteq> []" "last ls' = l"
proof (cases "length (plain ls) + length (l @ [NL]) < INI_BUFFERSIZE")
  case True
  then have "copy_line (l @ [NL]) ((copying ls (l @ CR # NL # t) out)\<lparr>rfp := t\<rparr>) = Some (copying (ls @ [l]) t out)"
    by (simp add: copy_line_def cache_accum_def copying_def)
  moreover have "cached (ls @ [l])" using True ls l by (simp add: cached_def)
  ultimately show thesis by (rule that) simp_all
next
  case False
  let ?st = "(copying ls (l @ CR # NL # t) out)\<lparr>rfp := t\<rparr>"
  have f: "cache_flush ?st = Some (1 < length (plain ls), copying [] (l @ CR # NL # t) (out @ render ls))"
    using cache_flush_copying [OF ls, of ?st "l @ CR # NL # t"] by (simp add: copying_def)
  have "copy_line (l @ [NL]) ?st = Some (copying [l] t (out @ render ls))"
    using False l unfolding copy_line_def cache_accum_def
    by (simp add: f read_line_copying) (simp add: copying_def tidy_line_def INI_BUFFERSIZE_def)
  moreover have "cached [l]" using l by (simp add: cached_def tidy_line_def INI_BUFFERSIZE_def)
  ultimately show thesis by (rule that) simp_all
qed


subsection \<open>Copying\<close>

definition sp_of :: "string \<Rightarrow> string" where
  "sp_of l = skipleading (l @ [NL])"

definition is_entry :: "string \<Rightarrow> string \<Rightarrow> bool" where
  "is_entry k l = key_matches (Some k) (sp_of l)"

definition is_section :: "string \<Rightarrow> bool" where
  "is_section l = starts (CHR ''['') (sp_of l)"

definition stops :: "string \<Rightarrow> string \<Rightarrow> bool" where
  "stops k l \<longleftrightarrow> is_entry k l \<or> is_section l"

lemma copy_entries_line:
  assumes "tidy_line l"
  shows "copy_entries (Some k) (copying ls (l @ CR # NL # t) out) =
    (let st = (copying ls (l @ CR # NL # t) out)\<lparr>rfp := t\<rparr>
     in if stops k l then Some (Some (is_section l), st)
        else do { st \<leftarrow> copy_line (l @ [NL]) st; copy_entries (Some k) st })"
  by (subst copy_entries.simps)
    (simp add: read_line_copying [OF assms] Let_def stops_def is_entry_def is_section_def sp_of_def)

lemma copy_entries_all:
  assumes "cached ls" "tidy rs" "list_all (\<lambda>l. \<not> stops k l) rs"
  shows "\<exists>ls' out'. copy_entries (Some k) (copying ls (render rs) out) = Some (None, copying ls' [] out') \<and>
    cached ls' \<and> out' @ render ls' = out @ render ls @ render rs \<and>
    (if rs = [] then ls' = ls else ls' \<noteq> [] \<and> last ls' = last rs)"
  using assms
proof (induction rs arbitrary: ls out)
  case Nil
  then show ?case by (subst copy_entries.simps) (auto simp: read_line_end)
next
  case (Cons l rs)
  have l: "tidy_line l" "\<not> stops k l" and rs: "tidy rs" "list_all (\<lambda>l. \<not> stops k l) rs" using Cons.prems(2,3) by simp_all
  obtain ls1 out1 where c: "copy_line (l @ [NL]) ((copying ls (l @ CR # NL # render rs) out)\<lparr>rfp := render rs\<rparr>)
      = Some (copying ls1 (render rs) out1)" "cached ls1" "out1 @ render ls1 = out @ render ls @ l @ [CR, NL]"
      "ls1 \<noteq> []" "last ls1 = l"
    using copy_line_copying [OF Cons.prems(1) l(1)] .
  then have s: "copy_entries (Some k) (copying ls (render (l # rs)) out) = copy_entries (Some k) (copying ls1 (render rs) out1)"
    using l by (simp add: copy_entries_line)
  obtain ls' out' where "copy_entries (Some k) (copying ls1 (render rs) out1) = Some (None, copying ls' [] out')" "cached ls'"
      "out' @ render ls' = out1 @ render ls1 @ render rs" "if rs = [] then ls' = ls1 else ls' \<noteq> [] \<and> last ls' = last rs"
    using Cons.IH [OF c(2) rs, of out1] by blast
  then show ?case unfolding s using c(3-5) by (intro exI [of _ ls'] exI [of _ out']) (auto split: if_splits)
qed

lemma copy_entries_found:
  assumes "cached ls" "tidy (rs @ l # after)" "list_all (\<lambda>l. \<not> stops k l) rs" "stops k l"
  shows "\<exists>ls' out'. copy_entries (Some k) (copying ls (render (rs @ l # after)) out) =
      Some (Some (is_section l), (copying ls' (render (l # after)) out')\<lparr>rfp := render after\<rparr>) \<and>
    cached ls' \<and> out' @ render ls' = out @ render ls @ render rs"
  using assms
proof (induction rs arbitrary: ls out)
  case Nil
  then show ?case by (auto simp: copy_entries_line)
next
  case (Cons r rs)
  have r: "tidy_line r" "\<not> stops k r" and rs: "tidy (rs @ l # after)" "list_all (\<lambda>l. \<not> stops k l) rs"
    using Cons.prems(2,3) by simp_all
  let ?t = "render (rs @ l # after)"
  obtain ls1 out1 where c: "copy_line (r @ [NL]) ((copying ls (r @ CR # NL # ?t) out)\<lparr>rfp := ?t\<rparr>)
      = Some (copying ls1 ?t out1)" "cached ls1" "out1 @ render ls1 = out @ render ls @ r @ [CR, NL]"
    using copy_line_copying [OF Cons.prems(1) r(1)] .
  then have "copy_entries (Some k) (copying ls (render ((r # rs) @ l # after)) out) = copy_entries (Some k) (copying ls1 ?t out1)"
    using r by (simp add: copy_entries_line)
  then show ?case using Cons.IH [OF c(2) rs Cons.prems(4), of out1] c(3) by fastforce
qed

lemma copy_rest_all:
  assumes "cached ls" "tidy rs"
  shows "\<exists>ls' out'. copy_rest (copying ls (render rs) out) = Some (copying ls' [] out') \<and>
    cached ls' \<and> out' @ render ls' = out @ render ls @ render rs"
  using assms
proof (induction rs arbitrary: ls out)
  case Nil
  then show ?case by (subst copy_rest.simps) (auto simp: read_line_end)
next
  case (Cons l rs)
  have l: "tidy_line l" and rs: "tidy rs" using Cons.prems(2) by simp_all
  obtain ls1 out1 where c: "copy_line (l @ [NL]) ((copying ls (l @ CR # NL # render rs) out)\<lparr>rfp := render rs\<rparr>)
      = Some (copying ls1 (render rs) out1)" "cached ls1" "out1 @ render ls1 = out @ render ls @ l @ [CR, NL]"
    using copy_line_copying [OF Cons.prems(1) l(1)] .
  then have "copy_rest (copying ls (render (l # rs)) out) = copy_rest (copying ls1 (render rs) out1)"
    by (subst copy_rest.simps) (simp add: read_line_copying [OF l])
  then show ?case using Cons.IH [OF c(2) rs, of out1] c(3) by fastforce
qed

subsection \<open>Rewriting\<close>

text \<open>The lines of the file after the entry was put: replaced, put in front of the first section, or
  added at the end, there behind an empty line, \<^term>\<open>bl\<close>, when the cache holds nothing but an empty
  line.\<close>

definition entry_lines :: "string \<Rightarrow> string option \<Rightarrow> string list" where
  "entry_lines k v = (case v of None \<Rightarrow> [] | Some w \<Rightarrow> [butlast (writekey k w)])"

definition put_lines :: "string list \<Rightarrow> string \<Rightarrow> string option \<Rightarrow> string list \<Rightarrow> string list" where
  "put_lines bl k v ls =
    (let before = takeWhile (\<lambda>l. \<not> stops k l) ls; rest = dropWhile (\<lambda>l. \<not> stops k l) ls
     in before @ bl @ entry_lines k v @ (if rest \<noteq> [] \<and> \<not> is_section (hd rest) then tl rest else rest))"

lemma writekey_line: "writekey k w = butlast (writekey k w) @ [NL]"
  by (simp add: writekey_def Let_def butlast_append)

lemma f_puts_entry:
  assumes "tidy (entry_lines k v)"
  shows "f_puts (write_entry (Some k) v) = render (entry_lines k v)"
proof (cases v)
  case (Some w)
  have "f_puts (writekey k w) = butlast (writekey k w) @ [CR, NL]"
    by (subst writekey_line, rule f_puts_line) (use assms Some in \<open>simp add: entry_lines_def tidy_line_def\<close>)
  then show ?thesis by (simp add: write_entry_def entry_lines_def Some)
qed (simp add: write_entry_def entry_lines_def f_puts_def)

lemma cached_Nil [simp]: "cached []"
  by (simp add: cached_def INI_BUFFERSIZE_def)

lemma copying_simps [simp]: "cachelen (copying ls pos out) = length (plain ls)" "copy_mark (copying ls pos out) = render ls @ pos"
  "rfp (copying ls pos out) = pos" "wfp (copying ls pos out) = out"
  "(copying ls pos out)\<lparr>wfp := out'\<rparr> = copying ls pos out'"
  by (simp_all add: copying_def)


lemma append_entry_lines:
  assumes "cached ls" "tidy (entry_lines k v)"
  shows "\<exists>bl. set bl \<subseteq> {[]} \<and> (ls \<noteq> [] \<and> last ls \<noteq> [] \<or> v = None \<longrightarrow> bl = []) \<and>
    append_entry [] (Some k) v (copying ls [] out) = Some (copying [] [] (out @ render ls @ render bl @ render (entry_lines k v)))"
proof (cases "v = None \<or> 1 < length (plain ls)")
  case True
  have "append_entry [] (Some k) v (copying ls [] out) = Some (copying [] [] (out @ render ls @ render (entry_lines k v)))"
    using True cache_flush_copying [OF assms(1), of "copying ls [] out" "[]"] f_puts_entry [OF assms(2)]
    by (auto simp: append_entry_def entry_lines_def)
  then show ?thesis by (intro exI [of _ "[]"]) simp
next
  case False
  have "append_entry [] (Some k) v (copying ls [] out) = Some (copying [] [] (out @ render ls @ render [[]] @ render (entry_lines k v)))"
    using False cache_flush_copying [OF assms(1), of "copying ls [] out" "[]"] f_puts_entry [OF assms(2)]
    by (auto simp: append_entry_def f_puts_def)
  moreover have "\<not> (ls \<noteq> [] \<and> last ls \<noteq> [])" using False by (cases ls rule: rev_cases) auto
  ultimately show ?thesis using False by (intro exI [of _ "[[]]"]) simp
qed

lemma finish_copy:
  assumes "cached ls" "tidy rs"
  shows "do { st \<leftarrow> copy_rest (copying ls (render rs) out); (_, st) \<leftarrow> cache_flush st; Some st } =
    Some (copying [] [] (out @ render ls @ render rs))"
proof -
  from copy_rest_all [OF assms, of out] obtain ls' out' where
    r: "copy_rest (copying ls (render rs) out) = Some (copying ls' [] out')" "cached ls'"
    "out' @ render ls' = out @ render ls @ render rs" by blast
  then show ?thesis using cache_flush_copying [OF r(2), of "copying ls' [] out'" "[]"] by simp
qed

lemma put_entry_found:
  assumes found: "copy_entries (Some k) (copying [] (render ls) []) =
      Some (Some (is_section l), (copying ls' (render (l # after)) out')\<lparr>rfp := render after\<rparr>)"
    and "cached ls'" and t: "tidy_line l" "tidy after" and e: "tidy (entry_lines k v)"
  shows "put_entry (Some k) v (copying [] (render ls) []) =
    Some (copying [] [] (out' @ render ls' @ render (entry_lines k v) @ render (if is_section l then l # after else after)))"
proof -
  have f: "cache_flush ((copying ls' (l @ CR # NL # render after) out')\<lparr>rfp := render after\<rparr>) =
      Some (1 < length (plain ls'), copying [] (l @ CR # NL # render after) (out' @ render ls'))"
    using cache_flush_copying [OF assms(2), of "(copying ls' (l @ CR # NL # render after) out')\<lparr>rfp := render after\<rparr>"
      "l @ CR # NL # render after"] by simp
  have l: "cached [l]" "length l < 255" using t(1) by (simp_all add: cached_def tidy_line_def INI_BUFFERSIZE_def)
  have c: "(copying [] (l @ CR # NL # render after) x)\<lparr>rfp := render after, cachelen := Suc (length l)\<rparr> = copying [l] (render after) x"
    "(copying [] (l @ CR # NL # render after) x)\<lparr>rfp := render after, copy_mark := render after\<rparr> = copying [] (render after) x" for x
    by (simp_all add: copying_def)
  show ?thesis
    using l f_puts_entry [OF e] finish_copy [OF l(1) t(2), of "out' @ render ls' @ render (entry_lines k v)"]
      finish_copy [OF cached_Nil t(2), of "out' @ render ls' @ render (entry_lines k v)"]
    by (simp add: put_entry_def found f c read_line_copying [OF t(1)] cache_accum_def INI_BUFFERSIZE_def)
qed

lemma put_entry_lines:
  assumes ls: "tidy ls" and e: "tidy (entry_lines k v)"
  shows "\<exists>bl. set bl \<subseteq> {[]} \<and> (ls \<noteq> [] \<and> last ls \<noteq> [] \<or> v = None \<or> list_ex (stops k) ls \<longrightarrow> bl = []) \<and>
    put_entry (Some k) v (copying [] (render ls) []) = Some (copying [] [] (render (put_lines bl k v ls)))"
proof (cases "dropWhile (\<lambda>l. \<not> stops k l) ls")
  case Nil
  then have n: "list_all (\<lambda>l. \<not> stops k l) ls" by (simp add: list_all_iff)
  obtain ls' out' where c: "copy_entries (Some k) (copying [] (render ls) []) = Some (None, copying ls' [] out')"
    "cached ls'" "out' @ render ls' = render ls" "if ls = [] then ls' = [] else ls' \<noteq> [] \<and> last ls' = last ls"
    using copy_entries_all [OF cached_Nil ls n, of "[]"] by auto
  obtain bl where bl: "set bl \<subseteq> {[]}" "ls' \<noteq> [] \<and> last ls' \<noteq> [] \<or> v = None \<longrightarrow> bl = []"
    "append_entry [] (Some k) v (copying ls' [] out') = Some (copying [] [] (out' @ render ls' @ render bl @ render (entry_lines k v)))"
    using append_entry_lines [OF c(2) e, of out'] by blast
  have tw: "takeWhile (\<lambda>l. \<not> stops k l) ls = ls" using n by (simp add: takeWhile_eq_all_conv list_all_iff)
  have "render (put_lines bl k v ls) = out' @ render ls' @ render bl @ render (entry_lines k v)"
    unfolding put_lines_def Let_def tw Nil by (simp add: c(3) [symmetric])
  then have "put_entry (Some k) v (copying [] (render ls) []) = Some (copying [] [] (render (put_lines bl k v ls)))"
    by (simp add: put_entry_def c(1) bl(3))
  then show ?thesis using bl(1,2) c(4) n by (intro exI [of _ bl]) (auto simp: list_all_iff list_ex_iff split: if_splits)
next
  case (Cons l after)
  define rs where "rs = takeWhile (\<lambda>l. \<not> stops k l) ls"
  have split: "ls = rs @ l # after" unfolding rs_def Cons [symmetric] by simp
  have n: "list_all (\<lambda>l. \<not> stops k l) rs" by (auto simp: rs_def list_all_iff dest: set_takeWhileD)
  have s: "stops k l" using Cons by (metis hd_dropWhile list.discI list.sel(1))
  have t: "tidy rs" "tidy_line l" "tidy after" using ls split by simp_all
  obtain ls' out' where c: "copy_entries (Some k) (copying [] (render ls) []) =
      Some (Some (is_section l), (copying ls' (render (l # after)) out')\<lparr>rfp := render after\<rparr>)"
    "cached ls'" "out' @ render ls' = render rs"
    using copy_entries_found [OF cached_Nil _ n s, of after "[]"] ls split by auto
  have "put_lines [] k v ls = rs @ entry_lines k v @ (if is_section l then l # after else after)"
    by (simp add: put_lines_def Let_def Cons rs_def [symmetric])
  then show ?thesis using put_entry_found [OF c(1,2) t(2,3) e] c(3) by (intro exI [of _ "[]"]) simp
qed

text \<open>What \<^verbatim>\<open>ini_puts\<close> makes of a file, without a section.\<close>

lemma ini_puts_lines:
  assumes "fs F = Some (render ls)" "tidy ls" "tidy (entry_lines k v)" "writable (ini_tempname F)"
    and "v = None \<or> map_option fst (getkeystring None (Some k) (-1) (-1) INI_BUFFERSIZE (render ls)) \<noteq> v"
  shows "\<exists>bl. set bl \<subseteq> {[]} \<and> (ls \<noteq> [] \<and> last ls \<noteq> [] \<or> v = None \<or> list_ex (stops k) ls \<longrightarrow> bl = []) \<and>
    ini_puts writable None (Some k) v F fs =
      Some (1, (fs(F \<mapsto> render (put_lines bl k v ls)))(ini_tempname F := None))"
proof -
  obtain bl where bl: "set bl \<subseteq> {[]}" "ls \<noteq> [] \<and> last ls \<noteq> [] \<or> v = None \<or> list_ex (stops k) ls \<longrightarrow> bl = []"
    "put_entry (Some k) v (copying [] (render ls) []) = Some (copying [] [] (render (put_lines bl k v ls)))"
    using put_entry_lines [OF assms(2,3)] by blast
  have i: "\<lparr>cachelen = 0, copy_mark = render ls, rfp = render ls, wfp = []\<rparr> = copying [] (render ls) []"
    by (simp add: copying_def)
  have "rewrite None (Some k) v (render ls) = Some (copying [] [] (render (put_lines bl k v ls)))"
    using cache_flush_copying [OF cached_Nil, of "copying [] (render ls) []" "render ls"] by (simp add: rewrite_def i bl(3))
  then have "ini_puts writable None (Some k) v F fs =
      Some (1, (fs(F \<mapsto> render (put_lines bl k v ls)))(ini_tempname F := None))"
    using assms by (auto simp: ini_puts_def close_rename_def)
  then show ?thesis using bl(1,2) by blast
qed

end
