(* ===== verification/MinIni_Entries.thy ===== *)
theory MinIni_Entries
  imports MinIni_Text
begin

text \<open>
  Entries of configuration files: a value that \<^verbatim>\<open>writekey\<close> puts into a line is read back from it, quotes,
  comment characters and backslashes included, and an entry that is put into a file is found there
  while all others stay as they were.
\<close>

definition key_ok :: "string \<Rightarrow> bool" where
  "key_ok k \<longleftrightarrow> k \<noteq> [] \<and> list_all (\<lambda>c. isalpha c \<or> isdigit c) k \<and> length k \<le> 100"

text \<open>Values that survive: no control characters and no blank in front.\<close>

definition value_ok :: "string \<Rightarrow> bool" where
  "value_ok v \<longleftrightarrow> list_all (\<lambda>c. 32 \<le> char_code c) v \<and> (v = [] \<or> hd v \<noteq> CHR '' '') \<and> length v \<le> 60"

definition quoted :: "string \<Rightarrow> string" where
  "quoted v = concat (map (\<lambda>c. if c = DQUOTE then [CHR 0x5C, DQUOTE] else [c]) v)"

definition stored :: "string \<Rightarrow> string" where
  "stored v = (if check_enquote v = QUOTE_ENQUOTE then DQUOTE # quoted v @ [DQUOTE] else v)"

definition entry_line :: "string \<Rightarrow> string \<Rightarrow> string" where
  "entry_line k v = k @ CHR ''='' # stored v"

definition value_text :: "nat \<Rightarrow> string \<Rightarrow> string" where
  "value_text n v = (let (w, quotes) = cleanstring (skipleading v) in ini_strncpy n quotes w)"

lemma quoted_simps [simp]: "quoted [] = []"
  "quoted (c # v) = (if c = DQUOTE then [CHR 0x5C, DQUOTE] else [c]) @ quoted v"
  by (simp_all add: quoted_def)

subsection \<open>Writing\<close>

lemma enquote_room: "2 * length v \<le> n \<Longrightarrow> enquote n v = quoted v"
  by (induction v arbitrary: n) auto

lemma length_quoted: "length (quoted v) \<le> 2 * length v"
  by (induction v) auto

lemma writekey_eq:
  assumes "key_ok k" "value_ok v"
  shows "writekey k v = entry_line k v @ [NL]"
proof -
  have k: "ini_strncpy (INI_BUFFERSIZE - 3) QUOTE_NONE k = k" "length k \<le> 100"
    using assms(1) by (simp_all add: ini_strncpy_def INI_BUFFERSIZE_def key_ok_def)
  have v: "length v \<le> 60" using assms(2) by (simp add: value_ok_def)
  have "ini_strncpy (253 - length k) (check_enquote v) v = stored v"
    using k(2) v enquote_room [of v "250 - length k"] 
    by (cases "check_enquote v = QUOTE_ENQUOTE") (auto simp: ini_strncpy_def stored_def check_enquote_def split: if_splits)
  then show ?thesis unfolding writekey_def k(1) by (simp add: entry_line_def INI_BUFFERSIZE_def Let_def)
qed

subsection \<open>Reading back\<close>

lemma before_comment_plain:
  "\<forall>c \<in> set v. c \<notin> {DQUOTE, CHR '';'', CHR ''#''} \<Longrightarrow> before_comment b v = v"
  by (induction b v rule: before_comment.induct) auto

lemma hd_quoted: "v \<noteq> [] \<Longrightarrow> \<exists>e s. quoted v = e # s \<and> e \<noteq> DQUOTE"
  by (cases v) auto

lemma before_comment_quoted: "before_comment True (quoted v @ [DQUOTE, NL]) = quoted v @ [DQUOTE, NL]"
proof (induction v)
  case (Cons c v)
  show ?case
  proof (cases v)
    case Nil
    then show ?thesis by simp
  next
    case (Cons d w)
    then obtain e s where q: "quoted v = e # s" and e: "e \<noteq> DQUOTE" using hd_quoted by blast
    then show ?thesis using Cons.IH q by simp
  qed
qed simp

lemma dequote_quoted: "length v \<le> n \<Longrightarrow> dequote n (quoted v) = v"
proof (induction v arbitrary: n)
  case (Cons c v)
  then obtain m where m: "n = Suc m" "length v \<le> m" by (cases n) auto
  show ?case
  proof (cases v)
    case Nil
    then show ?thesis using m by (cases m) auto
  next
    case (Cons d w)
    then obtain e s where q: "quoted v = e # s" and "e \<noteq> DQUOTE" using hd_quoted by blast
    then show ?thesis using Cons.IH [OF m(2)] q m(1) by simp
  qed
qed (cases n; simp)

lemma striptrailing_last: "v \<noteq> [] \<Longrightarrow> \<not> low (last v) \<Longrightarrow> striptrailing (v @ [NL]) = v"
  by (cases v rule: rev_cases) (auto simp: striptrailing_def low_def)

lemma low_char: "32 \<le> char_code c \<Longrightarrow> low c \<longleftrightarrow> c = CHR '' ''"
proof -
  assume c: "32 \<le> char_code c"
  have "c = CHR '' '' \<longleftrightarrow> char_code c = 32" by (cases c) (auto simp: of_char_def)
  then show ?thesis using c by (auto simp: low_def)
qed

lemma value_text_stored:
  assumes v: "value_ok v" and n: "length v < n"
  shows "value_text n (stored v @ [NL]) = v"
proof (cases "check_enquote v = QUOTE_ENQUOTE")
  case True
  then have "v \<noteq> []" by (auto simp: check_enquote_def)
  then obtain e s where q: "quoted v = e # s" "e \<noteq> DQUOTE" using hd_quoted by blast
  have "before_comment False (DQUOTE # quoted v @ [DQUOTE, NL]) = DQUOTE # quoted v @ [DQUOTE, NL]"
    using before_comment_quoted [of v] q by simp
  moreover have "striptrailing ((DQUOTE # quoted v @ [DQUOTE]) @ [NL]) = DQUOTE # quoted v @ [DQUOTE]"
    by (rule striptrailing_last) (simp_all add: low_def)
  ultimately have "cleanstring (DQUOTE # quoted v @ [DQUOTE, NL]) = (quoted v, QUOTE_DEQUOTE)"
    by (simp add: cleanstring_def butlast_append)
  moreover have "skipleading (stored v @ [NL]) = DQUOTE # quoted v @ [DQUOTE, NL]"
    using True by (simp add: stored_def skipleading_def low_def)
  ultimately show ?thesis using n by (simp add: value_text_def ini_strncpy_def dequote_quoted)
next
  case False
  then have s: "stored v = v" and c: "\<forall>c \<in> set v. c \<notin> {DQUOTE, CHR '';'', CHR ''#''}" and l: "v \<noteq> [] \<Longrightarrow> last v \<noteq> CHR '' ''"
    by (auto simp: stored_def check_enquote_def split: if_splits)
  have "cleanstring (skipleading (v @ [NL])) = (v, QUOTE_NONE)"
  proof (cases "v = []")
    case True
    then show ?thesis by (simp add: skipleading_def low_def cleanstring_def striptrailing_def)
  next
    case ne: False
    have "\<not> low (hd v)" "\<not> low (last v)" using v ne l [OF ne] by (auto simp: value_ok_def list_all_iff low_char)
    then have "skipleading (v @ [NL]) = v @ [NL]" "striptrailing (v @ [NL]) = v"
      using ne by (simp_all add: skipleading_def striptrailing_last dropWhile_append3 hd_append dropWhile_eq_self_iff)
    moreover have "before_comment False (v @ [NL]) = v @ [NL]" by (rule before_comment_plain) (use c in auto)
    moreover have "hd v \<noteq> DQUOTE" using ne c by auto
    ultimately show ?thesis by (simp add: cleanstring_def)
  qed
  then show ?thesis using n by (simp add: value_text_def s ini_strncpy_def)
qed


subsection \<open>Lines with an entry\<close>

lemma key_char: "isalpha c \<or> isdigit c \<Longrightarrow> 48 \<le> char_code c \<and> c \<notin> {CHR ''='', CHR '':'', CHR '';'', CHR ''#'', CHR ''['', NUL, CR, NL} \<and> \<not> low c"
  by (auto simp: isalpha_def isdigit_def isupper_def islower_def low_def)

lemma key_okD:
  assumes "key_ok k"
  shows "k \<noteq> []" "c \<in> set k \<Longrightarrow> \<not> low c" "c \<in> set k \<Longrightarrow> c \<notin> {CHR ''='', CHR '':'', CHR '';'', CHR ''#'', CHR ''['', NUL, CR, NL}"
    "no_nul k" "length k \<le> 100"
  using assms key_char by (fastforce simp: key_ok_def list_all_iff no_nul_def)+

lemma sp_of_entry: "key_ok k \<Longrightarrow> sp_of (k @ CHR ''='' # s) = k @ CHR ''='' # s @ [NL]"
proof -
  assume "key_ok k"
  then obtain c k' where "k = c # k'" "\<not> low c" using key_okD(1,2) by (metis list.set_intros(1) neq_Nil_conv)
  then show ?thesis by (simp add: sp_of_def skipleading_def)
qed

lemma split_line_entry: "key_ok k \<Longrightarrow> split_line (k @ CHR ''='' # s) = Some (k, s)"
proof -
  assume "key_ok k"
  then have "\<forall>c \<in> set k. c \<noteq> CHR ''=''" using key_okD(3) by blast
  then have "takeWhile (\<lambda>d. d \<noteq> CHR ''='') (k @ CHR ''='' # s) = k" "dropWhile (\<lambda>d. d \<noteq> CHR ''='') (k @ CHR ''='' # s) = CHR ''='' # s"
    by (simp_all add: takeWhile_append2 dropWhile_append2)
  then show ?thesis by (simp add: split_line_def split_at_def)
qed

lemma striptrailing_key: "key_ok k \<Longrightarrow> striptrailing k = k"
proof -
  assume "key_ok k"
  then have "\<not> low (hd (rev k))" "rev k \<noteq> []" using key_okD(1,2) by (simp_all add: hd_rev)
  then show ?thesis by (simp add: striptrailing_def dropWhile_eq_self_iff [THEN iffD2])
qed

definition same_key :: "string \<Rightarrow> string \<Rightarrow> bool" where
  "same_key k k' \<longleftrightarrow> map lower k = map lower k'"

lemma same_key_length: "same_key k k' \<Longrightarrow> length k = length k'"
  unfolding same_key_def by (metis length_map)

text \<open>The key in a line.\<close>

lemma is_entry_iff:
  assumes k: "key_ok k" and l: "NUL \<notin> set l"
  shows "is_entry k l \<longleftrightarrow> (\<exists>k' v. split_line (sp_of l) = Some (k', v) \<and> length (striptrailing k') = length k \<and>
    same_key (take (length k) (sp_of l)) k)"
proof -
  have n: "no_nul (sp_of l)" using l by (auto simp: sp_of_def skipleading_def no_nul_def list_all_iff dest: set_dropWhileD)
  have "strncasecmp (sp_of l) k (length k) = 0 \<longleftrightarrow> same_key (take (length k) (sp_of l)) k"
    using strncasecmp_eq_0 [OF n key_okD(4) [OF k]] by (simp add: same_key_def)
  then show ?thesis using key_okD(1) [OF k] by (auto simp: is_entry_def key_matches_def split: option.splits prod.splits)
qed

lemma is_entry_unique:
  assumes "key_ok k" "key_ok k'" "NUL \<notin> set l" "is_entry k l" "is_entry k' l"
  shows "same_key k k'"
  using assms(4,5) unfolding is_entry_iff [OF assms(1,3)] is_entry_iff [OF assms(2,3)] by (auto simp: same_key_def)

lemma is_entry_line:
  assumes k: "key_ok k" "key_ok k'" and s: "NUL \<notin> set s"
  shows "is_entry k' (k @ CHR ''='' # s) \<longleftrightarrow> same_key k k'"
proof -
  have "NUL \<notin> set (k @ CHR ''='' # s)" using k(1) s key_okD(3) [OF k(1)] by auto
  from is_entry_iff [OF k(2) this] show ?thesis
    using k same_key_length [of k k'] by (auto simp: sp_of_entry split_line_entry striptrailing_key same_key_def)
qed

lemma is_section_line: "key_ok k \<Longrightarrow> \<not> is_section (k @ CHR ''='' # s)"
  using key_okD(1) [of k] key_okD(3) [of k "hd k"] by (auto simp: is_section_def sp_of_entry starts_def)

lemma empty_line: "key_ok k \<Longrightarrow> \<not> stops k []"
  by (simp add: stops_def is_section_def is_entry_def sp_of_def skipleading_def low_def starts_def key_matches_def split_line_def)

lemma comment_line:
  assumes "key_ok k" "NUL \<notin> set l" "starts (CHR '';'') (sp_of l) \<or> starts (CHR ''#'') (sp_of l)"
  shows "\<not> stops k l"
proof -
  obtain c s where s: "sp_of l = c # s" "c = CHR '';'' \<or> c = CHR ''#''" using assms(3) by (cases "sp_of l") (auto simp: starts_def)
  obtain d t where k: "k = d # t" "isalpha d \<or> isdigit d" using assms(1) by (cases k) (auto simp: key_ok_def)
  have "lower c \<noteq> lower d" using s(2) k(2)
    by (auto simp: lower_def tolower_def isalpha_def isdigit_def isupper_def islower_def)
  then have "\<not> same_key (take (length k) (sp_of l)) k" by (simp add: s(1) k(1) same_key_def)
  moreover have "\<not> is_section l" using s by (auto simp: is_section_def starts_def)
  ultimately show ?thesis using is_entry_iff [OF assms(1,2)] by (simp add: stops_def)
qed


subsection \<open>Look-up\<close>

definition line_value :: "string \<Rightarrow> string" where
  "line_value l = (case split_line (sp_of l) of None \<Rightarrow> [] | Some (_, v) \<Rightarrow> v)"

definition lookup_lines :: "string \<Rightarrow> string list \<Rightarrow> string option" where
  "lookup_lines k ls =
    (case dropWhile (\<lambda>l. \<not> stops k l) ls of
       [] \<Rightarrow> None
     | l # _ \<Rightarrow> if is_section l then None else Some (line_value l))"

lemma lookup_lines_simps [simp]:
  "lookup_lines k [] = None"
  "lookup_lines k (l # ls) = (if is_section l then None else if is_entry k l then Some (line_value l) else lookup_lines k ls)"
  by (auto simp: lookup_lines_def stops_def)

lemma find_key_lines:
  assumes "key_ok k" "tidy ls" "-1 \<le> idx"
  shows "map_option (\<lambda>x. fst (snd (snd x))) (find_key (Some k) (-1) idx (render ls)) = lookup_lines k ls"
  using assms(2,3)
proof (induction ls arbitrary: idx)
  case Nil
  then show ?case by (subst find_key.simps) (simp add: ini_read_end)
next
  case (Cons l ls)
  have l: "tidy_line l" "NUL \<notin> set l" using Cons.prems(1) by (simp_all add: tidy_line_def)
  have r: "ini_read INI_BUFFERSIZE (l @ CR # NL # render ls) = (True, l @ [NL], render ls)"
    using l(1) by (intro ini_read_line) (simp_all add: tidy_line_def INI_BUFFERSIZE_def)
  have m: "is_entry k l \<longleftrightarrow> (\<exists>k' v. split_line (sp_of l) = Some (k', v) \<and> k \<noteq> [] \<and>
      length (striptrailing k') = length k \<and> strncasecmp (sp_of l) k (length k) = 0)"
    by (auto simp: is_entry_def key_matches_def split: option.splits prod.splits)
  have i: "idx + 1 \<noteq> -1" "-1 \<le> idx + 1" using Cons.prems(2) by simp_all
  have c: "starts (CHR '';'') (sp_of l) \<or> starts (CHR ''#'') (sp_of l) \<Longrightarrow> \<not> is_entry k l"
    using comment_line [OF assms(1) l(2)] by (auto simp: stops_def)
  show ?case
    using Cons.IH [of idx] Cons.IH [of "idx + 1"] Cons.prems i c m
    by (subst find_key.simps) (auto simp: r sp_of_def [symmetric] Let_def is_section_def line_value_def split: option.splits prod.splits)
qed

lemma getkeystring_lines:
  assumes "key_ok k" "tidy ls"
  shows "map_option fst (getkeystring None (Some k) (-1) (-1) n (render ls)) = map_option (value_text n) (lookup_lines k ls)"
proof (cases "find_key (Some k) (-1) (-1) (render ls)")
  case None
  then show ?thesis using find_key_lines [OF assms, of "-1"] by (simp add: getkeystring_def)
next
  case (Some x)
  obtain i k' v m p where x: "x = (i, k', v, m, p)" by (cases x)
  then have "lookup_lines k ls = Some v" using find_key_lines [OF assms, of "-1"] Some by simp
  moreover have "cleanstring (skipleading v) = (w, q) \<Longrightarrow> value_text n v = ini_strncpy n q w" for w q
    by (simp add: value_text_def)
  ultimately show ?thesis using Some x by (simp add: getkeystring_def split: prod.splits)
qed

lemma lookup_lines_append:
  "list_all (\<lambda>l. \<not> stops k l) ls \<Longrightarrow> lookup_lines k (ls @ rs) = lookup_lines k rs"
  by (induction ls) (auto simp: stops_def)

lemma lookup_skip:
  assumes "list_all (\<lambda>l. \<not> is_section l) ls" "lookup_lines k rs = lookup_lines k rs'"
  shows "lookup_lines k (ls @ rs) = lookup_lines k (ls @ rs')"
  using assms by (induction ls) auto

lemma stored_chars: "value_ok v \<Longrightarrow> c \<in> set (stored v) \<Longrightarrow> 32 \<le> char_code c"
  by (auto simp: stored_def quoted_def value_ok_def list_all_iff split: if_splits)

lemma stored_clean:
  assumes "value_ok v"
  shows "NUL \<notin> set (stored v)" "CR \<notin> set (stored v)" "NL \<notin> set (stored v)"
  using stored_chars [OF assms, of NUL] stored_chars [OF assms, of CR] stored_chars [OF assms, of NL] by auto

lemma entry_lines_eq: "key_ok k \<Longrightarrow> value_ok v \<Longrightarrow> entry_lines k (Some v) = [entry_line k v]"
  by (simp add: entry_lines_def writekey_eq butlast_append)

lemma tidy_entry:
  assumes "key_ok k" "value_ok v"
  shows "tidy_line (entry_line k v)"
proof -
  have "length (stored v) \<le> 2 * length v + 2" using length_quoted [of v] by (auto simp: stored_def)
  then have "length (entry_line k v) \<le> 254"
    using assms key_okD(5) [OF assms(1)] by (simp add: entry_line_def value_ok_def)
  then show ?thesis using key_okD(3) [OF assms(1)] stored_clean [OF assms(2)] by (auto simp: tidy_line_def entry_line_def)
qed

lemma line_value_entry: "key_ok k \<Longrightarrow> line_value (entry_line k v) = stored v @ [NL]"
  by (simp add: line_value_def entry_line_def sp_of_entry split_line_entry)

lemma is_entry_same:
  assumes "key_ok k" "key_ok k'" "same_key k k'" "NUL \<notin> set l"
  shows "is_entry k' l = is_entry k l"
  using same_key_length [OF assms(3)] assms(3)
  unfolding is_entry_iff [OF assms(1,4)] is_entry_iff [OF assms(2,4)] by (auto simp: same_key_def)

lemma tidy_NUL: "tidy ls \<Longrightarrow> l \<in> set ls \<Longrightarrow> NUL \<notin> set l"
  by (auto simp: tidy_def list_all_iff tidy_line_def)

text \<open>The law of the store, on lines.\<close>

lemma lookup_put:
  assumes k: "key_ok k" "key_ok k'" and v: "value_ok v" and ls: "tidy ls" and bl: "set bl \<subseteq> {[]}"
  shows "lookup_lines k' (put_lines bl k (Some v) ls) =
    (if same_key k k' then Some (stored v @ [NL]) else lookup_lines k' ls)"
proof -
  define before rest where "before = takeWhile (\<lambda>l. \<not> stops k l) ls" and "rest = dropWhile (\<lambda>l. \<not> stops k l) ls"
  define tail where "tail = (if rest \<noteq> [] \<and> \<not> is_section (hd rest) then tl rest else rest)"
  have ls_eq: "ls = before @ rest" by (simp add: before_def rest_def)
  have p: "put_lines bl k (Some v) ls = before @ bl @ entry_line k v # tail"
    using entry_lines_eq [OF k(1) v] by (simp add: put_lines_def Let_def before_def rest_def tail_def)
  have b: "list_all (\<lambda>l. \<not> stops k l) before" by (auto simp: before_def list_all_iff dest: set_takeWhileD)
  have bs: "list_all (\<lambda>l. \<not> is_section l) before" using b by (auto simp: stops_def list_all_iff)
  have bl': "list_all (\<lambda>l. \<not> stops k' l) bl" using bl empty_line [OF k(2)] by (auto simp: list_all_iff)
  have e: "is_entry k' (entry_line k v) \<longleftrightarrow> same_key k k'" "\<not> is_section (entry_line k v)"
    using is_entry_line [OF k stored_clean(1) [OF v]] is_section_line [OF k(1)] by (simp_all add: entry_line_def)
  show ?thesis
  proof (cases "same_key k k'")
    case True
    have "NUL \<notin> set l" if "l \<in> set before" for l using tidy_NUL [OF ls] that ls_eq by auto
    then have "list_all (\<lambda>l. \<not> stops k' l) before" using b is_entry_same [OF k True] by (auto simp: list_all_iff stops_def)
    then show ?thesis unfolding p using True bl' e by (simp add: lookup_lines_append line_value_entry [OF k(1)])
  next
    case False
    have "lookup_lines k' (bl @ entry_line k v # tail) = lookup_lines k' tail" using False bl' e by (simp add: lookup_lines_append)
    also have "lookup_lines k' tail = lookup_lines k' rest"
    proof (cases rest)
      case (Cons l after)
      have "stops k l" using Cons unfolding rest_def by (metis hd_dropWhile list.discI list.sel(1))
      moreover have "NUL \<notin> set l" using tidy_NUL [OF ls] Cons ls_eq by simp
      ultimately show ?thesis using is_entry_unique [OF k] False by (auto simp: tail_def Cons stops_def)
    qed (simp add: tail_def)
    finally have "lookup_lines k' (before @ bl @ entry_line k v # tail) = lookup_lines k' (before @ rest)"
      by (rule lookup_skip [OF bs])
    then show ?thesis using False p ls_eq by simp
  qed
qed

lemma tidy_put:
  assumes "key_ok k" "value_ok v" "tidy ls" "set bl \<subseteq> {[]}"
  shows "tidy (put_lines bl k (Some v) ls)"
proof -
  have "tidy bl" using assms(4) by (auto simp: tidy_def list_all_iff tidy_line_def)
  moreover have "tidy (takeWhile P ls)" "tidy (dropWhile P ls)" for P
    using assms(3) by (auto simp: tidy_def list_all_iff dest: set_takeWhileD set_dropWhileD)
  moreover have "tidy (tl rs)" if "tidy rs" for rs using that by (cases rs) simp_all
  ultimately show ?thesis
    using tidy_entry [OF assms(1,2)] by (auto simp: put_lines_def Let_def entry_lines_eq [OF assms(1,2)])
qed


subsection \<open>Files as stores\<close>

text \<open>What a user of configuration files relies on: an entry that is put can be got, and the others do not
  change.\<close>

locale entry_store =
  fixes get :: "'f \<Rightarrow> string \<Rightarrow> string option" and put :: "string \<Rightarrow> string \<Rightarrow> 'f \<Rightarrow> 'f option" and good :: "'f \<Rightarrow> bool"
  assumes put_get: "good f \<Longrightarrow> key_ok k \<Longrightarrow> value_ok v \<Longrightarrow>
    \<exists>f'. put k v f = Some f' \<and> good f' \<and>
      (\<forall>k'. key_ok k' \<longrightarrow> get f' k' = (if same_key k k' then Some v else get f k'))"

fun put_all :: "(string \<Rightarrow> string \<Rightarrow> 'f \<Rightarrow> 'f option) \<Rightarrow> (string \<times> string) list \<Rightarrow> 'f \<Rightarrow> 'f option" where
  "put_all put [] f = Some f"
| "put_all put ((k, v) # kvs) f = Option.bind (put k v f) (put_all put kvs)"

definition entries_ok :: "(string \<times> string) list \<Rightarrow> bool" where
  "entries_ok kvs \<longleftrightarrow> list_all (\<lambda>(k, v). key_ok k \<and> value_ok v) kvs \<and> distinct (map (map lower \<circ> fst) kvs)"

context entry_store
begin

lemma put_all_get:
  assumes "good f" "entries_ok kvs"
  shows "\<exists>f'. put_all put kvs f = Some f' \<and> good f' \<and> (\<forall>(k, v) \<in> set kvs. get f' k = Some v) \<and>
    (\<forall>k. key_ok k \<longrightarrow> (\<forall>(k', v) \<in> set kvs. \<not> same_key k' k) \<longrightarrow> get f' k = get f k)"
  using assms
proof (induction kvs arbitrary: f)
  case (Cons kv kvs)
  obtain k v where kv: "kv = (k, v)" by fastforce
  have k: "key_ok k" "value_ok v" "entries_ok kvs" and d: "\<And>k' v'. (k', v') \<in> set kvs \<Longrightarrow> \<not> same_key k' k"
    using Cons.prems(2) by (auto simp: kv entries_ok_def same_key_def image_iff)
  obtain f1 where f1: "put k v f = Some f1" "good f1"
    "\<forall>k'. key_ok k' \<longrightarrow> get f1 k' = (if same_key k k' then Some v else get f k')"
    using put_get [OF Cons.prems(1) k(1,2)] by blast
  obtain f' where f': "put_all put kvs f1 = Some f'" "good f'" "\<forall>(k, v) \<in> set kvs. get f' k = Some v"
    "\<forall>k. key_ok k \<longrightarrow> (\<forall>(k', v) \<in> set kvs. \<not> same_key k' k) \<longrightarrow> get f' k = get f1 k"
    using Cons.IH [OF f1(2) k(3)] by blast
  have "get f' k = Some v" using f'(4) f1(3) k(1) d by (fastforce simp: same_key_def)
  then show ?case using f1 f' by (intro exI [of _ f']) (auto simp: kv)
qed simp

end

definition ini_lookup :: "string \<Rightarrow> files \<Rightarrow> string \<Rightarrow> string option" where
  "ini_lookup F fs k = map_option fst (Option.bind (fs F) (getkeystring None (Some k) (-1) (-1) INI_BUFFERSIZE))"

definition ini_put :: "(string \<Rightarrow> bool) \<Rightarrow> string \<Rightarrow> string \<Rightarrow> string \<Rightarrow> files \<Rightarrow> files option" where
  "ini_put writable F k v fs =
    (case ini_puts writable None (Some k) (Some v) F fs of
       Some (r, fs') \<Rightarrow> if r = 0 then None else Some fs'
     | None \<Rightarrow> None)"

text \<open>The file does not exist or is tidy, and it and its temporary copy can be written.\<close>

definition tidy_file :: "(string \<Rightarrow> bool) \<Rightarrow> string \<Rightarrow> files \<Rightarrow> bool" where
  "tidy_file writable F fs \<longleftrightarrow> writable F \<and> writable (ini_tempname F) \<and> ini_tempname F \<noteq> F \<and>
    (\<forall>t. fs F = Some t \<longrightarrow> (\<exists>ls. tidy ls \<and> t = render ls))"

lemma ini_lookup_lines:
  "key_ok k \<Longrightarrow> tidy ls \<Longrightarrow> fs F = Some (render ls) \<Longrightarrow> ini_lookup F fs k = map_option (value_text INI_BUFFERSIZE) (lookup_lines k ls)"
  using getkeystring_lines by (simp add: ini_lookup_def)

lemma value_text_put: "value_ok v \<Longrightarrow> value_text INI_BUFFERSIZE (stored v @ [NL]) = v"
  by (rule value_text_stored) (simp_all add: value_ok_def INI_BUFFERSIZE_def)

lemma ini_put_missing:
  assumes "fs F = None" "writable F" "key_ok k" "value_ok v"
  shows "ini_put writable F k v fs = Some (fs(F \<mapsto> render [entry_line k v]))"
proof -
  have "tidy (entry_lines k (Some v))" using tidy_entry [OF assms(3,4)] by (simp add: entry_lines_eq [OF assms(3,4)])
  then show ?thesis using assms f_puts_entry [of k "Some v"] entry_lines_eq [OF assms(3,4)]
    by (simp add: ini_put_def ini_puts_def writesection_def)
qed

lemma lookup_same:
  assumes "key_ok k" "key_ok k'" "same_key k k'" "tidy ls"
  shows "lookup_lines k' ls = lookup_lines k ls"
  using assms(4)
proof (induction ls)
  case (Cons l ls)
  then have "is_entry k' l = is_entry k l" by (intro is_entry_same [OF assms(1-3)]) (simp add: tidy_line_def)
  then show ?case using Cons by simp
qed simp

lemma ini_put_result:
  assumes g: "tidy_file writable F fs" and k: "key_ok k" "value_ok v" and ls: "tidy ls"
    and f: "fs F = None \<and> ls = [] \<or> fs F = Some (render ls)"
  shows "\<exists>fs'. ini_put writable F k v fs = Some fs' \<and>
    (fs' = fs \<and> ini_lookup F fs k = Some v \<or> (\<exists>bl. set bl \<subseteq> {[]} \<and> fs' F = Some (render (put_lines bl k (Some v) ls))))"
proof (cases "fs F")
  case None
  then have "put_lines [] k (Some v) ls = [entry_line k v]" using f entry_lines_eq [OF k] by (simp add: put_lines_def)
  then show ?thesis using ini_put_missing [of fs F writable, OF None _ k] g
    by (auto simp: tidy_file_def intro!: exI [of _ "[]"])
next
  case (Some t)
  then have t: "fs F = Some (render ls)" using f by simp
  show ?thesis
  proof (cases "ini_lookup F fs k = Some v")
    case True
    then have "ini_put writable F k v fs = Some fs" using t by (auto simp: ini_put_def ini_puts_def ini_lookup_def)
    then show ?thesis using True by blast
  next
    case False
    have e: "tidy (entry_lines k (Some v))" using tidy_entry [OF k] by (simp add: entry_lines_eq [OF k])
    have w: "writable (ini_tempname F)" "ini_tempname F \<noteq> F" using g by (simp_all add: tidy_file_def)
    have n: "map_option fst (getkeystring None (Some k) (-1) (-1) INI_BUFFERSIZE (render ls)) \<noteq> Some v"
      using False t by (simp add: ini_lookup_def)
    obtain bl where "set bl \<subseteq> {[]}" "ini_puts writable None (Some k) (Some v) F fs =
        Some (1, (fs(F \<mapsto> render (put_lines bl k (Some v) ls)))(ini_tempname F := None))"
      using ini_puts_lines [of fs F ls k "Some v" writable, OF t ls e w(1)] n by blast
    then show ?thesis using w(2) by (auto simp: ini_put_def)
  qed
qed

interpretation ini: entry_store "ini_lookup F" "ini_put writable F" "tidy_file writable F" for writable F
proof
  fix fs :: files and k v
  assume g: "tidy_file writable F fs" and k: "key_ok k" and v: "value_ok v"
  obtain ls where ls: "tidy ls" "fs F = None \<and> ls = [] \<or> fs F = Some (render ls)"
    using g by (cases "fs F") (auto simp: tidy_file_def)
  have old: "ini_lookup F fs k' = map_option (value_text INI_BUFFERSIZE) (lookup_lines k' ls)" if "key_ok k'" for k'
    using ls ini_lookup_lines [OF that] by (auto simp: ini_lookup_def)
  from ini_put_result [OF g k v ls] obtain fs' where p: "ini_put writable F k v fs = Some fs'"
    "fs' = fs \<and> ini_lookup F fs k = Some v \<or> (\<exists>bl. set bl \<subseteq> {[]} \<and> fs' F = Some (render (put_lines bl k (Some v) ls)))" by blast
  from p(2) have "tidy_file writable F fs' \<and>
      (\<forall>k'. key_ok k' \<longrightarrow> ini_lookup F fs' k' = (if same_key k k' then Some v else ini_lookup F fs k'))"
  proof (elim disjE exE conjE)
    assume "fs' = fs" "ini_lookup F fs k = Some v"
    then show ?thesis using g old lookup_same [OF k _ _ ls(1)] k by auto
  next
    fix bl assume bl: "set bl \<subseteq> {[]}" and f': "fs' F = Some (render (put_lines bl k (Some v) ls))"
    have "tidy (put_lines bl k (Some v) ls)" by (rule tidy_put [OF k v ls(1) bl])
    then show ?thesis using g f' lookup_put [OF k _ v ls(1) bl] value_text_put [OF v] old
      by (auto simp: ini_lookup_lines [of _ "put_lines bl k (Some v) ls"] tidy_file_def)
  qed
  then show "\<exists>fs'. ini_put writable F k v fs = Some fs' \<and> tidy_file writable F fs' \<and>
      (\<forall>k'. key_ok k' \<longrightarrow> ini_lookup F fs' k' = (if same_key k k' then Some v else ini_lookup F fs k'))"
    using p(1) by blast
qed

subsection \<open>Reading what was written\<close>

lemma ini_puts_flag: "ini_puts writable S K v F fs = Some (r, fs') \<Longrightarrow> r = 0 \<or> r = 1"
  by (auto simp: ini_puts_def bind_eq_Some_conv split: option.splits if_splits)

lemma ini_put_puts: "ini_put writable F k v fs = Some fs' \<Longrightarrow> ini_puts writable None (Some k) (Some v) F fs = Some (1, fs')"
  using ini_puts_flag [of writable None "Some k" "Some v" F fs] by (auto simp: ini_put_def split: option.splits if_splits)

lemma ini_gets_lookup:
  "ini_gets None k d INI_BUFFERSIZE F fs =
    (case ini_lookup F fs k of Some v \<Rightarrow> v | None \<Rightarrow> ini_strncpy INI_BUFFERSIZE QUOTE_NONE d)"
  by (auto simp: ini_gets_def ini_lookup_def split: option.splits)

text \<open>The condition on values cannot be dropped: a blank in front does not make \<^verbatim>\<open>ini_puts\<close> quote the value, and
  it is lost on reading.\<close>

lemma ini_leading_blank_lost:
  "map_option (\<lambda>(r, fs). (r, ini_gets None ''led'' [] INI_BUFFERSIZE ''x.cfg'' fs))
    (ini_puts (\<lambda>_. True) None (Some ''led'') (Some '' red'') ''x.cfg'' Map.empty) = Some (1, ''red'')"
  by code_simp

text \<open>C32: An entry without section is written, and read back. The file does not exist or holds lines of at most 254
  characters, without NUL and line ends in them, each ended by CR and LF, and it and its temporary copy can be
  written; the key has 1 to 100 letters and digits; the value has at most 60 characters, none of them a control
  character, and no blank in front. Then writing succeeds, the file has that form again, reading the key, in any
  mixture of upper and lower case, gives the value, and every other such key still reads as before.\<close>

theorem ini_puts_gets:
  assumes "tidy_file writable F fs" and "key_ok k" and "value_ok v"
  shows "\<exists>fs'. ini_puts writable None (Some k) (Some v) F fs = Some (1, fs') \<and> tidy_file writable F fs' \<and>
    (\<forall>k' d. key_ok k' \<longrightarrow> ini_gets None k' d INI_BUFFERSIZE F fs' =
      (if same_key k k' then v else ini_gets None k' d INI_BUFFERSIZE F fs))"
proof -
  from ini.put_get [OF assms] obtain fs' where fs': "ini_put writable F k v fs = Some fs'" "tidy_file writable F fs'"
    "\<forall>k'. key_ok k' \<longrightarrow> ini_lookup F fs' k' = (if same_key k k' then Some v else ini_lookup F fs k')" by blast
  then show ?thesis using ini_put_puts [OF fs'(1)] by (auto simp: ini_gets_lookup)
qed

theorem ini_puts_gets_witness:
  "\<exists>fs'. ini_puts (\<lambda>_. True) None (Some ''led'') (Some ''red;1'') ''x.cfg'' [''x.cfg'' \<mapsto> ''fan=20'' @ [CR, NL]] = Some (1, fs') \<and>
    ini_gets None ''LED'' [] INI_BUFFERSIZE ''x.cfg'' fs' = ''red;1'' \<and> ini_gets None ''fan'' [] INI_BUFFERSIZE ''x.cfg'' fs' = ''20''"
proof -
  let ?fs = "[''x.cfg'' \<mapsto> ''fan=20'' @ [CR, NL]]"
  have k: "key_ok ''led''" "key_ok ''LED''" "key_ok ''fan''" "value_ok ''red;1''"
    by (simp_all add: key_ok_def value_ok_def isalpha_def isdigit_def isupper_def islower_def)
  have s: "same_key ''led'' ''LED''" "\<not> same_key ''led'' ''fan''"
    by (simp_all add: same_key_def lower_def tolower_def isupper_def)
  have t: "tidy_file (\<lambda>_. True) ''x.cfg'' ?fs"
    by (auto simp: tidy_file_def ini_tempname_def tidy_line_def intro!: exI [of _ "[''fan=20'']"])
  have r: "ini_gets None ''fan'' [] INI_BUFFERSIZE ''x.cfg'' ?fs = ''20''" by code_simp
  show ?thesis using ini_puts_gets [OF t k(1,4)] k s r by fastforce
qed

end
