(* ===== verification/SettingsFile.thy ===== *)
theory SettingsFile
  imports MinIni_Entries XblastSettings
begin

text \<open>
  The settings as a text file on the hard disk: xblast/settings/xblastSettingsImportExport.c with the
  parsing of addresses from menu/actions/NetworkMenuActions.c. The pointers that
  \<^verbatim>\<open>setCFGFileTransferPtr\<close> collects are pairs of a field's value and its update, in the order of the
  arrays. \<^const>\<open>None\<close> as a result stands for leaving an array or reading bytes that were never set,
  or for a loop that does not end.
\<close>

subsection \<open>The fields of the file\<close>

record cfg_strings =
  boolSettingsStringArray :: "string list"
  numSettingsStringArray :: "string list"
  IPsettingsStringArray :: "string list"
  textSettingsStringArray :: "string list"
  specialSettingsStringArray :: "string list"

definition xblastCfgStringsStruct :: cfg_strings where
  "xblastCfgStringsStruct =
    \<lparr>boolSettingsStringArray =
       [''quickboot'', ''tsopcontrol'', ''tsophide'', ''runbankscript'', ''runbootscript'', ''enablenetwork'',
        ''usedhcp'', ''enablevga'', ''enable5v'', ''displaybootmsg'', ''customtextboot'', ''displaybiosnameboot''],
     numSettingsStringArray =
       [''bgcolor'', ''fanspeed'', ''boottimeout'', ''nblines'', ''linelength'', ''backlight'', ''contrast''],
     IPsettingsStringArray = [''staticip'', ''staticgateway'', ''staticmask'', ''staticdns1'', ''staticdns2''],
     textSettingsStringArray =
       [''512kbname'', ''256kbname'', ''tsop0name'', ''tsop1name'',
        ''customstring0'', ''customstring1'', ''customstring2'', ''customstring3''],
     specialSettingsStringArray = [''activebank'', ''altbank'', ''ledcolor'', ''lcdtype'']\<rparr>"

definition upd_os :: "(OSsettings_t \<Rightarrow> OSsettings_t) \<Rightarrow> LPCmodSettings_t \<Rightarrow> LPCmodSettings_t" where
  "upd_os f s = s\<lparr>OSsettings := f (OSsettings s)\<rparr>"

definition upd_lcd :: "(LCDsettings_t \<Rightarrow> LCDsettings_t) \<Rightarrow> LPCmodSettings_t \<Rightarrow> LPCmodSettings_t" where
  "upd_lcd f s = s\<lparr>LCDsettings := f (LCDsettings s)\<rparr>"

definition boolSettingsPtrArray :: "LPCmodSettings_t \<Rightarrow> (u8 \<times> (u8 \<Rightarrow> LPCmodSettings_t)) list" where
  "boolSettingsPtrArray s =
    [(Quickboot (OSsettings s), \<lambda>x. upd_os (Quickboot_update (\<lambda>_. x)) s),
     (TSOPcontrol (OSsettings s), \<lambda>x. upd_os (TSOPcontrol_update (\<lambda>_. x)) s),
     (TSOPhide (OSsettings s), \<lambda>x. upd_os (TSOPhide_update (\<lambda>_. x)) s),
     (runBankScript (OSsettings s), \<lambda>x. upd_os (runBankScript_update (\<lambda>_. x)) s),
     (runBootScript (OSsettings s), \<lambda>x. upd_os (runBootScript_update (\<lambda>_. x)) s),
     (enableNetwork (OSsettings s), \<lambda>x. upd_os (enableNetwork_update (\<lambda>_. x)) s),
     (useDHCP (OSsettings s), \<lambda>x. upd_os (useDHCP_update (\<lambda>_. x)) s),
     (enableVGA (OSsettings s), \<lambda>x. upd_os (enableVGA_update (\<lambda>_. x)) s),
     (enable5V (LCDsettings s), \<lambda>x. upd_lcd (enable5V_update (\<lambda>_. x)) s),
     (displayMsgBoot (LCDsettings s), \<lambda>x. upd_lcd (displayMsgBoot_update (\<lambda>_. x)) s),
     (customTextBoot (LCDsettings s), \<lambda>x. upd_lcd (customTextBoot_update (\<lambda>_. x)) s),
     (displayBIOSNameBoot (LCDsettings s), \<lambda>x. upd_lcd (displayBIOSNameBoot_update (\<lambda>_. x)) s)]"

definition numSettingsPtrArray :: "LPCmodSettings_t \<Rightarrow> (u8 \<times> (u8 \<Rightarrow> LPCmodSettings_t)) list" where
  "numSettingsPtrArray s =
    [(backgroundColorPreset (OSsettings s), \<lambda>x. upd_os (backgroundColorPreset_update (\<lambda>_. x)) s),
     (fanSpeed (OSsettings s), \<lambda>x. upd_os (fanSpeed_update (\<lambda>_. x)) s),
     (bootTimeout (OSsettings s), \<lambda>x. upd_os (bootTimeout_update (\<lambda>_. x)) s),
     (nbLines (LCDsettings s), \<lambda>x. upd_lcd (nbLines_update (\<lambda>_. x)) s),
     (lineLength (LCDsettings s), \<lambda>x. upd_lcd (lineLength_update (\<lambda>_. x)) s),
     (backlight (LCDsettings s), \<lambda>x. upd_lcd (backlight_update (\<lambda>_. x)) s),
     (contrast (LCDsettings s), \<lambda>x. upd_lcd (contrast_update (\<lambda>_. x)) s)]"

definition IPsettingsPtrArray :: "LPCmodSettings_t \<Rightarrow> (u8 list \<times> (u8 list \<Rightarrow> LPCmodSettings_t)) list" where
  "IPsettingsPtrArray s =
    [(staticIP (OSsettings s), \<lambda>x. upd_os (staticIP_update (\<lambda>_. x)) s),
     (staticGateway (OSsettings s), \<lambda>x. upd_os (staticGateway_update (\<lambda>_. x)) s),
     (staticMask (OSsettings s), \<lambda>x. upd_os (staticMask_update (\<lambda>_. x)) s),
     (staticDNS1 (OSsettings s), \<lambda>x. upd_os (staticDNS1_update (\<lambda>_. x)) s),
     (staticDNS2 (OSsettings s), \<lambda>x. upd_os (staticDNS2_update (\<lambda>_. x)) s)]"

definition textSettingsPtrArray :: "LPCmodSettings_t \<Rightarrow> (u8 list \<times> (u8 list \<Rightarrow> LPCmodSettings_t)) list" where
  "textSettingsPtrArray s =
    [(biosName512Bank (OSsettings s), \<lambda>x. upd_os (biosName512Bank_update (\<lambda>_. x)) s),
     (biosName256Bank (OSsettings s), \<lambda>x. upd_os (biosName256Bank_update (\<lambda>_. x)) s),
     (biosNameTSOPFullSplit0 (OSsettings s), \<lambda>x. upd_os (biosNameTSOPFullSplit0_update (\<lambda>_. x)) s),
     (biosNameTSOPSplit1 (OSsettings s), \<lambda>x. upd_os (biosNameTSOPSplit1_update (\<lambda>_. x)) s),
     (customString0 (LCDsettings s), \<lambda>x. upd_lcd (customString0_update (\<lambda>_. x)) s),
     (customString1 (LCDsettings s), \<lambda>x. upd_lcd (customString1_update (\<lambda>_. x)) s),
     (customString2 (LCDsettings s), \<lambda>x. upd_lcd (customString2_update (\<lambda>_. x)) s),
     (customString3 (LCDsettings s), \<lambda>x. upd_lcd (customString3_update (\<lambda>_. x)) s)]"

definition specialCasePtrArray :: "LPCmodSettings_t \<Rightarrow> (u8 \<times> (u8 \<Rightarrow> LPCmodSettings_t)) list" where
  "specialCasePtrArray s =
    [(activeBank (OSsettings s), \<lambda>x. upd_os (activeBank_update (\<lambda>_. x)) s),
     (altBank (OSsettings s), \<lambda>x. upd_os (altBank_update (\<lambda>_. x)) s),
     (LEDColor (OSsettings s), \<lambda>x. upd_os (LEDColor_update (\<lambda>_. x)) s),
     (lcdType (LCDsettings s), \<lambda>x. upd_lcd (lcdType_update (\<lambda>_. x)) s)]"

subsection \<open>Addresses\<close>

text \<open>\<^verbatim>\<open>sprintf\<close> with \<^verbatim>\<open>%u\<close>.\<close>

fun fmt_u :: "nat \<Rightarrow> string" where
  "fmt_u n = (if n < 10 then [] else fmt_u (n div 10)) @ [char_of (48 + n mod 10)]"

declare fmt_u.simps [simp del]

definition fmt_ip :: "u8 list \<Rightarrow> string" where
  "fmt_ip a = fmt_u (unat (a ! 0)) @ ''.'' @ fmt_u (unat (a ! 1)) @ ''.'' @ fmt_u (unat (a ! 2)) @ ''.'' @ fmt_u (unat (a ! 3))"

fun atoi_loop :: "u16 \<Rightarrow> string \<Rightarrow> u16" where
  "atoi_loop res [] = res"
| "atoi_loop res (c # s) = (if c = CHR ''.'' then res else atoi_loop (res * 10 + scast (of_char c :: u8) - 48) s)"

definition myAtoi :: "string \<Rightarrow> u16" where
  "myAtoi str = atoi_loop 0 str"

text \<open>The loop of \<^verbatim>\<open>assertCorrectIPString\<close>: the numbers put into \<^verbatim>\<open>tempAddr\<close> and the number of dots.\<close>

fun ip_scan :: "bool \<Rightarrow> string \<Rightarrow> u8 list \<Rightarrow> nat \<Rightarrow> u8 list \<times> nat" where
  "ip_scan first [] tempAddr countDots = (tempAddr, countDots)"
| "ip_scan first (c # s) tempAddr countDots =
    (if first \<and> c \<noteq> CHR ''.'' then ip_scan False s (tempAddr @ [ucast (myAtoi (c # s))]) countDots
     else if c = CHR ''.'' \<and> s \<noteq> [] \<and> hd s \<noteq> CHR ''.'' then ip_scan False s (tempAddr @ [ucast (myAtoi s)]) (countDots + 1)
     else ip_scan False s tempAddr countDots)"

definition assertCorrectIPString :: "string \<Rightarrow> u8 list option option" where
  "assertCorrectIPString s =
    (let (tempAddr, countDots) = ip_scan True s [] 0
     in if 4 < length tempAddr then None
        else if countDots = 3 then (if length tempAddr = 4 then Some (Some tempAddr) else None)
        else Some None)"


subsection \<open>Import\<close>

definition first_char :: "string \<Rightarrow> nat" where
  "first_char s = (case s of [] \<Rightarrow> 0 | c # _ \<Rightarrow> char_code c)"

definition starts_number :: "string \<Rightarrow> bool" where
  "starts_number s \<longleftrightarrow> 48 \<le> first_char s \<and> first_char s \<le> 57"

definition number_of :: "string \<Rightarrow> u8" where
  "number_of s = word_of_int (fst (strtol s 0))"

text \<open>The five loops over the names: the index of the first that equals the key.\<close>

definition name_index :: "string list \<Rightarrow> string \<Rightarrow> nat option" where
  "name_index names key =
    (case filter (\<lambda>i. strcasecmp (names ! i) key = 0) [0..<length names] of [] \<Rightarrow> None | i # _ \<Rightarrow> Some i)"

definition import_bool :: "nat \<Rightarrow> string \<Rightarrow> LPCmodSettings_t \<Rightarrow> LPCmodSettings_t" where
  "import_bool i v s =
    (let (_, assign) = boolSettingsPtrArray s ! i
     in if starts_number v then assign (number_of v)
        else if strncasecmp v ''y'' 1 = 0 \<or> strncasecmp v ''t'' 1 = 0 then assign 1
        else if strncasecmp v ''n'' 1 = 0 \<or> strncasecmp v ''f'' 1 = 0 then assign 0
        else s)"

definition import_num :: "nat \<Rightarrow> string \<Rightarrow> LPCmodSettings_t \<Rightarrow> LPCmodSettings_t" where
  "import_num i v s =
    (let (_, assign) = numSettingsPtrArray s ! i in assign (if starts_number v then number_of v else 0))"

definition import_ip :: "nat \<Rightarrow> string \<Rightarrow> LPCmodSettings_t \<Rightarrow> LPCmodSettings_t option" where
  "import_ip i v s =
    (let (_, assign) = IPsettingsPtrArray s ! i
     in if length v < length ''255.255.255.255''
        then map_option (\<lambda>r. case r of None \<Rightarrow> s | Some a \<Rightarrow> assign a) (assertCorrectIPString v)
        else Some s)"

definition strcpy :: "u8 list \<Rightarrow> string \<Rightarrow> u8 list" where
  "strcpy field s = ascii s @ 0 # drop (length s + 1) field"

definition import_text :: "nat \<Rightarrow> string \<Rightarrow> LPCmodSettings_t \<Rightarrow> LPCmodSettings_t" where
  "import_text i v s =
    (let (field, assign) = textSettingsPtrArray s ! i in if length v < 20 then assign (strcpy field v) else s)"

definition bankSettingArray :: "u8 list" where
  "bankSettingArray = [FlashBank_512Bank, FlashBank_256Bank, FlashBank_SplitTSOP0Bank, FlashBank_SplitTSOP1Bank,
     FlashBank_FullTSOPBank, FlashBank_OSBank]"

definition ledArraySetting :: "u8 list" where
  "ledArraySetting = [0, 1, 2, 3, 4]"

definition lcdArraySetting :: "u8 list" where
  "lcdArraySetting = [0, 1]"

text \<open>The loop over the values of a special setting, given how its name is compared.\<close>

definition find_special :: "(string \<Rightarrow> bool) \<Rightarrow> nat \<Rightarrow> u8 list \<Rightarrow> u8 option" where
  "find_special same i vals =
    List.find (\<lambda>b. case getSpecialSettingTextString (of_nat i) b of None \<Rightarrow> False | Some name \<Rightarrow> same name) vals"

definition import_special :: "nat \<Rightarrow> string \<Rightarrow> LPCmodSettings_t \<Rightarrow> LPCmodSettings_t" where
  "import_special i v s =
    (let (_, assign) = specialCasePtrArray s ! i;
         found = (if i = 0 \<or> i = 1 then find_special (\<lambda>name. strcasecmp v name = 0) i bankSettingArray
                  else if i = 2 then find_special (\<lambda>name. strncasecmp v name 2 = 0) i ledArraySetting
                  else find_special (\<lambda>name. strncasecmp v name 2 = 0) i lcdArraySetting)
     in case found of None \<Rightarrow> s | Some b \<Rightarrow> assign b)"

definition iniCallback :: "string \<Rightarrow> string \<Rightarrow> LPCmodSettings_t \<Rightarrow> LPCmodSettings_t option" where
  "iniCallback key v s =
    (case name_index (boolSettingsStringArray xblastCfgStringsStruct) key of
       Some i \<Rightarrow> Some (import_bool i v s)
     | None \<Rightarrow>
    (case name_index (numSettingsStringArray xblastCfgStringsStruct) key of
       Some i \<Rightarrow> Some (import_num i v s)
     | None \<Rightarrow>
    (case name_index (IPsettingsStringArray xblastCfgStringsStruct) key of
       Some i \<Rightarrow> import_ip i v s
     | None \<Rightarrow>
    (case name_index (textSettingsStringArray xblastCfgStringsStruct) key of
       Some i \<Rightarrow> Some (import_text i v s)
     | None \<Rightarrow>
    (case name_index (specialSettingsStringArray xblastCfgStringsStruct) key of
       Some i \<Rightarrow> Some (import_special i v s)
     | None \<Rightarrow> Some s)))))"

definition settingsFileLocation :: string where
  "settingsFileLocation = ''/MASTER_C/XBlast/xblast.cfg''"

text \<open>The callback always asks to continue. The settings become \<^const>\<open>None\<close> when it leaves an array.\<close>

definition browse_callback :: "string \<Rightarrow> string \<Rightarrow> string \<Rightarrow> LPCmodSettings_t option \<Rightarrow> bool \<times> LPCmodSettings_t option" where
  "browse_callback sec key v s = (True, Option.bind s (iniCallback key v))"

definition LPCMod_ReadCFGFromHDD :: "bool \<Rightarrow> files \<Rightarrow> LPCmodSettings_t \<Rightarrow> (int \<times> LPCmodSettings_t) option" where
  "LPCMod_ReadCFGFromHDD mounted fs LPCmodSettings =
    (if mounted
     then (let (r, s) = ini_browse browse_callback (Some LPCmodSettings) settingsFileLocation fs
           in map_option (Pair (if r = 1 then 0 else 4)) s)
     else Some (2, LPCmodSettings))"

subsection \<open>Export\<close>

text \<open>The entries in the order they are written; a special setting without a name is a null pointer.\<close>

definition text_of_field :: "u8 list \<Rightarrow> string option" where
  "text_of_field f = map_option (map (\<lambda>b. char_of (unat b))) (cstr f)"

definition cfg_entries :: "LPCmodSettings_t \<Rightarrow> (string \<times> string option) list option" where
  "cfg_entries s = do {
     let names = xblastCfgStringsStruct;
     texts \<leftarrow> those (map (\<lambda>(f, _). text_of_field f) (textSettingsPtrArray s));
     Some (zip (boolSettingsStringArray names) (map (\<lambda>(x, _). Some (long2str (uint x))) (boolSettingsPtrArray s)) @
       zip (numSettingsStringArray names) (map (\<lambda>(x, _). Some (long2str (uint x))) (numSettingsPtrArray s)) @
       zip (IPsettingsStringArray names) (map (\<lambda>(a, _). Some (fmt_ip a)) (IPsettingsPtrArray s)) @
       zip (textSettingsStringArray names) (map Some texts) @
       zip (specialSettingsStringArray names)
         (map (\<lambda>i. getSpecialSettingTextString (of_nat i) (fst (specialCasePtrArray s ! i))) [0..<4]))
   }"

fun save_loop :: "(string \<Rightarrow> bool) \<Rightarrow> (string \<times> string option) list \<Rightarrow> files \<Rightarrow> (int \<times> files) option" where
  "save_loop writable [] fs = Some (0, fs)"
| "save_loop writable ((k, v) # kvs) fs = do {
     (r, fs) \<leftarrow> ini_puts writable None (Some k) v settingsFileLocation fs;
     if r = 0 then Some (1, fs) else save_loop writable kvs fs
   }"

definition LPCMod_SaveCFGToHDD :: "(string \<Rightarrow> bool) \<Rightarrow> files \<Rightarrow> LPCmodSettings_t \<Rightarrow> (int \<times> files) option" where
  "LPCMod_SaveCFGToHDD writable fs LPCmodSettings = do {
     kvs \<leftarrow> cfg_entries LPCmodSettings;
     save_loop writable kvs fs
   }"

subsection \<open>Taking over imported settings\<close>

text \<open>What the function changes in the settings; fan, LED, display and video are set from the result.\<close>

definition importNewSettingsFromCFGLoad :: "bool \<Rightarrow> lpc_hw \<Rightarrow> LPCmodSettings_t \<Rightarrow> LPCmodSettings_t" where
  "importNewSettingsFromCFGLoad custom_build hw newSettings =
    (let s = (if isFrostySupport hw then newSettings else upd_os (enableVGA_update (\<lambda>_. 0)) newSettings)
     in if isTSOPSplitCapable custom_build hw then s else upd_os (TSOPcontrol_update (\<lambda>_. 0)) s)"

end
