(* ===== verification/Settings_Numbers.thy ===== *)
theory Settings_Numbers
  imports SettingsFile
begin

text \<open>
  Numbers and addresses as text: what the export writes, the import reads back.
\<close>

subsection \<open>Numbers\<close>

lemma digits_rev_nat:
  "digits_rev (int n) = char_of (48 + n mod 10) # (if n < 10 then [] else digits_rev (int (n div 10)))"
proof -
  have d: "\<bar>sgn (int n) * (\<bar>int n\<bar> mod 10)\<bar> = int (n mod 10)" "sgn (int n) * (\<bar>int n\<bar> div 10) = int (n div 10)"
    by (cases n; simp add: zmod_int zdiv_int)+
  have z: "int (n div 10) = 0 \<longleftrightarrow> n < 10" by (auto simp: div_eq_0_iff)
  show ?thesis by (subst digits_rev.simps) (simp only: d z nat_int add.commute)
qed

lemma digits_rev_fmt: "rev (digits_rev (int n)) = fmt_u n"
proof (induction n rule: fmt_u.induct)
  case (1 n)
  show ?case by (subst digits_rev_nat, subst fmt_u.simps) (use 1 in simp)
qed

lemma long2str_fmt: "long2str (int n) = fmt_u n"
  by (simp add: long2str_def digits_rev_fmt)

lemma digit_char: "m < 10 \<Longrightarrow> (of_char (char_of (48 + m) :: char) :: nat) = 48 + m"
  by simp

lemma fmt_u_digits: "c \<in> set (fmt_u n) \<Longrightarrow> 48 \<le> char_code c \<and> char_code c \<le> 57"
proof (induction n rule: fmt_u.induct)
  case (1 n)
  have "c = char_of (48 + n mod 10) \<or> \<not> n < 10 \<and> c \<in> set (fmt_u (n div 10))"
    using "1.prems" by (subst (asm) fmt_u.simps) (auto split: if_splits)
  then show ?case using "1.IH" digit_char [of "n mod 10"] by auto
qed

lemma fmt_u_ne: "fmt_u n \<noteq> []"
  by (subst fmt_u.simps) simp

lemma length_fmt_u: "n < 1000 \<Longrightarrow> length (fmt_u n) \<le> 3"
  by (subst fmt_u.simps, subst fmt_u.simps, subst fmt_u.simps) auto

lemma digit_value_char: "m < 10 \<Longrightarrow> digit_value (char_of (48 + m)) = Some (int m)"
  using digit_char [of m] by (simp add: digit_value_def isdigit_def)

lemma digits_value_fmt: "digits_value 10 0 (fmt_u n) = int n"
proof (induction n rule: fmt_u.induct)
  case (1 n)
  have "the (digit_value (char_of (48 + n mod 10))) = int (n mod 10)" by (simp add: digit_value_char)
  then show ?case using 1 by (subst fmt_u.simps) (simp add: digits_value_def zmod_int zdiv_int)
qed

lemma hd_fmt_u: "0 < n \<Longrightarrow> hd (fmt_u n) \<noteq> CHR ''0''"
proof (induction n rule: fmt_u.induct)
  case (1 n)
  show ?case
  proof (cases "n < 10")
    case True
    have "char_of (48 + n) \<noteq> CHR ''0''"
    proof
      assume "char_of (48 + n) = CHR ''0''"
      then have "char_code (char_of (48 + n)) = char_code (CHR ''0'')" by (rule arg_cong)
      then show False unfolding digit_char [OF True] using 1 by simp
    qed
    then show ?thesis using True by (subst fmt_u.simps) simp
  next
    case False
    then have "hd (fmt_u (n div 10)) \<noteq> CHR ''0''" using 1 by (simp add: div_greater_zero_iff)
    then show ?thesis using False by (subst fmt_u.simps) (simp add: hd_append fmt_u_ne)
  qed
qed

lemma number_of_fmt: "n < 256 \<Longrightarrow> fst (strtol (fmt_u n) 0) = int n"
proof (cases "n = 0")
  case True
  have "fst (strtol (fmt_u 0) 0) = 0" by code_simp
  then show ?thesis using True by simp
next
  case False
  assume n: "n < 256"
  obtain c s where f: "fmt_u n = c # s" by (cases "fmt_u n") (simp_all add: fmt_u_ne)
  have c: "48 \<le> char_code c" "char_code c \<le> 57" "c \<noteq> CHR ''0''" using fmt_u_digits [of c n] hd_fmt_u [of n] f False by auto
  have "\<not> isspace c" "c \<noteq> CHR ''-''" "c \<noteq> CHR ''+''" using c(1) by (auto simp: isspace_def)
  then have p: "strtol_parts (fmt_u n) 0 = (False, 10, fmt_u n)"
    using c(3) by (simp add: strtol_parts_def strtol_sign_def strtol_base_def f)
  have "valid_digit 10 d" if "d \<in> set (fmt_u n)" for d
    using fmt_u_digits [OF that] by (simp add: valid_digit_def digit_value_def isdigit_def)
  then have "list_all (valid_digit 10) (fmt_u n)" by (simp add: list_all_iff)
  then have t: "takeWhile (valid_digit 10) (fmt_u n) = fmt_u n" by (simp add: takeWhile_eq_all_conv list_all_iff)
  show ?thesis using strtol_clamped [OF _ p] n unfolding t digits_value_fmt by simp
qed

lemma number_of_u8: "number_of (fmt_u (unat b)) = b"
  using number_of_fmt [of "unat b"] unat_u8_less [of b] by (simp add: number_of_def)

lemma starts_number_fmt: "starts_number (fmt_u n)"
  using fmt_u_digits [of "hd (fmt_u n)" n] fmt_u_ne [of n] by (auto simp: starts_number_def first_char_def split: list.splits)


subsection \<open>Addresses\<close>

lemma atoi_digit:
  assumes "m < 10"
  shows "r * 10 + scast (of_char (char_of (48 + m) :: char) :: u8) - 48 = r * 10 + (word_of_nat m :: u16)"
proof -
  have "(of_char (char_of (48 + m) :: char) :: u8) = word_of_nat (of_char (char_of (48 + m) :: char))"
    by (simp only: of_nat_of_char)
  also have "\<dots> = word_of_nat (48 + m)" unfolding digit_char [OF assms] ..
  finally have c: "(of_char (char_of (48 + m) :: char) :: u8) = word_of_nat (48 + m)" .
  have "m \<in> {0, 1, 2, 3, 4, 5, 6, 7, 8, 9}" using assms by auto
  then show ?thesis unfolding c by (elim insertE emptyE) simp_all
qed

lemma atoi_fmt: "atoi_loop 0 (fmt_u n @ t) = atoi_loop (word_of_nat n) t"
proof (induction n arbitrary: t rule: fmt_u.induct)
  case (1 n)
  let ?d = "char_of (48 + n mod 10) :: char"
  have d: "?d \<noteq> CHR ''.''"
  proof
    assume "?d = CHR ''.''"
    then have "char_code ?d = char_code (CHR ''.'')" by (rule arg_cong)
    then show False unfolding digit_char [OF mod_less_divisor, simplified] by simp
  qed
  have step: "atoi_loop (word_of_nat m) (?d # t) = atoi_loop (word_of_nat (m * 10 + n mod 10)) t" for m
    using d by (simp add: atoi_digit mult.commute)
  show ?case
  proof (cases "n < 10")
    case True
    then show ?thesis using step [of 0] by (subst fmt_u.simps) simp
  next
    case False
    then have "atoi_loop 0 (fmt_u n @ t) = atoi_loop (word_of_nat (n div 10)) (?d # t)"
      using 1 [of "?d # t"] by (subst fmt_u.simps) simp
    also have "\<dots> = atoi_loop (word_of_nat n) t" unfolding step by (simp only: div_mult_mod_eq)
    finally show ?thesis .
  qed
qed

lemma myAtoi_fmt:
  fixes b :: u8
  assumes t: "t = [] \<or> hd t = CHR ''.''"
  shows "ucast (myAtoi (fmt_u (unat b) @ t)) = b"
proof -
  have "atoi_loop r t = r" for r using t by (cases t) auto
  then have "myAtoi (fmt_u (unat b) @ t) = ucast b" by (simp add: myAtoi_def atoi_fmt unsigned_of_nat)
  moreover have "ucast (ucast b :: u16) = b" by (rule bit_word_eqI) (simp add: bit_simps)
  ultimately show ?thesis by simp
qed

lemma ip_scan_digits:
  "list_all (\<lambda>c. c \<noteq> CHR ''.'') s \<Longrightarrow> ip_scan False (s @ t) a n = ip_scan False t a n"
  by (induction s) auto

lemma fmt_no_dot: "list_all (\<lambda>c. c \<noteq> CHR ''.'') (fmt_u n)"
  using fmt_u_digits by (fastforce simp: list_all_iff)

lemma ip_scan_number:
  assumes "t = [] \<or> hd t = CHR ''.''"
  shows "ip_scan False (CHR ''.'' # fmt_u (unat b) @ t) a n = ip_scan False t (a @ [b]) (n + 1)"
    and "ip_scan True (fmt_u (unat b) @ t) a n = ip_scan False t (a @ [b]) n"
proof -
  obtain c s where f: "fmt_u (unat b) = c # s" by (cases "fmt_u (unat b)") (simp_all add: fmt_u_ne)
  have c: "c \<noteq> CHR ''.''" "list_all (\<lambda>c. c \<noteq> CHR ''.'') s" using fmt_no_dot [of "unat b"] f by simp_all
  have m: "ucast (myAtoi (c # s @ t)) = b" using myAtoi_fmt [OF assms, of b] f by simp
  have "ip_scan False ((c # s) @ t) (a @ [b]) (n + 1) = ip_scan False t (a @ [b]) (n + 1)"
    using c by (intro ip_scan_digits) simp
  then show "ip_scan False (CHR ''.'' # fmt_u (unat b) @ t) a n = ip_scan False t (a @ [b]) (n + 1)"
    using c m by (simp add: f)
  show "ip_scan True (fmt_u (unat b) @ t) a n = ip_scan False t (a @ [b]) n"
    using c m ip_scan_digits [OF c(2), of t] by (simp add: f)
qed

lemma ip_scan_last: "ip_scan False (CHR ''.'' # fmt_u (unat b)) a n = (a @ [b], n + 1)"
  using ip_scan_number(1) [of "[]" b a n] by (simp del: ip_scan.simps(2))

lemma ip_text: "length a = 4 \<Longrightarrow> assertCorrectIPString (fmt_ip a) = Some (Some a)"
proof -
  assume "length a = 4"
  then obtain w x y z where a: "a = [w, x, y, z]" by (auto simp: numeral_eq_Suc length_Suc_conv)
  have "ip_scan True (fmt_ip a) [] 0 = ([w, x, y, z], 3)"
    by (simp add: a fmt_ip_def ip_scan_number ip_scan_last del: ip_scan.simps(2))
  then show ?thesis by (simp add: assertCorrectIPString_def a)
qed

end
