(* ===== verification/Settings_Import.thy ===== *)
theory Settings_Import
  imports Settings_Numbers
begin

text \<open>
  The effect of \<^verbatim>\<open>iniCallback\<close> on the settings, as an update of one of the 36 fields of the
  configuration file. A field is a group of the pointer arrays and an index, its contents a list of
  bytes.
\<close>

definition bools :: "LPCmodSettings_t \<Rightarrow> u8 list" where
  "bools s = map fst (boolSettingsPtrArray s)"

definition nums :: "LPCmodSettings_t \<Rightarrow> u8 list" where
  "nums s = map fst (numSettingsPtrArray s)"

definition ips :: "LPCmodSettings_t \<Rightarrow> u8 list list" where
  "ips s = map fst (IPsettingsPtrArray s)"

definition texts :: "LPCmodSettings_t \<Rightarrow> u8 list list" where
  "texts s = map fst (textSettingsPtrArray s)"

definition specials :: "LPCmodSettings_t \<Rightarrow> u8 list" where
  "specials s = map fst (specialCasePtrArray s)"

lemmas ptr_defs = boolSettingsPtrArray_def numSettingsPtrArray_def IPsettingsPtrArray_def textSettingsPtrArray_def
  specialCasePtrArray_def

lemmas list_defs = bools_def nums_def ips_def texts_def specials_def

lemma ptr_lengths [simp]: "length (boolSettingsPtrArray s) = 12" "length (numSettingsPtrArray s) = 7"
  "length (IPsettingsPtrArray s) = 5" "length (textSettingsPtrArray s) = 8" "length (specialCasePtrArray s) = 4"
  by (simp_all add: ptr_defs)

lemma list_lengths [simp]: "length (bools s) = 12" "length (nums s) = 7" "length (ips s) = 5" "length (texts s) = 8"
  "length (specials s) = 4"
  by (simp_all add: list_defs)

definition all_lists :: "LPCmodSettings_t \<Rightarrow> u8 list \<times> u8 list \<times> u8 list list \<times> u8 list list \<times> u8 list" where
  "all_lists s = (bools s, nums s, ips s, texts s, specials s)"

lemma less_12: "(i :: nat) < 12 \<longleftrightarrow> i \<in> {0, 1, 2, 3, 4, 5, 6, 7, 8, 9, 10, 11}" by (simp, presburger)
lemma less_8: "(i :: nat) < 8 \<longleftrightarrow> i \<in> {0, 1, 2, 3, 4, 5, 6, 7}" by auto
lemma less_7: "(i :: nat) < 7 \<longleftrightarrow> i \<in> {0, 1, 2, 3, 4, 5, 6}" by auto
lemma less_5: "(i :: nat) < 5 \<longleftrightarrow> i \<in> {0, 1, 2, 3, 4}" by auto
lemma less_4: "(i :: nat) < 4 \<longleftrightarrow> i \<in> {0, 1, 2, 3}" by auto

lemma assign_bool:
  "i < 12 \<Longrightarrow> all_lists (snd (boolSettingsPtrArray s ! i) x) = ((bools s)[i := x], nums s, ips s, texts s, specials s)"
  unfolding less_12 by (elim insertE emptyE) (simp_all add: all_lists_def list_defs ptr_defs upd_os_def upd_lcd_def)

lemma assign_num:
  "i < 7 \<Longrightarrow> all_lists (snd (numSettingsPtrArray s ! i) x) = (bools s, (nums s)[i := x], ips s, texts s, specials s)"
  unfolding less_7 by (elim insertE emptyE) (simp_all add: all_lists_def list_defs ptr_defs upd_os_def upd_lcd_def)

lemma assign_ip:
  "i < 5 \<Longrightarrow> all_lists (snd (IPsettingsPtrArray s ! i) a) = (bools s, nums s, (ips s)[i := a], texts s, specials s)"
  unfolding less_5 by (elim insertE emptyE) (simp_all add: all_lists_def list_defs ptr_defs upd_os_def upd_lcd_def)

lemma assign_text:
  "i < 8 \<Longrightarrow> all_lists (snd (textSettingsPtrArray s ! i) a) = (bools s, nums s, ips s, (texts s)[i := a], specials s)"
  unfolding less_8 by (elim insertE emptyE) (simp_all add: all_lists_def list_defs ptr_defs upd_os_def upd_lcd_def)

lemma assign_special:
  "i < 4 \<Longrightarrow> all_lists (snd (specialCasePtrArray s ! i) x) = (bools s, nums s, ips s, texts s, (specials s)[i := x])"
  unfolding less_4 by (elim insertE emptyE) (simp_all add: all_lists_def list_defs ptr_defs upd_os_def upd_lcd_def)


subsection \<open>Fields\<close>

datatype cfg_field = FBool nat | FNum nat | FIP nat | FText nat | FSpecial nat

definition content_of :: "u8 list \<times> u8 list \<times> u8 list list \<times> u8 list list \<times> u8 list \<Rightarrow> cfg_field \<Rightarrow> u8 list" where
  "content_of ls F =
    (let (bs, ns, as, ts, ss) = ls
     in case F of
          FBool i \<Rightarrow> if i < length bs then [bs ! i] else []
        | FNum i \<Rightarrow> if i < length ns then [ns ! i] else []
        | FIP i \<Rightarrow> if i < length as then as ! i else []
        | FText i \<Rightarrow> if i < length ts then ts ! i else []
        | FSpecial i \<Rightarrow> if i < length ss then [ss ! i] else [])"

definition content :: "LPCmodSettings_t \<Rightarrow> cfg_field \<Rightarrow> u8 list" where
  "content s = content_of (all_lists s)"

definition key_field :: "string \<Rightarrow> cfg_field option" where
  "key_field key =
    (case name_index (boolSettingsStringArray xblastCfgStringsStruct) key of Some i \<Rightarrow> Some (FBool i) | None \<Rightarrow>
    (case name_index (numSettingsStringArray xblastCfgStringsStruct) key of Some i \<Rightarrow> Some (FNum i) | None \<Rightarrow>
    (case name_index (IPsettingsStringArray xblastCfgStringsStruct) key of Some i \<Rightarrow> Some (FIP i) | None \<Rightarrow>
    (case name_index (textSettingsStringArray xblastCfgStringsStruct) key of Some i \<Rightarrow> Some (FText i) | None \<Rightarrow>
      map_option FSpecial (name_index (specialSettingsStringArray xblastCfgStringsStruct) key)))))"

definition special_value :: "nat \<Rightarrow> string \<Rightarrow> u8 option" where
  "special_value i v =
    (if i = 0 \<or> i = 1 then find_special (\<lambda>name. strcasecmp v name = 0) i bankSettingArray
     else if i = 2 then find_special (\<lambda>name. strncasecmp v name 2 = 0) i ledArraySetting
     else find_special (\<lambda>name. strncasecmp v name 2 = 0) i lcdArraySetting)"

fun new_content :: "cfg_field \<Rightarrow> string \<Rightarrow> u8 list \<Rightarrow> u8 list option" where
  "new_content (FBool i) v old = Some
    (if starts_number v then [number_of v]
     else if strncasecmp v ''y'' 1 = 0 \<or> strncasecmp v ''t'' 1 = 0 then [1]
     else if strncasecmp v ''n'' 1 = 0 \<or> strncasecmp v ''f'' 1 = 0 then [0]
     else old)"
| "new_content (FNum i) v old = Some [if starts_number v then number_of v else 0]"
| "new_content (FIP i) v old =
    (if length v < 15 then map_option (\<lambda>r. case r of None \<Rightarrow> old | Some a \<Rightarrow> a) (assertCorrectIPString v) else Some old)"
| "new_content (FText i) v old = Some (if length v < 20 then strcpy old v else old)"
| "new_content (FSpecial i) v old = Some (case special_value i v of None \<Rightarrow> old | Some b \<Rightarrow> [b])"

lemma name_index_less: "name_index names key = Some i \<Longrightarrow> i < length names \<and> strcasecmp (names ! i) key = 0"
proof -
  assume n: "name_index names key = Some i"
  then obtain js where "filter (\<lambda>i. strcasecmp (names ! i) key = 0) [0..<length names] = i # js"
    by (auto simp: name_index_def split: list.splits)
  then have "i \<in> set (filter (\<lambda>i. strcasecmp (names ! i) key = 0) [0..<length names])" by simp
  then show ?thesis by simp
qed

lemma names_lengths: "length (boolSettingsStringArray xblastCfgStringsStruct) = 12"
  "length (numSettingsStringArray xblastCfgStringsStruct) = 7" "length (IPsettingsStringArray xblastCfgStringsStruct) = 5"
  "length (textSettingsStringArray xblastCfgStringsStruct) = 8" "length (specialSettingsStringArray xblastCfgStringsStruct) = 4"
  by (simp_all add: xblastCfgStringsStruct_def)

lemma nth_fst: "i < 12 \<Longrightarrow> fst (boolSettingsPtrArray s ! i) = bools s ! i" "i < 7 \<Longrightarrow> fst (numSettingsPtrArray s ! i) = nums s ! i"
  "i < 5 \<Longrightarrow> fst (IPsettingsPtrArray s ! i) = ips s ! i" "i < 8 \<Longrightarrow> fst (textSettingsPtrArray s ! i) = texts s ! i"
  "i < 4 \<Longrightarrow> fst (specialCasePtrArray s ! i) = specials s ! i"
  by (simp_all add: list_defs)

lemma content_update:
  "i < 12 \<Longrightarrow> content_of ((bools s)[i := x], nums s, ips s, texts s, specials s) = (content s)(FBool i := [x])"
  "i < 7 \<Longrightarrow> content_of (bools s, (nums s)[i := x], ips s, texts s, specials s) = (content s)(FNum i := [x])"
  "i < 5 \<Longrightarrow> content_of (bools s, nums s, (ips s)[i := a], texts s, specials s) = (content s)(FIP i := a)"
  "i < 8 \<Longrightarrow> content_of (bools s, nums s, ips s, (texts s)[i := a], specials s) = (content s)(FText i := a)"
  "i < 4 \<Longrightarrow> content_of (bools s, nums s, ips s, texts s, (specials s)[i := x]) = (content s)(FSpecial i := [x])"
  by (simp_all add: fun_eq_iff content_def content_of_def all_lists_def split: cfg_field.split)

lemma content_simps: "i < 12 \<Longrightarrow> content s (FBool i) = [bools s ! i]" "i < 7 \<Longrightarrow> content s (FNum i) = [nums s ! i]"
  "i < 5 \<Longrightarrow> content s (FIP i) = ips s ! i" "i < 8 \<Longrightarrow> content s (FText i) = texts s ! i"
  "i < 4 \<Longrightarrow> content s (FSpecial i) = [specials s ! i]"
  by (simp_all add: content_def content_of_def all_lists_def)

subsection \<open>The callback\<close>

lemma import_content:
  "i < 12 \<Longrightarrow> content (import_bool i v s) = (content s)(FBool i := the (new_content (FBool i) v (content s (FBool i))))"
  "i < 7 \<Longrightarrow> content (import_num i v s) = (content s)(FNum i := the (new_content (FNum i) v (content s (FNum i))))"
  "i < 5 \<Longrightarrow> map_option content (import_ip i v s) =
    map_option (\<lambda>c. (content s)(FIP i := c)) (new_content (FIP i) v (content s (FIP i)))"
  "i < 8 \<Longrightarrow> content (import_text i v s) = (content s)(FText i := the (new_content (FText i) v (content s (FText i))))"
  "i < 4 \<Longrightarrow> content (import_special i v s) = (content s)(FSpecial i := the (new_content (FSpecial i) v (content s (FSpecial i))))"
proof -
  have c: "content t = content_of (all_lists t)" for t by (rule content_def)
  show "content (import_bool i v s) = (content s)(FBool i := the (new_content (FBool i) v (content s (FBool i))))" if "i < 12"
    using that assign_bool [OF that, of s] content_update(1) [OF that, of s]
    by (simp add: import_bool_def case_prod_beta c [of "snd _ _"])
  show "content (import_num i v s) = (content s)(FNum i := the (new_content (FNum i) v (content s (FNum i))))" if "i < 7"
    using that assign_num [OF that, of s] content_update(2) [OF that, of s]
    by (simp add: import_num_def case_prod_beta c [of "snd _ _"])
  show "map_option content (import_ip i v s) =
      map_option (\<lambda>c. (content s)(FIP i := c)) (new_content (FIP i) v (content s (FIP i)))" if "i < 5"
    using that assign_ip [OF that, of s] content_update(3) [OF that, of s]
    by (auto simp: import_ip_def case_prod_beta c [of "snd _ _"] option.map_comp o_def split: option.split intro!: option.map_cong)
  show "content (import_text i v s) = (content s)(FText i := the (new_content (FText i) v (content s (FText i))))" if "i < 8"
    using that assign_text [OF that, of s] content_update(4) [OF that, of s]
      nth_fst(4) [OF that] content_simps(4) [OF that, symmetric]
    by (simp add: import_text_def case_prod_beta c [of "snd _ _"])
  show "content (import_special i v s) = (content s)(FSpecial i := the (new_content (FSpecial i) v (content s (FSpecial i))))" if "i < 4"
    using that assign_special [OF that, of s] content_update(5) [OF that, of s]
    by (auto simp: import_special_def special_value_def case_prod_beta c [of "snd _ _"] split: option.split)
qed


lemma callback_content:
  "map_option content (iniCallback key v s) =
    (case key_field key of
       None \<Rightarrow> Some (content s)
     | Some F \<Rightarrow> map_option (\<lambda>c. (content s)(F := c)) (new_content F v (content s F)))"
proof -
  let ?idx = "\<lambda>names. name_index (names xblastCfgStringsStruct) key"
  have idx: "?idx names = Some i \<Longrightarrow> i < length (names xblastCfgStringsStruct)" for names i using name_index_less by blast
  consider (bool) i where "?idx boolSettingsStringArray = Some i" "i < 12"
    | (num) i where "?idx boolSettingsStringArray = None" "?idx numSettingsStringArray = Some i" "i < 7"
    | (ip) i where "?idx boolSettingsStringArray = None" "?idx numSettingsStringArray = None"
        "?idx IPsettingsStringArray = Some i" "i < 5"
    | (str) i where "?idx boolSettingsStringArray = None" "?idx numSettingsStringArray = None"
        "?idx IPsettingsStringArray = None" "?idx textSettingsStringArray = Some i" "i < 8"
    | (special) "?idx boolSettingsStringArray = None" "?idx numSettingsStringArray = None"
        "?idx IPsettingsStringArray = None" "?idx textSettingsStringArray = None"
    using idx names_lengths by (metis not_None_eq)
  then show ?thesis
  proof cases
    case (bool i)
    then show ?thesis using import_content(1) [OF bool(2)] by (simp add: iniCallback_def key_field_def)
  next
    case (num i)
    then show ?thesis using import_content(2) [OF num(3)] by (simp add: iniCallback_def key_field_def)
  next
    case (ip i)
    then show ?thesis using import_content(3) [OF ip(4)] by (simp add: iniCallback_def key_field_def)
  next
    case (str i)
    then show ?thesis using import_content(4) [OF str(5)] by (simp add: iniCallback_def key_field_def)
  next
    case special
    show ?thesis
    proof (cases "?idx specialSettingsStringArray")
      case (Some i)
      then have "i < 4" using idx names_lengths(5) by metis
      then show ?thesis using import_content(5) [of i] special Some by (simp add: iniCallback_def key_field_def)
    qed (use special in \<open>simp add: iniCallback_def key_field_def\<close>)
  qed
qed

text \<open>A sequence of entries, with no field twice.\<close>

fun import_all :: "(string \<times> string) list \<Rightarrow> LPCmodSettings_t \<Rightarrow> LPCmodSettings_t option" where
  "import_all [] s = Some s"
| "import_all ((k, v) # kvs) s = Option.bind (iniCallback k v s) (import_all kvs)"

lemma import_all_content:
  assumes "\<And>k v F. (k, v) \<in> set kvs \<Longrightarrow> key_field k = Some F \<Longrightarrow> new_content F v (content s F) \<noteq> None"
    and "distinct (map (key_field \<circ> fst) (filter (\<lambda>kv. key_field (fst kv) \<noteq> None) kvs))"
  shows "\<exists>s'. import_all kvs s = Some s' \<and>
    (\<forall>k v F. (k, v) \<in> set kvs \<longrightarrow> key_field k = Some F \<longrightarrow> content s' F = the (new_content F v (content s F))) \<and>
    (\<forall>F. (\<forall>(k, v) \<in> set kvs. key_field k \<noteq> Some F) \<longrightarrow> content s' F = content s F)"
  using assms
proof (induction kvs arbitrary: s)
  case (Cons kv kvs)
  obtain k v where kv: "kv = (k, v)" by fastforce
  obtain s1 where s1: "iniCallback k v s = Some s1"
    and c1: "content s1 = (case key_field k of None \<Rightarrow> content s | Some F \<Rightarrow> (content s)(F := the (new_content F v (content s F))))"
    using callback_content [of k v s] Cons.prems(1) [of k v]
    by (cases "iniCallback k v s"; cases "key_field k"; cases "new_content (the (key_field k)) v (content s (the (key_field k)))")
      (auto simp: kv)
  have keep: "content s1 F = content s F" if "(k', v') \<in> set kvs" "key_field k' = Some F" for k' v' F
    using Cons.prems(2) that by (force simp: kv c1 split: option.splits if_splits)
  have d: "distinct (map (key_field \<circ> fst) (filter (\<lambda>kv. key_field (fst kv) \<noteq> None) kvs))"
    using Cons.prems(2) by (auto simp: o_def split: if_splits)
  have n: "new_content F v' (content s1 F) \<noteq> None" if "(k', v') \<in> set kvs" "key_field k' = Some F" for k' v' F
    using Cons.prems(1) [of k' v' F] that keep [OF that] by simp
  obtain s' where s': "import_all kvs s1 = Some s'"
    "\<forall>k v F. (k, v) \<in> set kvs \<longrightarrow> key_field k = Some F \<longrightarrow> content s' F = the (new_content F v (content s1 F))"
    "\<forall>F. (\<forall>(k, v) \<in> set kvs. key_field k \<noteq> Some F) \<longrightarrow> content s' F = content s1 F"
    using Cons.IH [of s1, OF _ d] n by blast
  have hd: "content s' F = the (new_content F v (content s F))" if "key_field k = Some F" for F
  proof -
    have "\<forall>(k', v') \<in> set kvs. key_field k' \<noteq> Some F" using Cons.prems(2) that by (force simp: kv)
    then show ?thesis using s'(3) c1 that by simp
  qed
  show ?case
  proof (intro exI [of _ s'] conjI allI impI)
    show "import_all (kv # kvs) s = Some s'" using s'(1) s1 by (simp add: kv)
    show "content s' F = the (new_content F v' (content s F))" if "(k', v') \<in> set (kv # kvs)" "key_field k' = Some F" for k' v' F
      using that s'(2) keep hd by (auto simp: kv)
    show "content s' F = content s F" if "\<forall>(k, v) \<in> set (kv # kvs). key_field k \<noteq> Some F" for F
      using that s'(3) c1 by (auto simp: kv split: option.splits)
  qed
qed simp

end
