(* ===== verification/Settings_Export.thy ===== *)
theory Settings_Export
  imports Settings_Import "HOL-Library.AList"
begin

text \<open>
  The configuration file as the firmware writes it. A file that holds nothing but
  entries, in lower case and with no key twice, is an association list: \<^verbatim>\<open>ini_puts\<close> updates it and
  \<^verbatim>\<open>ini_browse\<close> passes it to the callback entry by entry. The names of the fields are distinct and the
  texts written for them have no character that the file format would lose.
\<close>

definition entry_text :: "(string \<times> string) list \<Rightarrow> string list" where
  "entry_text kvs = map (\<lambda>(k, v). entry_line k v) kvs"

definition own_key :: "string \<Rightarrow> bool" where
  "own_key k \<longleftrightarrow> key_ok k \<and> list_all (\<lambda>c. \<not> isupper c) k"

definition own_entries :: "(string \<times> string) list \<Rightarrow> bool" where
  "own_entries kvs \<longleftrightarrow> list_all (\<lambda>(k, v). own_key k \<and> value_ok v) kvs \<and> distinct (map fst kvs)"

lemma lower_id: "\<not> isupper c \<Longrightarrow> lower c = of_char c"
proof -
  have "(of_char c :: int) = int (char_code c)" by (simp add: of_nat_of_char)
  then show "\<not> isupper c \<Longrightarrow> lower c = of_char c" by (auto simp: lower_def tolower_def isupper_def)
qed

lemma map_lower_id: "list_all (\<lambda>c. \<not> isupper c) k \<Longrightarrow> map lower k = map of_char k"
  by (induction k) (simp_all add: lower_id)

lemma same_key_own: "own_key k \<Longrightarrow> own_key k' \<Longrightarrow> same_key k k' \<longleftrightarrow> k = k'"
proof -
  assume k: "own_key k" "own_key k'"
  have "inj (of_char :: char \<Rightarrow> int)" by (auto intro: injI)
  then show ?thesis using k by (auto simp: same_key_def own_key_def map_lower_id inj_map_eq_map)
qed

lemma own_entriesD:
  assumes "own_entries kvs" "(k, v) \<in> set kvs"
  shows "own_key k" "key_ok k" "value_ok v"
  using assms by (auto simp: own_entries_def own_key_def list_all_iff)

subsection \<open>Reading\<close>

lemma browse_line:
  assumes "key_ok k" "value_ok v"
  shows "browse_loop browse_callback [] (entry_line k v @ CR # NL # t) os =
    browse_loop browse_callback [] t (Option.bind os (iniCallback k v))"
proof -
  have len: "length (entry_line k v) + 1 < 255"
  proof -
    have "length (stored v) \<le> 2 * length v + 2" using length_quoted [of v] by (auto simp: stored_def)
    then show ?thesis using key_okD(5) [OF assms(1)] assms(2) by (simp add: entry_line_def value_ok_def)
  qed
  have r: "ini_read (INI_BUFFERSIZE - 1) (entry_line k v @ CR # NL # t) = (True, entry_line k v @ [NL], t)"
    using tidy_entry [OF assms] len by (intro ini_read_line) (simp_all add: INI_BUFFERSIZE_def)
  have sp: "skipleading (entry_line k v @ [NL]) = k @ CHR ''='' # stored v @ [NL]"
    using sp_of_entry [OF assms(1), of "stored v"] by (simp add: sp_of_def entry_line_def)
  have hd: "\<not> starts c (k @ CHR ''='' # stored v @ [NL])" if "c \<in> {CHR '';'', CHR ''#'', CHR ''[''}" for c
    using key_okD(1) [OF assms(1)] key_okD(3) [OF assms(1), of "hd k"] that by (auto simp: starts_def)
  have sec: "section_name (k @ CHR ''='' # stored v @ [NL]) = None" using hd by (simp add: section_name_def)
  have k: "ini_strncpy (INI_BUFFERSIZE - 1) QUOTE_NONE k = k" "length k \<le> 100" "length v \<le> 60"
    using key_okD(5) [OF assms(1)] assms(2) by (simp_all add: ini_strncpy_def INI_BUFFERSIZE_def value_ok_def)
  have v: "value_text (INI_BUFFERSIZE - 1 - (length k + 1)) (stored v @ [NL]) = v"
    using k by (intro value_text_stored [OF assms(2)]) (simp add: INI_BUFFERSIZE_def)
  obtain w q where c: "cleanstring (skipleading (stored v @ [NL])) = (w, q)" by fastforce
  then have w: "ini_strncpy (INI_BUFFERSIZE - 1 - (length k + 1)) q w = v" using v by (simp add: value_text_def)
  show ?thesis
    by (subst browse_loop.simps)
      (use r sp hd sec k(1) c w striptrailing_key [OF assms(1)] split_line_entry [OF assms(1), of "stored v @ [NL]"] in
        \<open>simp add: Let_def browse_callback_def\<close>)
qed

lemma browse_entries:
  assumes "\<And>k v. (k, v) \<in> set kvs \<Longrightarrow> key_ok k \<and> value_ok v"
  shows "browse_loop browse_callback [] (render (entry_text kvs)) os = Option.bind os (import_all kvs)"
  using assms
proof (induction kvs arbitrary: os)
  case Nil
  then show ?case by (subst browse_loop.simps) (cases os; simp add: entry_text_def ini_read_end)
next
  case (Cons kv kvs)
  obtain k v where kv: "kv = (k, v)" by fastforce
  have "browse_loop browse_callback [] (render (entry_text (kv # kvs))) os =
      browse_loop browse_callback [] (render (entry_text kvs)) (Option.bind os (iniCallback k v))"
    using browse_line [of k v] Cons.prems [of k v] by (simp add: kv entry_text_def)
  also have "\<dots> = Option.bind (Option.bind os (iniCallback k v)) (import_all kvs)"
    by (rule Cons.IH, rule Cons.prems) simp
  finally show ?case by (cases os) (simp_all add: kv)
qed


subsection \<open>Writing\<close>

lemma stops_own:
  assumes "own_key k" "own_key k'" "value_ok v"
  shows "stops k (entry_line k' v) \<longleftrightarrow> k' = k"
  using is_entry_line [of k' k "stored v"] is_section_line [of k' "stored v"] same_key_own [OF assms(2,1)] stored_clean(1) [OF assms(3)] assms
  by (simp add: stops_def own_key_def entry_line_def)

lemma put_entries:
  assumes "own_key k" "value_ok v" "own_entries kvs"
  shows "put_lines [] k (Some v) (entry_text kvs) = entry_text (AList.update k v kvs)"
  using assms(3)
proof (induction kvs)
  case Nil
  then show ?case using assms by (simp add: put_lines_def entry_text_def entry_lines_eq own_key_def)
next
  case (Cons kv kvs)
  obtain k' v' where kv: "kv = (k', v')" by fastforce
  have k': "own_key k'" "value_ok v'" "own_entries kvs" using Cons.prems by (simp_all add: kv own_entries_def)
  have s: "stops k (entry_line k' v') \<longleftrightarrow> k' = k" by (rule stops_own [OF assms(1) k'(1,2)])
  have n: "\<not> is_section (entry_line k' v')" using is_section_line k'(1) by (simp add: entry_line_def own_key_def)
  show ?case
  proof (cases "k' = k")
    case True
    then show ?thesis using s n assms(1,2) by (simp add: kv put_lines_def entry_text_def entry_lines_eq own_key_def)
  next
    case False
    then show ?thesis using s Cons.IH [OF k'(3)] by (simp add: kv put_lines_def entry_text_def Let_def)
  qed
qed

lemma own_entries_update:
  assumes "own_key k" "value_ok v" "own_entries kvs"
  shows "own_entries (AList.update k v kvs)"
proof -
  have "list_all (\<lambda>(k, v). own_key k \<and> value_ok v) (AList.update k v kvs)"
    using assms by (induction kvs) (auto simp: own_entries_def)
  then show ?thesis using assms(3) distinct_update [of kvs k v] by (simp add: own_entries_def)
qed

lemma update_same: "map_of kvs k = Some v \<Longrightarrow> AList.update k v kvs = kvs"
  by (induction kvs) (auto split: if_splits)

lemma tidy_entry_text: "own_entries kvs \<Longrightarrow> tidy (entry_text kvs)"
  using own_entriesD tidy_entry by (fastforce simp: tidy_def entry_text_def list_all_iff)

lemma entry_line_ne: "entry_line k v \<noteq> []"
  by (simp add: entry_line_def)

lemma lookup_entries:
  assumes "own_key k" "own_entries kvs"
  shows "lookup_lines k (entry_text kvs) = map_option (\<lambda>v. stored v @ [NL]) (map_of kvs k)"
  using assms(2)
proof (induction kvs)
  case (Cons kv kvs)
  obtain k' v' where kv: "kv = (k', v')" by fastforce
  have k': "own_key k'" "value_ok v'" "own_entries kvs" using Cons.prems by (simp_all add: kv own_entries_def)
  have n: "\<not> is_section (entry_line k' v')" using is_section_line k'(1) by (simp add: entry_line_def own_key_def)
  have "is_entry k (entry_line k' v') \<longleftrightarrow> k' = k" using stops_own [OF assms(1) k'(1,2)] n by (simp add: stops_def)
  then show ?case using Cons.IH [OF k'(3)] n k'(1) by (auto simp: kv entry_text_def line_value_entry own_key_def)
qed (simp add: entry_text_def)

text \<open>The file is missing or holds entries.\<close>

definition cfg_file :: "(string \<times> string) list \<Rightarrow> files \<Rightarrow> bool" where
  "cfg_file kvs fs \<longleftrightarrow> own_entries kvs \<and>
    fs settingsFileLocation = (if kvs = [] then None else Some (render (entry_text kvs)))"

definition can_write :: "(string \<Rightarrow> bool) \<Rightarrow> bool" where
  "can_write writable \<longleftrightarrow> writable settingsFileLocation \<and> writable (ini_tempname settingsFileLocation)"

lemma temp_location: "ini_tempname settingsFileLocation \<noteq> settingsFileLocation"
  by (simp add: ini_tempname_def settingsFileLocation_def ini_strncpy_def INI_BUFFERSIZE_def)

lemma ini_puts_entry:
  assumes w: "can_write writable" and f: "cfg_file kvs fs" and k: "own_key k" "value_ok v"
  shows "\<exists>fs'. ini_puts writable None (Some k) (Some v) settingsFileLocation fs = Some (1, fs') \<and> cfg_file (AList.update k v kvs) fs'"
proof (cases "kvs = []")
  case True
  have "ini_put writable settingsFileLocation k v fs = Some (fs(settingsFileLocation \<mapsto> render [entry_line k v]))"
    using f w k True by (intro ini_put_missing) (simp_all add: cfg_file_def can_write_def own_key_def)
  then have "ini_puts writable None (Some k) (Some v) settingsFileLocation fs =
      Some (1, fs(settingsFileLocation \<mapsto> render [entry_line k v]))"
    using f w True by (auto simp: ini_put_def ini_puts_def cfg_file_def can_write_def split: if_splits)
  then show ?thesis using k by (auto simp: cfg_file_def True entry_text_def own_entries_def)
next
  case False
  have o: "own_entries kvs" and t: "fs settingsFileLocation = Some (render (entry_text kvs))" using f False by (simp_all add: cfg_file_def)
  have kok: "key_ok k" using k by (simp add: own_key_def)
  have l: "map_option fst (getkeystring None (Some k) (-1) (-1) INI_BUFFERSIZE (render (entry_text kvs))) = map_of kvs k"
    unfolding getkeystring_lines [OF kok tidy_entry_text [OF o]] lookup_entries [OF k(1) o]
    using own_entriesD(3) [OF o] value_text_put by (cases "map_of kvs k") (auto dest: map_of_SomeD)
  show ?thesis
  proof (cases "map_of kvs k = Some v")
    case True
    then have "ini_puts writable None (Some k) (Some v) settingsFileLocation fs = Some (1, fs)" using t l by (simp add: ini_puts_def)
    then show ?thesis using f update_same [OF True] by auto
  next
    case ne: False
    have e: "tidy (entry_lines k (Some v))" using tidy_entry [OF kok k(2)] by (simp add: entry_lines_eq [OF kok k(2)])
    have "entry_text kvs \<noteq> []" "last (entry_text kvs) \<noteq> []" using False entry_line_ne
      by (auto simp: entry_text_def last_map split: prod.splits)
    then have "ini_puts writable None (Some k) (Some v) settingsFileLocation fs =
        Some (1, (fs(settingsFileLocation \<mapsto> render (put_lines [] k (Some v) (entry_text kvs))))(ini_tempname settingsFileLocation := None))"
      using ini_puts_lines [of fs settingsFileLocation "entry_text kvs" k "Some v" writable, OF t tidy_entry_text [OF o] e] w l ne
      by (auto simp: can_write_def)
    moreover have "AList.update k v kvs \<noteq> []" by (cases kvs) auto
    ultimately show ?thesis using own_entries_update [OF k o] temp_location by (auto simp: cfg_file_def put_entries [OF k o])
  qed
qed


subsection \<open>The entries of the settings\<close>

definition all_fields :: "cfg_field list" where
  "all_fields = map FBool [0..<12] @ map FNum [0..<7] @ map FIP [0..<5] @ map FText [0..<8] @ map FSpecial [0..<4]"

fun field_name :: "cfg_field \<Rightarrow> string" where
  "field_name (FBool i) = boolSettingsStringArray xblastCfgStringsStruct ! i"
| "field_name (FNum i) = numSettingsStringArray xblastCfgStringsStruct ! i"
| "field_name (FIP i) = IPsettingsStringArray xblastCfgStringsStruct ! i"
| "field_name (FText i) = textSettingsStringArray xblastCfgStringsStruct ! i"
| "field_name (FSpecial i) = specialSettingsStringArray xblastCfgStringsStruct ! i"

fun field_text :: "LPCmodSettings_t \<Rightarrow> cfg_field \<Rightarrow> string option" where
  "field_text s (FBool i) = Some (fmt_u (unat (bools s ! i)))"
| "field_text s (FNum i) = Some (fmt_u (unat (nums s ! i)))"
| "field_text s (FIP i) = Some (fmt_ip (ips s ! i))"
| "field_text s (FText i) = text_of_field (texts s ! i)"
| "field_text s (FSpecial i) = getSpecialSettingTextString (of_nat i) (specials s ! i)"

definition cfg_kvs :: "LPCmodSettings_t \<Rightarrow> (string \<times> string) list" where
  "cfg_kvs s = map (\<lambda>F. (field_name F, the (field_text s F))) all_fields"

text \<open>Settings that survive: addresses of four bytes, texts that end and have no control character and no
  blank in front, bank, colour and display values that have a name.\<close>

definition exportable :: "LPCmodSettings_t \<Rightarrow> bool" where
  "exportable s \<longleftrightarrow> list_all (\<lambda>a. length a = 4) (ips s) \<and>
    list_all (\<lambda>f. case text_of_field f of None \<Rightarrow> False | Some t \<Rightarrow> value_ok t) (texts s) \<and>
    list_all (\<lambda>i. getSpecialSettingTextString (of_nat i) (specials s ! i) \<noteq> None) [0..<4]"

lemma names_all: "map field_name all_fields =
  boolSettingsStringArray xblastCfgStringsStruct @ numSettingsStringArray xblastCfgStringsStruct @
  IPsettingsStringArray xblastCfgStringsStruct @ textSettingsStringArray xblastCfgStringsStruct @
  specialSettingsStringArray xblastCfgStringsStruct"
  by (simp add: all_fields_def xblastCfgStringsStruct_def upt_rec)

lemma names_own: "list_all own_key (map field_name all_fields)"
  unfolding names_all xblastCfgStringsStruct_def
  by (simp add: own_key_def key_ok_def isalpha_def isdigit_def isupper_def islower_def)

lemma names_distinct: "distinct (map field_name all_fields)"
  unfolding names_all xblastCfgStringsStruct_def by simp

lemma strcasecmp_own: "own_key k \<Longrightarrow> own_key k' \<Longrightarrow> strcasecmp k k' = 0 \<longleftrightarrow> k = k'"
  using strcasecmp_eq_0 [of k k'] key_okD(4) same_key_own [of k k'] by (simp add: own_key_def same_key_def)

lemma filter_upt: "filter (\<lambda>j. j = i) [0..<n] = (if i < n then [i] else [])"
  by (induction n) auto

lemma name_index_nth:
  assumes "list_all own_key names" "distinct names" "i < length names"
  shows "name_index names (names ! i) = Some i"
proof -
  have "filter (\<lambda>j. strcasecmp (names ! j) (names ! i) = 0) [0..<length names] = filter (\<lambda>j. j = i) [0..<length names]"
    using assms by (intro filter_cong) (auto simp: strcasecmp_own list_all_length nth_eq_iff_index_eq)
  then show ?thesis using assms(3) by (simp add: name_index_def filter_upt)
qed

lemma name_index_none:
  assumes "list_all own_key names" "own_key k" "k \<notin> set names"
  shows "name_index names k = None"
proof -
  have "filter (\<lambda>j. strcasecmp (names ! j) k = 0) [0..<length names] = []"
    using assms by (auto simp: filter_empty_conv strcasecmp_own list_all_length in_set_conv_nth)
  then show ?thesis by (simp add: name_index_def)
qed

lemma key_field_name:
  assumes "F \<in> set all_fields"
  shows "key_field (field_name F) = Some F"
proof -
  have k: "own_key (field_name F)" using names_own assms by (simp add: list_all_iff)
  define bs ns as ts ss where "bs = boolSettingsStringArray xblastCfgStringsStruct" and "ns = numSettingsStringArray xblastCfgStringsStruct"
    and "as = IPsettingsStringArray xblastCfgStringsStruct" and "ts = textSettingsStringArray xblastCfgStringsStruct"
    and "ss = specialSettingsStringArray xblastCfgStringsStruct"
  note d = this
  have own: "list_all own_key bs" "list_all own_key ns" "list_all own_key as" "list_all own_key ts" "list_all own_key ss"
    and dist: "distinct (bs @ ns @ as @ ts @ ss)"
    using names_own names_distinct unfolding names_all d [symmetric] by simp_all
  have none: "field_name F \<notin> set names \<Longrightarrow> list_all own_key names \<Longrightarrow> name_index names (field_name F) = None" for names
    using name_index_none k by blast
  have disj: "x \<in> set ns \<Longrightarrow> x \<notin> set bs" "x \<in> set as \<Longrightarrow> x \<notin> set bs \<and> x \<notin> set ns"
    "x \<in> set ts \<Longrightarrow> x \<notin> set bs \<and> x \<notin> set ns \<and> x \<notin> set as"
    "x \<in> set ss \<Longrightarrow> x \<notin> set bs \<and> x \<notin> set ns \<and> x \<notin> set as \<and> x \<notin> set ts" for x
    using dist by auto
  note len = names_lengths [folded d]
  show ?thesis
  proof (cases F)
    case (FBool i)
    then show ?thesis using assms own dist name_index_nth [of bs i] len by (auto simp: key_field_def all_fields_def d [symmetric])
  next
    case (FNum i)
    then have "i < 7" using assms by (auto simp: all_fields_def)
    then show ?thesis using FNum own dist none [of bs] name_index_nth [of ns i] disj(1) [of "ns ! i"] len
      by (auto simp: key_field_def d [symmetric])
  next
    case (FIP i)
    then have "i < 5" using assms by (auto simp: all_fields_def)
    then show ?thesis using FIP own dist none [of bs] none [of ns] name_index_nth [of as i] disj(2) [of "as ! i"] len
      by (auto simp: key_field_def d [symmetric])
  next
    case (FText i)
    then have "i < 8" using assms by (auto simp: all_fields_def)
    then show ?thesis using FText own dist none [of bs] none [of ns] none [of as] name_index_nth [of ts i] disj(3) [of "ts ! i"] len
      by (auto simp: key_field_def d [symmetric])
  next
    case (FSpecial i)
    then have "i < 4" using assms by (auto simp: all_fields_def)
    then show ?thesis using FSpecial own dist none [of bs] none [of ns] none [of as] none [of ts] name_index_nth [of ss i] disj(4) [of "ss ! i"] len
      by (auto simp: key_field_def d [symmetric])
  qed
qed


subsection \<open>The texts of the fields\<close>

lemma value_ok_digits:
  assumes "\<And>c. c \<in> set s \<Longrightarrow> 46 \<le> char_code c" "length s \<le> 60"
  shows "value_ok s"
proof -
  have "32 \<le> char_code c" "c \<noteq> CHR '' ''" if "c \<in> set s" for c using assms(1) [OF that] by auto
  then show ?thesis using assms(2) by (auto simp: value_ok_def list_all_iff)
qed

lemma value_ok_u8: "value_ok (fmt_u (unat (b :: u8)))"
  using fmt_u_digits [of _ "unat b"] length_fmt_u [of "unat b"] unat_u8_less [of b] by (intro value_ok_digits) force+

lemma value_ok_ip: "value_ok (fmt_ip a)"
proof (rule value_ok_digits)
  show "46 \<le> char_code c" if "c \<in> set (fmt_ip a)" for c
    using that fmt_u_digits [of c] by (fastforce simp: fmt_ip_def)
  have "length (fmt_u (unat (a ! i))) \<le> 3" for i using length_fmt_u unat_u8_less [of "a ! i"] by simp
  from this [of 0] this [of 1] this [of 2] this [of 3] show "length (fmt_ip a) \<le> 60" by (simp add: fmt_ip_def)
qed

definition bank_names :: "(u8 \<times> string) list" where
  "bank_names = [(FlashBank_512Bank, ''BNK512''), (FlashBank_256Bank, ''BNK256''),
     (FlashBank_SplitTSOP0Bank, ''BNKTSOPSPLIT0''), (FlashBank_FullTSOPBank, ''BNKFULLTSOP''),
     (FlashBank_SplitTSOP1Bank, ''BNKTSOPSPLIT1''), (FlashBank_OSBank, ''BNKOS'')]"

lemma special_names:
  assumes "getSpecialSettingTextString (of_nat i) b = Some n" "i < 4"
  shows "(i, b, n) \<in> set (map (Pair 0) bank_names @ map (Pair 1) bank_names @
    [(2, 0, ''Off''), (2, 1, ''Green''), (2, 2, ''Red''), (2, 3, ''Orange''), (2, 4, ''Cycle''),
     (3, 0, ''HD44780''), (3, 1, ''KS0073'')])"
  using assms unfolding less_4 
  by (elim insertE emptyE)
    (auto simp: getSpecialSettingTextString_def getSpecialSettingStringCommon_def special_settings_defs bank_names_def
      split: if_splits dest!: map_of_SomeD)

lemma special_table:
  "list_all (\<lambda>(i, b, n). value_ok n \<and> special_value i n = Some b)
    (map (Pair 0) bank_names @ map (Pair 1) bank_names @
      [(2, 0, ''Off''), (2, 1, ''Green''), (2, 2, ''Red''), (2, 3, ''Orange''), (2, 4, ''Cycle''),
       (3, 0, ''HD44780''), (3, 1, ''KS0073'')])"
  by code_simp

lemma special_roundtrip:
  "getSpecialSettingTextString (of_nat i) b = Some n \<Longrightarrow> i < 4 \<Longrightarrow> value_ok n \<and> special_value i n = Some b"
  using special_names special_table unfolding list_all_iff by fast

lemma cstr_ascii: "no_nul t \<Longrightarrow> cstr (ascii t @ 0 # rest) = Some (ascii t)"
proof (induction t)
  case (Cons c t)
  then show ?case by (auto simp: ascii_def of_char_eq_0)
qed (simp add: ascii_def)


lemma text_of_strcpy: "no_nul t \<Longrightarrow> text_of_field (strcpy f t) = Some t"
proof -
  assume "no_nul t"
  moreover have "map (\<lambda>b. char_of (unat b)) (ascii t) = t" by (induction t) (simp_all add: ascii_def unat_of_char)
  ultimately show ?thesis by (simp add: text_of_field_def strcpy_def cstr_ascii)
qed

lemma value_ok_no_nul: "value_ok v \<Longrightarrow> no_nul v"
  by (fastforce simp: value_ok_def no_nul_def list_all_iff)

lemma all_fields_iff:
  "FBool i \<in> set all_fields \<longleftrightarrow> i < 12" "FNum i \<in> set all_fields \<longleftrightarrow> i < 7" "FIP i \<in> set all_fields \<longleftrightarrow> i < 5"
  "FText i \<in> set all_fields \<longleftrightarrow> i < 8" "FSpecial i \<in> set all_fields \<longleftrightarrow> i < 4"
  by (auto simp: all_fields_def)

lemma exportable_text:
  assumes "exportable s" "F \<in> set all_fields"
  obtains t where "field_text s F = Some t" "value_ok t"
proof -
  consider (num) i where "F = FBool i \<or> F = FNum i" | (ip) i where "F = FIP i" | (str) i where "F = FText i" "i < 8"
    | (special) i where "F = FSpecial i" "i < 4"
    using assms(2) by (cases F rule: cfg_field.exhaust) (simp_all add: all_fields_iff)
  then show thesis
  proof cases
    case num
    then show thesis using value_ok_u8 that by auto
  next
    case ip
    then show thesis using value_ok_ip that by auto
  next
    case str
    then have "case text_of_field (texts s ! i) of None \<Rightarrow> False | Some t \<Rightarrow> value_ok t"
      using assms(1) by (simp add: exportable_def list_all_length)
    then show thesis using str that by (cases "text_of_field (texts s ! i)") auto
  next
    case special
    then have "i \<in> set [0..<4]" by simp
    then obtain n where "getSpecialSettingTextString (of_nat i) (specials s ! i) = Some n"
      using assms(1) unfolding exportable_def list_all_iff by blast
    then show thesis using special_roundtrip [of i _ n] special that [of n] by simp
  qed
qed

lemma own_kvs: "exportable s \<Longrightarrow> own_entries (cfg_kvs s)"
proof -
  assume e: "exportable s"
  have "own_key (field_name F) \<and> value_ok (the (field_text s F))" if F: "F \<in> set all_fields" for F
  proof -
    obtain t where "field_text s F = Some t" "value_ok t" by (rule exportable_text [OF e F])
    moreover have "own_key (field_name F)" using names_own F by (simp add: list_all_iff)
    ultimately show ?thesis by simp
  qed
  then show ?thesis using names_distinct by (auto simp: own_entries_def cfg_kvs_def list_all_iff o_def)
qed

lemma long2str_u8: "long2str (uint (b :: u8)) = fmt_u (unat b)"
  using long2str_fmt [of "unat b"] by simp

lemma those_Some: "\<forall>x \<in> set xs. f x \<noteq> None \<Longrightarrow> those (map f xs) = Some (map (the \<circ> f) xs)"
  by (induction xs) (auto split: option.splits)

lemma those_texts:
  assumes "exportable s"
  shows "those (map (\<lambda>(f, _). text_of_field f) (textSettingsPtrArray s)) = Some (map (\<lambda>i. the (field_text s (FText i))) [0..<8])"
proof -
  have e: "text_of_field x \<noteq> None" if "x \<in> set (texts s)" for x
    using assms that by (auto simp: exportable_def list_all_iff split: option.splits)
  have "those (map text_of_field (texts s)) = Some (map (the \<circ> text_of_field) (texts s))"
    by (rule those_Some) (use e in blast)
  moreover have "map (\<lambda>(f, _). text_of_field f) (textSettingsPtrArray s) = map text_of_field (texts s)"
    by (simp add: texts_def case_prod_beta)
  moreover have "map (the \<circ> text_of_field) (texts s) = map (\<lambda>i. the (field_text s (FText i))) [0..<8]"
    by (rule nth_equalityI) simp_all
  ultimately show ?thesis by simp
qed

end
