(* ===== verification/Settings_Roundtrip.thy ===== *)
theory Settings_Roundtrip
  imports Settings_Export
begin

text \<open>
  Saving the settings to the configuration file and reading them back.
\<close>

subsection \<open>Saving\<close>

lemma field_text_Some: "exportable s \<Longrightarrow> F \<in> set all_fields \<Longrightarrow> Some (the (field_text s F)) = field_text s F"
  by (erule (1) exportable_text) simp

lemma group_entries:
  assumes "exportable s"
  shows "zip (boolSettingsStringArray xblastCfgStringsStruct) (map (\<lambda>(x, _). Some (long2str (uint x))) (boolSettingsPtrArray s)) =
      map (\<lambda>i. (field_name (FBool i), field_text s (FBool i))) [0..<12]" (is ?B)
    and "zip (numSettingsStringArray xblastCfgStringsStruct) (map (\<lambda>(x, _). Some (long2str (uint x))) (numSettingsPtrArray s)) =
      map (\<lambda>i. (field_name (FNum i), field_text s (FNum i))) [0..<7]" (is ?N)
    and "zip (IPsettingsStringArray xblastCfgStringsStruct) (map (\<lambda>(a, _). Some (fmt_ip a)) (IPsettingsPtrArray s)) =
      map (\<lambda>i. (field_name (FIP i), field_text s (FIP i))) [0..<5]" (is ?I)
    and "zip (textSettingsStringArray xblastCfgStringsStruct) (map Some (map (\<lambda>i. the (field_text s (FText i))) [0..<8])) =
      map (\<lambda>i. (field_name (FText i), field_text s (FText i))) [0..<8]" (is ?T)
    and "zip (specialSettingsStringArray xblastCfgStringsStruct)
        (map (\<lambda>i. getSpecialSettingTextString (of_nat i) (fst (specialCasePtrArray s ! i))) [0..<4]) =
      map (\<lambda>i. (field_name (FSpecial i), field_text s (FSpecial i))) [0..<4]" (is ?S)
proof -
  show ?B ?N ?I ?S
    by (rule nth_equalityI; simp add: names_lengths nth_fst case_prod_beta long2str_u8)+
  have "Some (the (field_text s (FText i))) = field_text s (FText i)" if "i < 8" for i
    using that by (intro field_text_Some [OF assms]) (simp add: all_fields_iff)
  then show ?T by (intro nth_equalityI) (simp_all add: names_lengths)
qed

lemma cfg_entries_kvs:
  assumes "exportable s"
  shows "cfg_entries s = Some (map (\<lambda>(k, v). (k, Some v)) (cfg_kvs s))"
proof -
  have "cfg_entries s = Some (map (\<lambda>F. (field_name F, field_text s F)) all_fields)"
    unfolding cfg_entries_def Let_def those_texts [OF assms] bind.bind_lunit group_entries [OF assms]
    by (simp add: all_fields_def)
  also have "map (\<lambda>F. (field_name F, field_text s F)) all_fields = map (\<lambda>(k, v). (k, Some v)) (cfg_kvs s)"
    unfolding cfg_kvs_def map_map by (rule map_cong [OF refl]) (simp add: field_text_Some [OF assms])
  finally show ?thesis .
qed

definition updates :: "(string \<times> string) list \<Rightarrow> (string \<times> string) list \<Rightarrow> (string \<times> string) list" where
  "updates kvs al = fold (\<lambda>(k, v). AList.update k v) kvs al"

lemma save_loop_entries:
  assumes "can_write writable" "cfg_file al fs" "own_entries kvs"
  shows "\<exists>fs'. save_loop writable (map (\<lambda>(k, v). (k, Some v)) kvs) fs = Some (0, fs') \<and> cfg_file (updates kvs al) fs'"
  using assms(2,3)
proof (induction kvs arbitrary: al fs)
  case Nil
  then show ?case by (simp add: updates_def)
next
  case (Cons kv kvs)
  obtain k v where kv: "kv = (k, v)" by fastforce
  have k: "own_key k" "value_ok v" "own_entries kvs" using Cons.prems(2) by (simp_all add: kv own_entries_def)
  obtain fs1 where fs1: "ini_puts writable None (Some k) (Some v) settingsFileLocation fs = Some (1, fs1)" "cfg_file (AList.update k v al) fs1"
    using ini_puts_entry [OF assms(1) Cons.prems(1) k(1,2)] by blast
  from Cons.IH [OF fs1(2) k(3)] show ?case by (simp add: kv fs1(1) updates_def)
qed

lemma map_of_updates: "distinct (map fst kvs) \<Longrightarrow> map_of (updates kvs al) = map_of al ++ map_of kvs"
proof (induction kvs arbitrary: al)
  case (Cons kv kvs)
  obtain k v where kv: "kv = (k, v)" by fastforce
  have "map_of (updates (kv # kvs) al) = map_of (AList.update k v al) ++ map_of kvs"
    using Cons by (simp add: updates_def kv)
  also have "\<dots> = map_of al ++ map_of (kv # kvs)"
    using Cons.prems by (auto simp: update_conv' kv map_add_def fun_eq_iff map_of_eq_None_iff [symmetric] split: option.splits)
  finally show ?case .
qed (simp add: updates_def)


subsection \<open>Reading back\<close>

lemma key_field_inv:
  assumes "own_key k" "key_field k = Some F"
  shows "F \<in> set all_fields" "field_name F = k"
proof -
  have eq: "i < length names \<and> names ! i = k" if "name_index names k = Some i" "list_all own_key names" for names i
    using name_index_less [OF that(1)] strcasecmp_own [of "names ! i" k] assms(1) that(2) by (simp add: list_all_length)
  note own = names_own [unfolded names_all, simplified]
  from assms(2) own have "F \<in> set all_fields \<and> field_name F = k"
    by (auto simp: key_field_def names_lengths all_fields_iff split: option.splits dest!: eq)
  then show "F \<in> set all_fields" "field_name F = k" by simp_all
qed

fun restored :: "LPCmodSettings_t \<Rightarrow> cfg_field \<Rightarrow> u8 list \<Rightarrow> u8 list" where
  "restored s (FBool i) old = [bools s ! i]"
| "restored s (FNum i) old = [nums s ! i]"
| "restored s (FIP i) old = (if length (fmt_ip (ips s ! i)) < 15 then ips s ! i else old)"
| "restored s (FText i) old =
    (let t = the (text_of_field (texts s ! i)) in if length t < 20 then strcpy old t else old)"
| "restored s (FSpecial i) old = [specials s ! i]"

lemma new_content_restored:
  assumes "exportable s" "F \<in> set all_fields"
  shows "new_content F (the (field_text s F)) old = Some (restored s F old)"
proof (cases F)
  case (FIP i)
  then have "length (ips s ! i) = 4" using assms by (simp add: exportable_def list_all_length all_fields_iff)
  then show ?thesis using FIP by (simp add: ip_text)
next
  case (FSpecial i)
  obtain n where "field_text s F = Some n" by (rule exportable_text [OF assms])
  then show ?thesis using FSpecial special_roundtrip [of i "specials s ! i" n] assms(2) by (simp add: all_fields_iff)
qed (simp_all add: starts_number_fmt number_of_u8 Let_def)

lemma distinct_fields:
  assumes o: "own_entries kvs"
  shows "distinct (map (key_field \<circ> fst) (filter (\<lambda>kv. key_field (fst kv) \<noteq> None) kvs))"
proof -
  have d: "distinct (map fst kvs)" using o by (simp add: own_entries_def)
  have "x = y" if x: "x \<in> set kvs" "key_field (fst x) = Some F" and y: "y \<in> set kvs" "key_field (fst y) = Some F" for x y F
  proof -
    have "own_key (fst x)" "own_key (fst y)" using own_entriesD(1) [OF o, of "fst x" "snd x"] own_entriesD(1) [OF o, of "fst y" "snd y"] x(1) y(1) by simp_all
    then have "fst x = fst y" using key_field_inv(2) x(2) y(2) by metis
    then show ?thesis using d x(1) y(1) by (metis eq_key_imp_eq_value prod.collapse)
  qed
  then have "inj_on (key_field \<circ> fst) (set (filter (\<lambda>kv. key_field (fst kv) \<noteq> None) kvs))"
    by (auto simp: inj_on_def)
  moreover have "distinct kvs" using d by (simp add: distinct_map)
  ultimately show ?thesis by (simp add: distinct_map)
qed

lemma import_saved:
  assumes "exportable s" and o: "own_entries (updates (cfg_kvs s) al)"
  shows "\<exists>u. import_all (updates (cfg_kvs s) al) t = Some u \<and> (\<forall>F \<in> set all_fields. content u F = restored s F (content t F))"
proof -
  let ?kvs = "updates (cfg_kvs s) al"
  have d: "distinct (map fst (cfg_kvs s))" using own_kvs [OF assms(1)] by (simp add: own_entries_def)
  have m: "map_of ?kvs (field_name F) = Some (the (field_text s F))" if "F \<in> set all_fields" for F
  proof -
    have "(field_name F, the (field_text s F)) \<in> set (cfg_kvs s)" using that by (auto simp: cfg_kvs_def)
    then show ?thesis unfolding map_of_updates [OF d] using d by (simp add: map_add_def)
  qed
  have v: "F \<in> set all_fields \<and> v = the (field_text s F)" if "(k, v) \<in> set ?kvs" "key_field k = Some F" for k v F
    using key_field_inv [OF own_entriesD(1) [OF o that(1)] that(2)] m [of F] map_of_is_SomeI [OF _ that(1)] o
    by (simp add: own_entries_def)
  have n: "new_content F v (content t F) \<noteq> None" if "(k, v) \<in> set ?kvs" "key_field k = Some F" for k v F
    using v [OF that] new_content_restored [OF assms(1)] by simp
  obtain u where u: "import_all ?kvs t = Some u"
    "\<forall>k v F. (k, v) \<in> set ?kvs \<longrightarrow> key_field k = Some F \<longrightarrow> content u F = the (new_content F v (content t F))"
    using import_all_content [of ?kvs t, OF _ distinct_fields [OF o]] n by blast
  have "content u F = restored s F (content t F)" if F: "F \<in> set all_fields" for F
  proof -
    have "content u F = the (new_content F (the (field_text s F)) (content t F))"
      using u(2) map_of_SomeD [OF m [OF F]] key_field_name [OF F] by blast
    then show ?thesis using new_content_restored [OF assms(1) F] by simp
  qed
  then show ?thesis using u(1) by blast
qed

lemma restored_lists:
  assumes "\<forall>F \<in> set all_fields. content u F = restored s F (content t F)"
  shows "bools u = bools s" "nums u = nums s" "specials u = specials s"
    "i < 5 \<Longrightarrow> ips u ! i = (if length (fmt_ip (ips s ! i)) < 15 then ips s ! i else ips t ! i)"
    "i < 8 \<Longrightarrow> texts u ! i = (let x = the (text_of_field (texts s ! i)) in if length x < 20 then strcpy (texts t ! i) x else texts t ! i)"
proof -
  note c = assms [rule_format]
  have "bools u ! i = bools s ! i" if "i < 12" for i using c [of "FBool i"] that by (simp add: all_fields_iff content_simps)
  then show "bools u = bools s" by (intro nth_equalityI) simp_all
  have "nums u ! i = nums s ! i" if "i < 7" for i using c [of "FNum i"] that by (simp add: all_fields_iff content_simps)
  then show "nums u = nums s" by (intro nth_equalityI) simp_all
  have "specials u ! i = specials s ! i" if "i < 4" for i using c [of "FSpecial i"] that by (simp add: all_fields_iff content_simps)
  then show "specials u = specials s" by (intro nth_equalityI) simp_all
  show "i < 5 \<Longrightarrow> ips u ! i = (if length (fmt_ip (ips s ! i)) < 15 then ips s ! i else ips t ! i)"
    using c [of "FIP i"] by (simp add: all_fields_iff content_simps)
  show "i < 8 \<Longrightarrow> texts u ! i = (let x = the (text_of_field (texts s ! i)) in if length x < 20 then strcpy (texts t ! i) x else texts t ! i)"
    using c [of "FText i"] by (simp add: all_fields_iff content_simps)
qed

lemma restored_text:
  assumes "exportable s" "\<forall>F \<in> set all_fields. content u F = restored s F (content t F)" and i: "i < 8"
  shows "text_of_field (texts u ! i) =
    text_of_field (if length (the (text_of_field (texts s ! i))) < 20 then texts s ! i else texts t ! i)"
proof -
  have "FText i \<in> set all_fields" using i by (simp add: all_fields_iff)
  then obtain x where "field_text s (FText i) = Some x" "value_ok x" by (rule exportable_text [OF assms(1)])
  then show ?thesis using restored_lists(5) [OF assms(2) i] text_of_strcpy [OF value_ok_no_nul] by simp
qed

text \<open>C26: the settings survive the way through the configuration file. Saved over a missing file or over one that
  holds entries only, they are read back whatever the current settings are: every switch, every
  number and every bank, colour and display value as it was; an address unless its text has all of
  15 characters, a text unless it has 20 or more, which the import leaves as they are.\<close>

theorem cfg_roundtrip:
  assumes "can_write writable" and "cfg_file al fs" and "exportable s"
  shows "\<exists>fs' u. LPCMod_SaveCFGToHDD writable fs s = Some (0, fs') \<and> LPCMod_ReadCFGFromHDD True fs' t = Some (0, u) \<and>
    bools u = bools s \<and> nums u = nums s \<and> specials u = specials s \<and>
    (\<forall>i < 5. ips u ! i = (if length (fmt_ip (ips s ! i)) < 15 then ips s ! i else ips t ! i)) \<and>
    (\<forall>i < 8. text_of_field (texts u ! i) =
      text_of_field (if length (the (text_of_field (texts s ! i))) < 20 then texts s ! i else texts t ! i))"
proof -
  obtain fs' where fs': "save_loop writable (map (\<lambda>(k, v). (k, Some v)) (cfg_kvs s)) fs = Some (0, fs')"
    "cfg_file (updates (cfg_kvs s) al) fs'"
    using save_loop_entries [OF assms(1,2) own_kvs [OF assms(3)]] by blast
  have o: "own_entries (updates (cfg_kvs s) al)" using fs'(2) by (simp add: cfg_file_def)
  obtain u where u: "import_all (updates (cfg_kvs s) al) t = Some u" "\<forall>F \<in> set all_fields. content u F = restored s F (content t F)"
    using import_saved [OF assms(3) o] by blast
  have ne: "updates (cfg_kvs s) al \<noteq> []"
  proof -
    have "FBool 0 \<in> set all_fields" by (simp add: all_fields_iff)
    then have "cfg_kvs s \<noteq> []" by (auto simp: cfg_kvs_def)
    then have "map_of (updates (cfg_kvs s) al) \<noteq> Map.empty"
      using map_of_updates own_kvs [OF assms(3)] by (auto simp: own_entries_def)
    then show ?thesis by auto
  qed
  have "LPCMod_ReadCFGFromHDD True fs' t = Some (0, u)"
    using fs'(2) ne browse_entries [of "updates (cfg_kvs s) al" "Some t"] own_entriesD [OF o] u(1)
    by (simp add: LPCMod_ReadCFGFromHDD_def ini_browse_def cfg_file_def)
  moreover have "LPCMod_SaveCFGToHDD writable fs s = Some (0, fs')"
    by (simp add: LPCMod_SaveCFGToHDD_def cfg_entries_kvs [OF assms(3)] fs'(1))
  ultimately show ?thesis using restored_lists(1-4) [OF u(2)] restored_text [OF assms(3) u(2)] by blast
qed

definition sample_settings :: "u8 list \<Rightarrow> LPCmodSettings_t" where
  "sample_settings gateway = upd_os (\<lambda>x. x\<lparr>activeBank := FlashBank_512Bank, altBank := FlashBank_OSBank, Quickboot := 1,
      staticIP := [192, 168, 1, 2], staticGateway := gateway\<rparr>) (bytes_settings (replicate 3840 0))"

lemma text_of_zeros: "0 < n \<Longrightarrow> text_of_field (replicate n 0) = Some []"
  by (cases n) (simp_all add: text_of_field_def)

lemma fmt_u_length: "n < 1000 \<Longrightarrow> length (fmt_u n) = (if n < 10 then 1 else if n < 100 then 2 else 3)"
  by (subst fmt_u.simps, subst fmt_u.simps, subst fmt_u.simps) auto

lemma sample_lists:
  shows "texts (sample_settings g) = replicate 8 (replicate 24 0)"
    and "ips (sample_settings g) = [[192, 168, 1, 2], g, replicate 4 0, replicate 4 0, replicate 4 0]"
    and "specials (sample_settings g) = [FlashBank_512Bank, FlashBank_OSBank, 0, 0]"
proof -
  have z: "bytes_settings (replicate 3840 0) = \<lparr>settingsVersion = 0, OSsettings = bytes_os (replicate 268 0),
      LCDsettings = bytes_lcd (replicate 268 0), bakeeprom = replicate 256 0, scriptSize = 0,
      scriptData = replicate 3041 0, crc32Value = 0\<rparr>"
    by (simp add: bytes_settings_def chunk_def bytes_u16_def bytes_u32_def)
  note defs = list_defs ptr_defs sample_settings_def z upd_os_def bytes_os_def bytes_lcd_def chunk_def
  have r: "replicate 8 x = [x, x, x, x, x, x, x, x]" for x :: "u8 list" by (simp add: numeral_eq_Suc)
  show "texts (sample_settings g) = replicate 8 (replicate 24 0)" unfolding r by (simp add: defs)
  show "ips (sample_settings g) = [[192, 168, 1, 2], g, replicate 4 0, replicate 4 0, replicate 4 0]" by (simp add: defs)
  show "specials (sample_settings g) = [FlashBank_512Bank, FlashBank_OSBank, 0, 0]" by (simp add: defs)
qed

lemma exportable_sample: "length g = 4 \<Longrightarrow> exportable (sample_settings g)"
proof -
  have "list_all (\<lambda>i. getSpecialSettingTextString (of_nat i) ([FlashBank_512Bank, FlashBank_OSBank, 0, 0] ! i) \<noteq> None) [0..<4]"
    by (simp add: upt_rec getSpecialSettingTextString_def getSpecialSettingStringCommon_def special_settings_defs)
  then show "length g = 4 \<Longrightarrow> exportable (sample_settings g)"
    using text_of_zeros [of 24] by (simp add: exportable_def sample_lists list_all_iff value_ok_def)
qed

theorem cfg_roundtrip_witness:
  "\<exists>fs' u. LPCMod_SaveCFGToHDD (\<lambda>_. True) Map.empty (sample_settings [192, 168, 100, 254]) = Some (0, fs') \<and>
    LPCMod_ReadCFGFromHDD True fs' (sample_settings [10, 0, 0, 1]) = Some (0, u) \<and>
    bools u ! 0 = 1 \<and> ips u ! 0 = [192, 168, 1, 2] \<and> ips u ! 1 = [10, 0, 0, 1]"
proof -
  let ?s = "sample_settings [192, 168, 100, 254]"
  have e: "exportable ?s" by (rule exportable_sample) simp
  have l: "bools ?s ! 0 = 1" "ips ?s ! 0 = [192, 168, 1, 2]" "ips ?s ! 1 = [192, 168, 100, 254]" "ips (sample_settings [10, 0, 0, 1]) ! 1 = [10, 0, 0, 1]"
    by (simp_all add: bools_def ips_def ptr_defs sample_settings_def upd_os_def)
  have f: "length (fmt_ip [192, 168, 1, 2]) = 11" "length (fmt_ip [192, 168, 100, 254]) = 15" by (simp_all add: fmt_ip_def fmt_u_length)
  have "cfg_file [] Map.empty" "can_write (\<lambda>_. True)" by (simp_all add: cfg_file_def own_entries_def can_write_def)
  from cfg_roundtrip [OF this(2,1) e, of "sample_settings [10, 0, 0, 1]"] show ?thesis using l f by fastforce
qed

subsection \<open>Saving over any tidy file\<close>

lemma entries_ok_kvs:
  assumes "exportable s"
  shows "entries_ok (cfg_kvs s)"
proof -
  have own: "own_entries (cfg_kvs s)" by (rule own_kvs [OF assms])
  have "inj_on (map lower) (set (map fst (cfg_kvs s)))"
    using own_entriesD(1) [OF own] same_key_own by (auto simp: same_key_def intro!: inj_onI)
  moreover have "distinct (map fst (cfg_kvs s))" using own by (simp add: own_entries_def)
  ultimately have d: "distinct (map (map lower) (map fst (cfg_kvs s)))" by (subst distinct_map) blast
  show ?thesis using d own_entriesD [OF own] by (auto simp: entries_ok_def list_all_iff)
qed

lemma save_loop_put_all:
  "put_all (ini_put writable settingsFileLocation) kvs fs = Some fs' \<Longrightarrow>
    save_loop writable (map (\<lambda>(k, v). (k, Some v)) kvs) fs = Some (0, fs')"
proof (induction kvs arbitrary: fs)
  case (Cons kv kvs)
  then obtain f1 where "ini_put writable settingsFileLocation (fst kv) (snd kv) fs = Some f1"
    "put_all (ini_put writable settingsFileLocation) kvs f1 = Some fs'"
    by (cases kv) (auto simp: bind_eq_Some_conv)
  then show ?case using Cons.IH ini_put_puts by (cases kv) auto
qed simp

text \<open>C27: Saving into any tidy settings file that can be written, whatever sections, comments and foreign
  keys it has, succeeds; each setting then reads as its text, and a key that is no setting reads as before.\<close>

theorem save_over_any_file:
  assumes "tidy_file writable settingsFileLocation fs" and "exportable s"
  shows "\<exists>fs'. LPCMod_SaveCFGToHDD writable fs s = Some (0, fs') \<and> tidy_file writable settingsFileLocation fs' \<and>
    (\<forall>F \<in> set all_fields. ini_lookup settingsFileLocation fs' (field_name F) = field_text s F) \<and>
    (\<forall>k. key_ok k \<longrightarrow> (\<forall>F \<in> set all_fields. \<not> same_key (field_name F) k) \<longrightarrow>
      ini_lookup settingsFileLocation fs' k = ini_lookup settingsFileLocation fs k)"
proof -
  obtain fs' where fs': "put_all (ini_put writable settingsFileLocation) (cfg_kvs s) fs = Some fs'"
    "tidy_file writable settingsFileLocation fs'" "\<forall>(k, v) \<in> set (cfg_kvs s). ini_lookup settingsFileLocation fs' k = Some v"
    "\<forall>k. key_ok k \<longrightarrow> (\<forall>(k', v) \<in> set (cfg_kvs s). \<not> same_key k' k) \<longrightarrow>
      ini_lookup settingsFileLocation fs' k = ini_lookup settingsFileLocation fs k"
    using ini.put_all_get [OF assms(1) entries_ok_kvs [OF assms(2)]] by blast
  moreover have "LPCMod_SaveCFGToHDD writable fs s = Some (0, fs')"
    using save_loop_put_all [OF fs'(1)] by (simp add: LPCMod_SaveCFGToHDD_def cfg_entries_kvs [OF assms(2)])
  moreover have "ini_lookup settingsFileLocation fs' (field_name F) = field_text s F" if F: "F \<in> set all_fields" for F
    using fs'(3) F field_text_Some [OF assms(2) F] by (auto simp: cfg_kvs_def)
  ultimately show ?thesis by (auto simp: cfg_kvs_def)
qed

theorem save_over_any_file_witness:
  "\<exists>fs'. LPCMod_SaveCFGToHDD (\<lambda>_. True) [settingsFileLocation \<mapsto> render [''; mine'', ''foo=1'', ''quickboot=0'']]
      (sample_settings [10, 0, 0, 1]) = Some (0, fs') \<and>
    ini_lookup settingsFileLocation fs' ''quickboot'' = Some ''1'' \<and> ini_lookup settingsFileLocation fs' ''foo'' = Some ''1''"
proof -
  let ?fs = "[settingsFileLocation \<mapsto> render [''; mine'', ''foo=1'', ''quickboot=0'']]" and ?s = "sample_settings [10, 0, 0, 1]"
  have t: "tidy_file (\<lambda>_. True) settingsFileLocation ?fs"
    unfolding tidy_file_def using temp_location
    by (auto simp: tidy_line_def intro!: exI [of _ "[''; mine'', ''foo=1'', ''quickboot=0'']"])
  have e: "exportable ?s" by (rule exportable_sample) simp
  have q: "FBool 0 \<in> set all_fields" "field_name (FBool 0) = ''quickboot''" "field_text ?s (FBool 0) = Some ''1''"
    by (simp_all add: all_fields_iff xblastCfgStringsStruct_def bools_def ptr_defs sample_settings_def upd_os_def fmt_u.simps char_of_def bit_0)
  have k: "own_key ''foo''"
    by (simp add: own_key_def key_ok_def isalpha_def isdigit_def isupper_def islower_def)
  have n: "''foo'' \<notin> set (map field_name all_fields)"
    unfolding names_all xblastCfgStringsStruct_def by simp
  have d: "\<not> same_key (field_name F) ''foo''" if F: "F \<in> set all_fields" for F
  proof -
    have "field_name F \<in> set (map field_name all_fields)" using F by simp
    then have "own_key (field_name F)" "field_name F \<noteq> ''foo''" using names_own n by (auto simp: list_all_iff simp del: set_map)
    then show ?thesis using same_key_own [OF _ k] by blast
  qed
  have l: "ini_lookup settingsFileLocation ?fs ''foo'' = Some ''1''" by code_simp
  obtain fs' where "LPCMod_SaveCFGToHDD (\<lambda>_. True) ?fs ?s = Some (0, fs')"
    "\<forall>F \<in> set all_fields. ini_lookup settingsFileLocation fs' (field_name F) = field_text ?s F"
    "\<forall>k. key_ok k \<longrightarrow> (\<forall>F \<in> set all_fields. \<not> same_key (field_name F) k) \<longrightarrow>
      ini_lookup settingsFileLocation fs' k = ini_lookup settingsFileLocation ?fs k"
    using save_over_any_file [OF t e] by blast
  then show ?thesis using q l k d by (auto simp: own_key_def)
qed

end
