(* ===== verification/ChangeTracker.thy ===== *)
theory ChangeTracker
  imports Settings_Roundtrip
begin

text \<open>
  The list of uncommitted settings changes, \<^verbatim>\<open>src/xblast/settings/xblastSettingsChangeTracker.c\<close>.

  \<^verbatim>\<open>LPCMod_CountNumberOfChangesInSettings\<close> compares the settings in memory with those loaded from flash,
  group by group, in the order of \<^verbatim>\<open>setCFGFileTransferPtr\<close>.  The linked list of changes is a list; an entry
  says which field it is about instead of holding the two addresses of the field, and the size of the buffer
  its text is printed into.  The macro \<^verbatim>\<open>AddChange\<close> ends in \<^verbatim>\<open>break\<close>, so a group gives at most one change.
\<close>

record OSSettingsChangeEntry_t =
  label :: string
  changeString :: string
  changeStringSize :: nat
  changedSetting :: cfg_field
  settingSize :: u8

record OSSettingsChangeList =
  os_changeCount :: u8
  os_changeEntries :: "OSSettingsChangeEntry_t list"

definition settingsTrackerInit :: OSSettingsChangeList where
  "settingsTrackerInit = \<lparr>os_changeCount = 0, os_changeEntries = []\<rparr>"

definition cleanOSSettingsChangeListStruct :: "OSSettingsChangeList \<Rightarrow> OSSettingsChangeList" where
  "cleanOSSettingsChangeListStruct input = input\<lparr>os_changeCount := 0, os_changeEntries := []\<rparr>"

definition put_os_change :: "OSSettingsChangeEntry_t \<Rightarrow> OSSettingsChangeList \<Rightarrow> OSSettingsChangeList" where
  "put_os_change change list =
    (if os_changeEntries list = [] then list\<lparr>os_changeCount := 1, os_changeEntries := [change]\<rparr>
     else list\<lparr>os_changeCount := os_changeCount list + 1, os_changeEntries := os_changeEntries list @ [change]\<rparr>)"

subsection \<open>The texts of changes\<close>

definition ChangeStringLabelSeparator :: string where "ChangeStringLabelSeparator = '' : ''"
definition ChangeStringArrow :: string where "ChangeStringArrow = '' -> ''"

text \<open>\<^verbatim>\<open>sizeof\<close> of a character constant is 4.\<close>

definition SimpleChangeStringSizeCalc :: "nat \<Rightarrow> nat" where
  "SimpleChangeStringSizeCalc x = 2 * x + length ChangeStringArrow + length ChangeStringLabelSeparator + 2 + 4 * 4"

definition IPChangeStringSizeCalc :: nat where
  "IPChangeStringSizeCalc = 2 * (4 * 3 + 3 * 4) + length ChangeStringArrow + length ChangeStringLabelSeparator + 2 + 4 * 4"

definition TextChangeStringSizeCalc :: "string \<Rightarrow> string \<Rightarrow> nat" where
  "TextChangeStringSizeCalc old new =
    length old + length new + length ChangeStringArrow + length ChangeStringLabelSeparator + 2 + 4 * 4"

definition change_text :: "string \<Rightarrow> string \<Rightarrow> string" where
  "change_text old new = ChangeStringLabelSeparator @ [DQUOTE] @ old @ [DQUOTE] @ ChangeStringArrow @ [DQUOTE] @ new @ [DQUOTE]"

definition simple_change :: "string \<Rightarrow> cfg_field \<Rightarrow> u8 \<Rightarrow> u8 \<Rightarrow> OSSettingsChangeEntry_t" where
  "simple_change name F old new =
    \<lparr>label = name, changeString = change_text (fmt_u (unat old)) (fmt_u (unat new)),
     changeStringSize = SimpleChangeStringSizeCalc (length (fmt_u 255)), changedSetting = F, settingSize = 1\<rparr>"

definition ip_change :: "string \<Rightarrow> cfg_field \<Rightarrow> u8 list \<Rightarrow> u8 list \<Rightarrow> OSSettingsChangeEntry_t" where
  "ip_change name F old new =
    \<lparr>label = name, changeString = change_text (fmt_ip old) (fmt_ip new),
     changeStringSize = IPChangeStringSizeCalc, changedSetting = F, settingSize = 4\<rparr>"

definition text_change :: "string \<Rightarrow> cfg_field \<Rightarrow> string \<Rightarrow> string \<Rightarrow> OSSettingsChangeEntry_t" where
  "text_change name F old new =
    \<lparr>label = name, changeString = change_text old new, changeStringSize = TextChangeStringSizeCalc old new,
     changedSetting = F, settingSize = max (word_of_nat (length old)) (word_of_nat (length new))\<rparr>"

text \<open>A value without a name is a null pointer that \<^verbatim>\<open>strlen\<close> reads through.\<close>

definition special_change :: "string \<Rightarrow> nat \<Rightarrow> u8 \<Rightarrow> u8 \<Rightarrow> OSSettingsChangeEntry_t option" where
  "special_change name i old new = do {
     o_name \<leftarrow> getSpecialSettingDisplayString (of_nat i) old;
     n_name \<leftarrow> getSpecialSettingDisplayString (of_nat i) new;
     Some \<lparr>label = name, changeString = change_text o_name n_name, changeStringSize = TextChangeStringSizeCalc o_name n_name,
       changedSetting = FSpecial i, settingSize = 1\<rparr>
   }"

subsection \<open>Counting\<close>

text \<open>One loop: the first index at which the group differs adds its change and leaves the loop.\<close>

fun group_loop ::
  "(nat \<Rightarrow> bool option) \<Rightarrow> (nat \<Rightarrow> OSSettingsChangeEntry_t option) \<Rightarrow> bool \<Rightarrow> nat list \<Rightarrow>
    int \<times> OSSettingsChangeList \<Rightarrow> (int \<times> OSSettingsChangeList) option" where
  "group_loop differs entry generate [] (n, list) = Some (n, list)"
| "group_loop differs entry generate (i # is) (n, list) = do {
     d \<leftarrow> differs i;
     if \<not> d then group_loop differs entry generate is (n, list)
     else if generate then do { e \<leftarrow> entry i; Some (n + 1, put_os_change e list) }
     else Some (n + 1, list)
   }"

definition text_differs :: "u8 list \<Rightarrow> u8 list \<Rightarrow> bool option" where
  "text_differs old new = do {
     o_text \<leftarrow> text_of_field old;
     n_text \<leftarrow> text_of_field new;
     Some ((word_of_nat (length o_text) :: u8) \<noteq> word_of_nat (length n_text) \<or> o_text \<noteq> n_text)
   }"

definition text_entry :: "string \<Rightarrow> cfg_field \<Rightarrow> u8 list \<Rightarrow> u8 list \<Rightarrow> OSSettingsChangeEntry_t option" where
  "text_entry name F old new = do {
     o_text \<leftarrow> text_of_field old;
     n_text \<leftarrow> text_of_field new;
     Some (text_change name F o_text n_text)
   }"

definition LPCMod_CountNumberOfChangesInSettings ::
  "bool \<Rightarrow> LPCmodSettings_t \<Rightarrow> LPCmodSettings_t \<Rightarrow> OSSettingsChangeList \<Rightarrow> (u8 \<times> OSSettingsChangeList) option" where
  "LPCMod_CountNumberOfChangesInSettings generate orig settings output = do {
     let names = xblastCfgStringsStruct;
     st \<leftarrow> group_loop (\<lambda>i. Some (bools orig ! i \<noteq> bools settings ! i))
       (\<lambda>i. Some (simple_change (boolSettingsStringArray names ! i) (FBool i) (bools orig ! i) (bools settings ! i)))
       generate [0..<12] (0, output\<lparr>os_changeCount := 0\<rparr>);
     st \<leftarrow> group_loop (\<lambda>i. Some (nums orig ! i \<noteq> nums settings ! i))
       (\<lambda>i. Some (simple_change (numSettingsStringArray names ! i) (FNum i) (nums orig ! i) (nums settings ! i)))
       generate [0..<7] st;
     st \<leftarrow> group_loop (\<lambda>i. Some (take 4 (ips orig ! i) \<noteq> take 4 (ips settings ! i)))
       (\<lambda>i. Some (ip_change (IPsettingsStringArray names ! i) (FIP i) (ips orig ! i) (ips settings ! i)))
       generate [0..<5] st;
     st \<leftarrow> group_loop (\<lambda>i. text_differs (texts orig ! i) (texts settings ! i))
       (\<lambda>i. text_entry (textSettingsStringArray names ! i) (FText i) (texts orig ! i) (texts settings ! i))
       generate [0..<8] st;
     (n, list) \<leftarrow> group_loop (\<lambda>i. Some (specials orig ! i \<noteq> specials settings ! i))
       (\<lambda>i. special_change (specialSettingsStringArray names ! i) i (specials orig ! i) (specials settings ! i))
       generate [0..<4] st;
     Some (word_of_int n, list)
   }"

definition LPCMod_checkForBootScriptChanges :: "LPCmodSettings_t \<Rightarrow> LPCmodSettings_t \<Rightarrow> bool" where
  "LPCMod_checkForBootScriptChanges orig settings \<longleftrightarrow>
    (if scriptSize settings \<noteq> scriptSize orig then True
     else take ScriptSavedInFlashMaxSizeInBytes (scriptData settings) \<noteq> take ScriptSavedInFlashMaxSizeInBytes (scriptData orig))"

definition LPCMod_checkForBackupEEPROMChange :: "LPCmodSettings_t \<Rightarrow> LPCmodSettings_t \<Rightarrow> bool" where
  "LPCMod_checkForBackupEEPROMChange orig settings \<longleftrightarrow> bakeeprom settings \<noteq> bakeeprom orig"

subsection \<open>The changes that are found\<close>

primrec field_differs :: "LPCmodSettings_t \<Rightarrow> LPCmodSettings_t \<Rightarrow> cfg_field \<Rightarrow> bool" where
  "field_differs s t (FBool i) \<longleftrightarrow> bools s ! i \<noteq> bools t ! i"
| "field_differs s t (FNum i) \<longleftrightarrow> nums s ! i \<noteq> nums t ! i"
| "field_differs s t (FIP i) \<longleftrightarrow> ips s ! i \<noteq> ips t ! i"
| "field_differs s t (FText i) \<longleftrightarrow> text_of_field (texts s ! i) \<noteq> text_of_field (texts t ! i)"
| "field_differs s t (FSpecial i) \<longleftrightarrow> specials s ! i \<noteq> specials t ! i"

definition groups :: "cfg_field list list" where
  "groups = [map FBool [0..<12], map FNum [0..<7], map FIP [0..<5], map FText [0..<8], map FSpecial [0..<4]]"

definition found :: "('a \<Rightarrow> bool) \<Rightarrow> 'a list \<Rightarrow> 'a list" where
  "found P xs = (case List.find P xs of None \<Rightarrow> [] | Some x \<Rightarrow> [x])"

text \<open>The first field of each group that differs.\<close>

definition changed_fields :: "LPCmodSettings_t \<Rightarrow> LPCmodSettings_t \<Rightarrow> cfg_field list" where
  "changed_fields s t = concat (map (found (field_differs s t)) groups)"

text \<open>Every text is terminated and every special value has a name to display.\<close>

definition trackable :: "LPCmodSettings_t \<Rightarrow> bool" where
  "trackable s \<longleftrightarrow> list_all (\<lambda>a. length a = 4) (ips s) \<and> list_all (\<lambda>f. text_of_field f \<noteq> None) (texts s) \<and>
    list_all (\<lambda>i. getSpecialSettingDisplayString (of_nat i) (specials s ! i) \<noteq> None) [0..<4]"

lemma found_map: "found P (map f xs) = map f (found (P \<circ> f) xs)"
  by (induction xs) (auto simp: found_def)

lemma found_Nil_iff: "found P xs = [] \<longleftrightarrow> (\<forall>x \<in> set xs. \<not> P x)"
  by (induction xs) (auto simp: found_def)

lemma found_set: "x \<in> set (found P xs) \<Longrightarrow> x \<in> set xs \<and> P x"
  by (induction xs) (auto simp: found_def split: if_splits)

lemma length_found: "length (found P xs) \<le> 1"
  by (simp add: found_def split: option.splits)

lemma group_loop_found:
  assumes "\<And>i. i \<in> set is \<Longrightarrow> differs i = Some (P i)" and "\<And>i. i \<in> set is \<Longrightarrow> P i \<Longrightarrow> entry i = Some (E i)"
  shows "group_loop differs entry generate is (n, list) =
    Some (n + int (length (found P is)), if generate then fold put_os_change (map E (found P is)) list else list)"
  using assms by (induction "is") (auto simp: found_def)

lemma fold_put_changes:
  "fold put_os_change es list =
    (if es = [] then list
     else list\<lparr>os_changeCount := (if os_changeEntries list = [] then 0 else os_changeCount list) + word_of_nat (length es),
       os_changeEntries := os_changeEntries list @ es\<rparr>)"
  by (induction es arbitrary: list) (auto simp: put_os_change_def add.assoc)

text \<open>The entry made for a field.\<close>

primrec change_of :: "LPCmodSettings_t \<Rightarrow> LPCmodSettings_t \<Rightarrow> cfg_field \<Rightarrow> OSSettingsChangeEntry_t" where
  "change_of s t (FBool i) = simple_change (field_name (FBool i)) (FBool i) (bools s ! i) (bools t ! i)"
| "change_of s t (FNum i) = simple_change (field_name (FNum i)) (FNum i) (nums s ! i) (nums t ! i)"
| "change_of s t (FIP i) = ip_change (field_name (FIP i)) (FIP i) (ips s ! i) (ips t ! i)"
| "change_of s t (FText i) = the (text_entry (field_name (FText i)) (FText i) (texts s ! i) (texts t ! i))"
| "change_of s t (FSpecial i) = the (special_change (field_name (FSpecial i)) i (specials s ! i) (specials t ! i))"

lemma trackable_text: "trackable s \<Longrightarrow> i < 8 \<Longrightarrow> \<exists>x. text_of_field (texts s ! i) = Some x"
  by (auto simp: trackable_def list_all_length)

lemma trackable_special: "trackable s \<Longrightarrow> i < 4 \<Longrightarrow> \<exists>x. getSpecialSettingDisplayString (of_nat i) (specials s ! i) = Some x"
  by (auto simp: trackable_def list_all_iff)

lemma trackable_ip: "trackable s \<Longrightarrow> i < 5 \<Longrightarrow> length (ips s ! i) = 4"
  by (auto simp: trackable_def list_all_length)

definition add_changes ::
  "LPCmodSettings_t \<Rightarrow> LPCmodSettings_t \<Rightarrow> bool \<Rightarrow> cfg_field list \<Rightarrow> int \<times> OSSettingsChangeList \<Rightarrow> int \<times> OSSettingsChangeList" where
  "add_changes s t generate Fs st =
    (fst st + int (length Fs), if generate then fold put_os_change (map (change_of s t) Fs) (snd st) else snd st)"

lemma group_loop_fields:
  assumes "\<And>i. i < m \<Longrightarrow> differs i = Some (field_differs s t (C i))" and "\<And>i. i < m \<Longrightarrow> entry i = Some (change_of s t (C i))"
  shows "group_loop differs entry generate [0..<m] st =
    Some (add_changes s t generate (found (field_differs s t) (map C [0..<m])) st)"
  using assms group_loop_found [of "[0..<m]" differs "\<lambda>i. field_differs s t (C i)" entry "\<lambda>i. change_of s t (C i)" generate "fst st" "snd st"]
  by (simp add: found_map comp_def add_changes_def)

lemma count_changes:
  assumes s: "trackable s" and t: "trackable t"
  shows "LPCMod_CountNumberOfChangesInSettings generate s t l =
    Some (word_of_nat (length (changed_fields s t)),
      if generate then fold put_os_change (map (change_of s t) (changed_fields s t)) (l\<lparr>os_changeCount := 0\<rparr>)
      else l\<lparr>os_changeCount := 0\<rparr>)"
proof -
  let ?c = xblastCfgStringsStruct
  note fields = group_loop_fields [where s = s and t = t and generate = generate]
  have g1: "group_loop (\<lambda>i. Some (bools s ! i \<noteq> bools t ! i))
      (\<lambda>i. Some (simple_change (boolSettingsStringArray ?c ! i) (FBool i) (bools s ! i) (bools t ! i))) generate [0..<12] st =
    Some (add_changes s t generate (found (field_differs s t) (map FBool [0..<12])) st)" for st
    by (rule fields) simp_all
  have g2: "group_loop (\<lambda>i. Some (nums s ! i \<noteq> nums t ! i))
      (\<lambda>i. Some (simple_change (numSettingsStringArray ?c ! i) (FNum i) (nums s ! i) (nums t ! i))) generate [0..<7] st =
    Some (add_changes s t generate (found (field_differs s t) (map FNum [0..<7])) st)" for st
    by (rule fields) simp_all
  have g3: "group_loop (\<lambda>i. Some (take 4 (ips s ! i) \<noteq> take 4 (ips t ! i)))
      (\<lambda>i. Some (ip_change (IPsettingsStringArray ?c ! i) (FIP i) (ips s ! i) (ips t ! i))) generate [0..<5] st =
    Some (add_changes s t generate (found (field_differs s t) (map FIP [0..<5])) st)" for st
    by (rule fields) (simp_all add: trackable_ip s t)
  have g4: "group_loop (\<lambda>i. text_differs (texts s ! i) (texts t ! i))
      (\<lambda>i. text_entry (textSettingsStringArray ?c ! i) (FText i) (texts s ! i) (texts t ! i)) generate [0..<8] st =
    Some (add_changes s t generate (found (field_differs s t) (map FText [0..<8])) st)" for st
    by (rule fields; frule trackable_text [OF s]; drule trackable_text [OF t]) (auto simp: text_differs_def text_entry_def)
  have g5: "group_loop (\<lambda>i. Some (specials s ! i \<noteq> specials t ! i))
      (\<lambda>i. special_change (specialSettingsStringArray ?c ! i) i (specials s ! i) (specials t ! i)) generate [0..<4] st =
    Some (add_changes s t generate (found (field_differs s t) (map FSpecial [0..<4])) st)" for st
    by (rule fields, simp, frule trackable_special [OF s], drule trackable_special [OF t]) (auto simp: special_change_def)
  show ?thesis
    unfolding LPCMod_CountNumberOfChangesInSettings_def Let_def g1 g2 g3 g4 g5
    by (simp add: add_changes_def changed_fields_def groups_def)
qed

lemma changed_field_groups: "concat groups = all_fields"
  by (simp add: groups_def all_fields_def)

lemma changed_fields_differ: "F \<in> set (changed_fields s t) \<Longrightarrow> F \<in> set all_fields \<and> field_differs s t F"
  unfolding changed_fields_def changed_field_groups [symmetric] by (auto dest: found_set)

lemma changed_fields_Nil: "changed_fields s t = [] \<longleftrightarrow> (\<forall>F \<in> set all_fields. \<not> field_differs s t F)"
  unfolding changed_fields_def changed_field_groups [symmetric] by (auto simp: found_Nil_iff)

lemma changed_fields_le: "length (changed_fields s t) \<le> 5"
proof -
  have "length (concat (map (found P) gs)) \<le> length gs" for P :: "cfg_field \<Rightarrow> bool" and gs
    using length_found [of P] by (induction gs) (auto simp: Suc_le_eq intro: le_trans [OF add_mono])
  from this [of "field_differs s t" groups] show ?thesis by (simp add: changed_fields_def groups_def)
qed

lemma length_change_text: "length (change_text a b) = length a + length b + 11"
  by (simp add: change_text_def ChangeStringArrow_def ChangeStringLabelSeparator_def)

lemmas change_sizes = SimpleChangeStringSizeCalc_def IPChangeStringSizeCalc_def TextChangeStringSizeCalc_def
  ChangeStringArrow_def ChangeStringLabelSeparator_def length_change_text

lemma length_fmt_u8: "length (fmt_u (unat (b :: u8))) \<le> 3"
  using unat_u8_less [of b] by (intro length_fmt_u) simp

lemma length_fmt_ip_le: "length (fmt_ip a) \<le> 15"
  using length_fmt_u8 [of "a ! 0"] length_fmt_u8 [of "a ! 1"] length_fmt_u8 [of "a ! 2"] length_fmt_u8 [of "a ! 3"]
  by (simp add: fmt_ip_def)

definition entry_fits :: "cfg_field \<Rightarrow> OSSettingsChangeEntry_t \<Rightarrow> bool" where
  "entry_fits F e \<longleftrightarrow> changedSetting e = F \<and> label e = field_name F \<and> length (changeString e) < changeStringSize e"

lemma change_of_fits:
  assumes "trackable s" "trackable t" "F \<in> set all_fields"
  shows "entry_fits F (change_of s t F)"
proof (cases F rule: cfg_field.exhaust)
  case (FBool i)
  then show ?thesis using length_fmt_u8 [of "bools s ! i"] length_fmt_u8 [of "bools t ! i"]
    by (simp add: entry_fits_def simple_change_def change_sizes)
next
  case (FNum i)
  then show ?thesis using length_fmt_u8 [of "nums s ! i"] length_fmt_u8 [of "nums t ! i"]
    by (simp add: entry_fits_def simple_change_def change_sizes)
next
  case (FIP i)
  then show ?thesis using length_fmt_ip_le [of "ips s ! i"] length_fmt_ip_le [of "ips t ! i"]
    by (simp add: entry_fits_def ip_change_def change_sizes)
next
  case (FText i)
  then have "i < 8" using assms(3) by (simp add: all_fields_iff)
  then show ?thesis using trackable_text [OF assms(1)] trackable_text [OF assms(2)] FText
    by (fastforce simp: entry_fits_def text_entry_def text_change_def change_sizes)
next
  case (FSpecial i)
  then have "i < 4" using assms(3) by (simp add: all_fields_iff)
  then show ?thesis using trackable_special [OF assms(1)] trackable_special [OF assms(2)] FSpecial
    by (fastforce simp: entry_fits_def special_change_def change_sizes)
qed

text \<open>C28: For settings whose texts end and whose special values have names, the list made for an empty list has
  one entry for each of the five groups with a change, about the first field of the group that differs, its
  text with the terminator within the memory taken for it; the result and the count in the list are its
  length, the same as without generating a list, and zero exactly when no field differs.\<close>

theorem change_list_exact:
  assumes "trackable s" and "trackable t"
  shows "\<exists>n list. LPCMod_CountNumberOfChangesInSettings True s t settingsTrackerInit = Some (n, list) \<and>
    LPCMod_CountNumberOfChangesInSettings False s t l = Some (n, l\<lparr>os_changeCount := 0\<rparr>) \<and>
    os_changeCount list = n \<and> list_all2 entry_fits (changed_fields s t) (os_changeEntries list) \<and>
    unat n = length (os_changeEntries list) \<and> unat n \<le> 5 \<and> (n = 0 \<longleftrightarrow> (\<forall>F \<in> set all_fields. \<not> field_differs s t F))"
proof -
  let ?Fs = "changed_fields s t"
  have n: "unat (word_of_nat (length ?Fs) :: u8) = length ?Fs"
    using changed_fields_le [of s t] by (simp add: unsigned_of_nat take_bit_nat_eq_self)
  have z: "(word_of_nat (length ?Fs) :: u8) = 0 \<longleftrightarrow> ?Fs = []"
    using n by (metis length_0_conv unat_eq_zero)
  have "list_all2 entry_fits ?Fs (map (change_of s t) ?Fs)"
    using change_of_fits [OF assms] changed_fields_differ by (auto simp: list_all2_map2 list_all2_same)
  then show ?thesis
    unfolding count_changes [OF assms] fold_put_changes using n changed_fields_le [of s t] changed_fields_Nil [of s t] z
    by (auto simp: settingsTrackerInit_def)
qed

lemma trackable_sample: "length g = 4 \<Longrightarrow> trackable (sample_settings g)"
proof -
  have "list_all (\<lambda>i. getSpecialSettingDisplayString (of_nat i) ([FlashBank_512Bank, FlashBank_OSBank, 0, 0] ! i) \<noteq> None) [0..<4]"
    by (simp add: upt_rec getSpecialSettingDisplayString_def getSpecialSettingStringCommon_def special_settings_defs)
  then show "length g = 4 \<Longrightarrow> trackable (sample_settings g)"
    using text_of_zeros [of 24] by (simp add: trackable_def sample_lists list_all_iff)
qed

theorem change_list_exact_witness:
  "\<exists>n list. LPCMod_CountNumberOfChangesInSettings True (sample_settings [10, 0, 0, 1]) (sample_settings [10, 0, 0, 2]) settingsTrackerInit =
      Some (n, list) \<and> n \<noteq> 0 \<and> os_changeCount list = n"
proof -
  have "FIP 1 \<in> set all_fields" "field_differs (sample_settings [10, 0, 0, 1]) (sample_settings [10, 0, 0, 2]) (FIP 1)"
    by (simp_all add: all_fields_iff sample_lists)
  then show ?thesis
    using change_list_exact [OF trackable_sample trackable_sample, of "[10, 0, 0, 1]" "[10, 0, 0, 2]" settingsTrackerInit] by auto
qed

end
