(* ===== verification/Printf.thy ===== *)
theory Printf
  imports Settings_Numbers
begin

text \<open>
  Formatted printing, \<^verbatim>\<open>src/lib/misc/vsprintf.c\<close>.

  The buffer is the text written so far, without the terminator.  An argument is a 32-bit word, a pointer to
  a string (\<^verbatim>\<open>None\<close> is the null pointer) or a pointer to bytes; reading an argument that is not there, or as
  something else, is \<^verbatim>\<open>None\<close>.  Widths and precisions are integers.  The second part of a result lists the
  counts that \<^verbatim>\<open>%n\<close> stores, with their addresses.
\<close>

subsection \<open>Numbers\<close>

record printf_flags =
  ZEROPAD :: bool
  SIGN :: bool
  PLUS :: bool
  SPACE :: bool
  LEFT :: bool
  SPECIAL :: bool
  LARGE :: bool

definition no_flags :: printf_flags where
  "no_flags = \<lparr>ZEROPAD = False, SIGN = False, PLUS = False, SPACE = False, LEFT = False, SPECIAL = False, LARGE = False\<rparr>"

definition number_digits :: "bool \<Rightarrow> string" where
  "number_digits large =
    (if large then ''0123456789ABCDEFGHIJKLMNOPQRSTUVWXYZ'' else ''0123456789abcdefghijklmnopqrstuvwxyz'')"

text \<open>The digits in the order of \<^verbatim>\<open>tmp\<close>, least significant first.\<close>

fun tmp_loop :: "string \<Rightarrow> nat \<Rightarrow> nat \<Rightarrow> string" where
  "tmp_loop digits base num = (if num = 0 \<or> base < 2 then [] else digits ! (num mod base) # tmp_loop digits base (num div base))"

declare tmp_loop.simps [simp del]

text \<open>\<^verbatim>\<open>while (size-- > 0) *str++ = c;\<close>\<close>

definition pad_loop :: "char \<Rightarrow> int \<Rightarrow> string \<times> int" where
  "pad_loop c width = (replicate (nat width) c, min width 0 - 1)"

definition number :: "u32 \<Rightarrow> int \<Rightarrow> int \<Rightarrow> int \<Rightarrow> printf_flags \<Rightarrow> string option" where
  "number num base width precision type =
    (if base < 2 \<or> 36 < base then None
     else
       let digits = number_digits (LARGE type);
           zeropad = (ZEROPAD type \<and> \<not> LEFT type);
           c = (if zeropad then CHR ''0'' else CHR '' '');
           (sign, num, width) =
             (if SIGN type
              then (if sint num < 0 then (''-'', - num, width - 1)
                    else if PLUS type then (''+'', num, width - 1)
                    else if SPACE type then ('' '', num, width - 1) else ([], num, width))
              else ([], num, width));
           width = (if SPECIAL type then (if base = 16 then width - 2 else if base = 8 then width - 1 else width) else width);
           tmp = (if num = 0 then ''0'' else tmp_loop digits (nat base) (unat num));
           i = int (length tmp);
           precision = (if i > precision then i else precision);
           width = width - precision;
           (lead, width) = (if \<not> zeropad \<and> \<not> LEFT type then pad_loop CHR '' '' width else ([], width));
           prefix = (if SPECIAL type then (if base = 8 then ''0'' else if base = 16 then [CHR ''0'', digits ! 33] else []) else []);
           (fill, width) = (if \<not> LEFT type then pad_loop c width else ([], width));
           zeros = fst (pad_loop CHR ''0'' (precision - i));
           (trail, width) = pad_loop CHR '' '' width
       in Some (lead @ sign @ prefix @ fill @ zeros @ rev tmp @ trail))"

subsection \<open>Conversions\<close>

datatype printf_arg = Arg_num u32 | Arg_str "string option" | Arg_bytes "u8 list"

fun va_num :: "printf_arg list \<Rightarrow> (u32 \<times> printf_arg list) option" where
  "va_num (Arg_num n # args) = Some (n, args)"
| "va_num _ = None"

fun va_str :: "printf_arg list \<Rightarrow> (string option \<times> printf_arg list) option" where
  "va_str (Arg_str s # args) = Some (s, args)"
| "va_str _ = None"

fun va_bytes :: "printf_arg list \<Rightarrow> (u8 list \<times> printf_arg list) option" where
  "va_bytes (Arg_bytes b # args) = Some (b, args)"
| "va_bytes _ = None"

fun skip_atoi :: "int \<Rightarrow> string \<Rightarrow> int \<times> string" where
  "skip_atoi i [] = (i, [])"
| "skip_atoi i (c # s) = (if isdigit c then skip_atoi (i * 10 + int (char_code c) - 48) s else (i, c # s))"

fun flag_loop :: "printf_flags \<Rightarrow> string \<Rightarrow> printf_flags \<times> string" where
  "flag_loop flags [] = (flags, [])"
| "flag_loop flags (c # s) =
    (if c = CHR ''-'' then flag_loop (flags\<lparr>LEFT := True\<rparr>) s
     else if c = CHR ''+'' then flag_loop (flags\<lparr>PLUS := True\<rparr>) s
     else if c = CHR '' '' then flag_loop (flags\<lparr>SPACE := True\<rparr>) s
     else if c = CHR ''#'' then flag_loop (flags\<lparr>SPECIAL := True\<rparr>) s
     else if c = CHR ''0'' then flag_loop (flags\<lparr>ZEROPAD := True\<rparr>) s
     else (flags, c # s))"

definition parse_width :: "printf_flags \<Rightarrow> string \<Rightarrow> printf_arg list \<Rightarrow> (printf_flags \<times> int \<times> string \<times> printf_arg list) option" where
  "parse_width flags fmt args =
    (case fmt of
       [] \<Rightarrow> Some (flags, -1, fmt, args)
     | c # s \<Rightarrow>
         if isdigit c then (let (w, r) = skip_atoi 0 fmt in Some (flags, w, r, args))
         else if c = CHR ''*'' then do {
           (n, args) \<leftarrow> va_num args;
           Some (if sint n < 0 then (flags\<lparr>LEFT := True\<rparr>, - sint n, s, args) else (flags, sint n, s, args))
         }
         else Some (flags, -1, fmt, args))"

definition parse_precision :: "string \<Rightarrow> printf_arg list \<Rightarrow> (int \<times> string \<times> printf_arg list) option" where
  "parse_precision fmt args =
    (case fmt of
       [] \<Rightarrow> Some (-1, fmt, args)
     | c # s \<Rightarrow>
         if c \<noteq> CHR ''.'' then Some (-1, fmt, args)
         else (case s of
             [] \<Rightarrow> Some (0, s, args)
           | d # r \<Rightarrow>
               if isdigit d then (let (p, r) = skip_atoi 0 s in Some (p, r, args))
               else if d = CHR ''*'' then do { (n, args) \<leftarrow> va_num args; Some (max 0 (sint n), r, args) }
               else Some (0, s, args)))"

definition parse_qualifier :: "string \<Rightarrow> char option \<times> string" where
  "parse_qualifier fmt =
    (case fmt of
       [] \<Rightarrow> (None, fmt)
     | c # s \<Rightarrow> if c = CHR ''h'' \<or> c = CHR ''l'' \<or> c = CHR ''L'' then (Some c, s) else (None, fmt))"

definition print_char :: "printf_flags \<Rightarrow> int \<Rightarrow> u32 \<Rightarrow> string" where
  "print_char flags width n =
    (let pad = replicate (nat (width - 1)) CHR '' '' in
     if LEFT flags then char_of (unat (ucast n :: u8)) # pad else pad @ [char_of (unat (ucast n :: u8))])"

definition print_str :: "printf_flags \<Rightarrow> int \<Rightarrow> int \<Rightarrow> string option \<Rightarrow> string" where
  "print_str flags width precision s =
    (let s = (case s of None \<Rightarrow> ''<NULL>'' | Some s \<Rightarrow> s);
         t = (if precision < 0 then s else take (nat precision) s);
         pad = replicate (nat (width - int (length t))) CHR '' '' in
     if LEFT flags then t @ pad else pad @ t)"

definition int_arg :: "char option \<Rightarrow> printf_flags \<Rightarrow> u32 \<Rightarrow> u32" where
  "int_arg qualifier flags n =
    (if qualifier = Some (CHR ''h'')
     then (if SIGN flags then scast (ucast n :: u16) else ucast (ucast n :: u16))
     else n)"

definition print_int ::
  "printf_flags \<Rightarrow> int \<Rightarrow> int \<Rightarrow> char option \<Rightarrow> int \<Rightarrow> printf_arg list \<Rightarrow> (string \<times> printf_arg list) option" where
  "print_int flags width precision qualifier base args = do {
     (n, args) \<leftarrow> va_num args;
     t \<leftarrow> number (int_arg qualifier flags n) base width precision flags;
     Some (t, args)
   }"

text \<open>\<^verbatim>\<open>%@\<close> and \<^verbatim>\<open>%!\<close> print each byte with \<^verbatim>\<open>sprintf\<close>, \<^verbatim>\<open>"%d."\<close> and \<^verbatim>\<open>"%02hX:"\<close>, and step back over the last separator.\<close>

definition dotted_byte :: "u8 \<Rightarrow> string option" where
  "dotted_byte b = map_option (\<lambda>t. t @ ''.'') (number (ucast b) 10 (-1) (-1) (no_flags\<lparr>SIGN := True\<rparr>))"

definition mac_byte :: "u8 \<Rightarrow> string option" where
  "mac_byte b = map_option (\<lambda>t. t @ '':'') (number (ucast b) 16 2 (-1) (no_flags\<lparr>ZEROPAD := True, LARGE := True\<rparr>))"

definition print_dotted :: "u32 \<Rightarrow> string option" where
  "print_dotted n = map_option (butlast \<circ> concat) (those (map (\<lambda>i. dotted_byte (ucast (drop_bit (8 * i) n))) [0, 1, 2, 3]))"

definition print_mac :: "u8 list \<Rightarrow> string option" where
  "print_mac p = (if length p < 6 then None else map_option (butlast \<circ> concat) (those (map mac_byte (take 6 p))))"

definition convert ::
  "printf_flags \<Rightarrow> int \<Rightarrow> int \<Rightarrow> char option \<Rightarrow> string \<Rightarrow> printf_arg list \<Rightarrow> string \<Rightarrow>
    (string \<times> printf_arg list \<times> (u32 \<times> int) list) option" where
  "convert flags width precision qualifier fmt args str =
    (case fmt of
       [] \<Rightarrow> Some (str @ ''%'', args, [])
     | c # _ \<Rightarrow>
         let put = (\<lambda>(t, args). (str @ t, args, [])) in
         if c = CHR ''c'' then do { (n, args) \<leftarrow> va_num args; Some (put (print_char flags width n, args)) }
         else if c = CHR ''s'' then do { (s, args) \<leftarrow> va_str args; Some (put (print_str flags width precision s, args)) }
         else if c = CHR ''p'' then do {
           (n, args) \<leftarrow> va_num args;
           t \<leftarrow> (if width = -1 then number n 16 8 precision (flags\<lparr>ZEROPAD := True\<rparr>) else number n 16 width precision flags);
           Some (put (t, args))
         }
         else if c = CHR ''n'' then do { (p, args) \<leftarrow> va_num args; Some (str, args, [(p, int (length str))]) }
         else if c = CHR ''%'' then Some (put (''%'', args))
         else if c = CHR ''o'' then map_option put (print_int flags width precision qualifier 8 args)
         else if c = CHR ''X'' then map_option put (print_int (flags\<lparr>LARGE := True\<rparr>) width precision qualifier 16 args)
         else if c = CHR ''x'' then map_option put (print_int flags width precision qualifier 16 args)
         else if c = CHR ''d'' \<or> c = CHR ''i'' then map_option put (print_int (flags\<lparr>SIGN := True\<rparr>) width precision qualifier 10 args)
         else if c = CHR ''u'' then map_option put (print_int flags width precision qualifier 10 args)
         else if c = CHR ''@'' then do { (n, args) \<leftarrow> va_num args; t \<leftarrow> print_dotted n; Some (put (t, args)) }
         else if c = CHR ''!'' then do { (p, args) \<leftarrow> va_bytes args; t \<leftarrow> print_mac p; Some (put (t, args)) }
         else Some (put ([CHR ''%'', c], args)))"

text \<open>One conversion: the text behind it, the arguments left, the rest of the format and what is stored.\<close>

definition conversion ::
  "string \<Rightarrow> printf_arg list \<Rightarrow> string \<Rightarrow> (string \<times> printf_arg list \<times> (u32 \<times> int) list \<times> string) option" where
  "conversion fmt args str = do {
     let (flags, fmt) = flag_loop no_flags fmt;
     (flags, width, fmt, args) \<leftarrow> parse_width flags fmt args;
     (precision, fmt, args) \<leftarrow> parse_precision fmt args;
     let (qualifier, fmt) = parse_qualifier fmt;
     (str, args, stores) \<leftarrow> convert flags width precision qualifier fmt args str;
     Some (str, args, stores, drop 1 fmt)
   }"

lemma skip_atoi_length: "length (snd (skip_atoi i s)) \<le> length s"
  by (induction i s rule: skip_atoi.induct) auto

lemma flag_loop_length: "length (snd (flag_loop f s)) \<le> length s"
  by (induction f s rule: flag_loop.induct) (auto simp: Let_def)

lemma parse_width_length: "parse_width f s a = Some (f', w, s', a') \<Longrightarrow> length s' \<le> length s"
  using skip_atoi_length [of 0 s]
  by (auto simp: parse_width_def bind_eq_Some_conv split: list.splits if_splits prod.splits)

lemma parse_precision_length: "parse_precision s a = Some (p, s', a') \<Longrightarrow> length s' \<le> length s"
  using skip_atoi_length [of 0 "tl s"]
  by (auto simp: parse_precision_def bind_eq_Some_conv split: list.splits if_splits prod.splits)

lemma parse_qualifier_length: "length (snd (parse_qualifier s)) \<le> length s"
  by (auto simp: parse_qualifier_def split: list.splits)

lemma conversion_length:
  assumes "conversion s a t = Some (t', a', st, s')"
  shows "length s' \<le> length s"
proof -
  obtain f1 s1 where 1: "flag_loop no_flags s = (f1, s1)" by fastforce
  obtain f2 w s2 a2 p s3 a3 where 2: "parse_width f1 s1 a = Some (f2, w, s2, a2)" "parse_precision s2 a2 = Some (p, s3, a3)"
    and 3: "s' = drop 1 (snd (parse_qualifier s3))"
    using assms by (auto simp: conversion_def 1 Let_def bind_eq_Some_conv case_prod_beta)
  have "length s1 \<le> length s" using flag_loop_length [of no_flags s] by (simp add: 1)
  then show ?thesis using parse_width_length [OF 2(1)] parse_precision_length [OF 2(2)] parse_qualifier_length [of s3]
    unfolding 3 by simp
qed

function vsprintf_loop :: "string \<Rightarrow> string \<Rightarrow> printf_arg list \<Rightarrow> (string \<times> (u32 \<times> int) list) option" where
  "vsprintf_loop str [] args = Some (str, [])"
| "vsprintf_loop str (c # fmt) args =
    (if c \<noteq> CHR ''%'' then vsprintf_loop (str @ [c]) fmt args
     else (case conversion fmt args str of
             None \<Rightarrow> None
           | Some (str, args, stores, fmt) \<Rightarrow> map_option (\<lambda>(t, st). (t, stores @ st)) (vsprintf_loop str fmt args)))"
  by pat_completeness auto
termination by (relation "measure (\<lambda>(_, fmt, _). length fmt)") (auto dest: conversion_length)

definition vsprintf :: "string \<Rightarrow> printf_arg list \<Rightarrow> (string \<times> int \<times> (u32 \<times> int) list) option" where
  "vsprintf fmt args = map_option (\<lambda>(str, stores). (str, int (length str), stores)) (vsprintf_loop [] fmt args)"

definition sprintf :: "string \<Rightarrow> printf_arg list \<Rightarrow> (string \<times> int \<times> (u32 \<times> int) list) option" where
  "sprintf fmt args = vsprintf fmt args"

subsection \<open>The digits of a number\<close>

definition num_text :: "bool \<Rightarrow> nat \<Rightarrow> nat \<Rightarrow> string" where
  "num_text large base n = (if n = 0 then ''0'' else rev (tmp_loop (number_digits large) base n))"

lemma digit_table:
  "map digit_value (number_digits large) = map (\<lambda>m. Some (int m)) [0..<36]"
  by (simp add: number_digits_def upt_rec digit_value_def isdigit_def isalpha_def isupper_def islower_def)

lemma digit_nth: "m < 36 \<Longrightarrow> digit_value (number_digits large ! m) = Some (int m)"
proof -
  assume m: "m < 36"
  have "length (number_digits large) = 36" by (simp add: number_digits_def)
  then show ?thesis using m arg_cong [OF digit_table [of large], of "\<lambda>l. l ! m"] by simp
qed

lemma tmp_loop_value:
  assumes b: "2 \<le> base" "base \<le> 36"
  shows "digits_value (int base) 0 (rev (tmp_loop (number_digits large) base n)) = int n \<and>
    list_all (valid_digit (int base)) (tmp_loop (number_digits large) base n)"
proof (induction n rule: less_induct)
  case (less n)
  show ?case
  proof (cases "n = 0")
    case False
    have "n mod base < base" using b by simp
    then have d: "digit_value (number_digits large ! (n mod base)) = Some (int (n mod base))"
      using b by (intro digit_nth) linarith
    have v: "valid_digit (int base) (number_digits large ! (n mod base))" using b d by (simp add: valid_digit_def)
    have "n div base < n" using b False by (intro div_less_dividend) auto
    then show ?thesis using less [of "n div base"] False b d v
      by (subst (1 2) tmp_loop.simps) (simp add: digits_value_def zmod_int zdiv_int)
  qed (simp add: tmp_loop.simps digits_value_def)
qed

lemma num_text_value:
  assumes "2 \<le> base" "base \<le> 36"
  shows "digits_value (int base) 0 (num_text large base n) = int n" "list_all (valid_digit (int base)) (num_text large base n)"
  using tmp_loop_value [OF assms, of large n] assms
  by (cases "n = 0"; simp add: num_text_def digits_value_def valid_digit_def digit_value_def isdigit_def)+

lemma tmp_loop_fmt: "0 < n \<Longrightarrow> rev (tmp_loop (number_digits large) 10 n) = fmt_u n"
proof (induction n rule: less_induct)
  case (less n)
  have "number_digits large ! m = char_of (48 + m)" if "m < 10" for m
  proof -
    have "m \<in> {0, 1, 2, 3, 4, 5, 6, 7, 8, 9}" using that by auto
    then show ?thesis by (elim insertE emptyE) (simp_all add: number_digits_def char_of_def bit_0)
  qed
  then have d: "number_digits large ! (n mod 10) = char_of (48 + n mod 10)" by simp
  show ?case using less d
    by (subst tmp_loop.simps, subst fmt_u.simps) (auto simp: tmp_loop.simps div_greater_zero_iff)
qed

lemma num_text_fmt: "num_text large 10 n = fmt_u n"
proof (cases "n = 0")
  case True
  then show ?thesis by (simp add: num_text_def fmt_u.simps char_of_def bit_0)
qed (simp add: num_text_def tmp_loop_fmt)

subsection \<open>Layout\<close>

text \<open>A number is laid out as sign and radix prefix, digits with leading zeros up to the precision, and
  padding up to the width: blanks behind (left-justified), zeros between prefix and digits, or blanks
  in front.\<close>

definition sign_text :: "printf_flags \<Rightarrow> u32 \<Rightarrow> string" where
  "sign_text type num =
    (if \<not> SIGN type then [] else if sint num < 0 then ''-'' else if PLUS type then ''+'' else if SPACE type then '' '' else [])"

definition radix_text :: "printf_flags \<Rightarrow> int \<Rightarrow> string" where
  "radix_text type base =
    (if \<not> SPECIAL type then [] else if base = 8 then ''0'' else if base = 16 then (if LARGE type then ''0X'' else ''0x'') else [])"

definition magnitude :: "printf_flags \<Rightarrow> u32 \<Rightarrow> nat" where
  "magnitude type num = (if SIGN type then nat \<bar>sint num\<bar> else unat num)"

definition digit_text :: "printf_flags \<Rightarrow> int \<Rightarrow> int \<Rightarrow> u32 \<Rightarrow> string" where
  "digit_text type base precision num =
    (let d = num_text (LARGE type) (nat base) (magnitude type num)
     in replicate (nat (precision - int (length d))) CHR ''0'' @ d)"

definition layout :: "printf_flags \<Rightarrow> int \<Rightarrow> string \<Rightarrow> string \<Rightarrow> string" where
  "layout type width prefix digits =
    (let n = nat (width - int (length prefix + length digits))
     in if LEFT type then prefix @ digits @ replicate n CHR '' ''
        else if ZEROPAD type then prefix @ replicate n CHR ''0'' @ digits
        else replicate n CHR '' '' @ prefix @ digits)"

lemma uint_nonneg: "0 \<le> sint (x :: u32) \<Longrightarrow> uint x = sint x"
  using sint_lt [of x] uint_sint [of x] by (simp add: take_bit_int_eq_self)

lemma uint_neg: "sint (x :: u32) < 0 \<Longrightarrow> uint (- x) = - sint x"
proof -
  assume a: "sint x < 0"
  have "uint (- x) = take_bit 32 (- uint x)" by (simp add: uint_word_ariths take_bit_eq_mod)
  also have "\<dots> = take_bit 32 (- sint x)" unfolding uint_sint [of x] by (simp add: take_bit_minus)
  also have "\<dots> = - sint x" using a sint_ge [of x] by (intro take_bit_int_eq_self) simp_all
  finally show ?thesis .
qed

lemma magnitude_word: "unat (if SIGN type \<and> sint num < 0 then - num else num) = magnitude type num"
  by (cases "SIGN type"; cases "sint num < 0") (simp_all add: magnitude_def uint_nonneg uint_neg flip: nat_uint_eq)

lemma number_text:
  assumes "2 \<le> base" and "base \<le> 36"
  shows "number num base width precision type =
    Some (layout type width (sign_text type num @ radix_text type base) (digit_text type base precision num))"
proof -
  define m where "m = (if SIGN type \<and> sint num < 0 then - num else num)"
  define tmp where "tmp = (if m = 0 then ''0'' else tmp_loop (number_digits (LARGE type)) (nat base) (unat m))"
  have t: "rev tmp = num_text (LARGE type) (nat base) (magnitude type num)"
    by (auto simp: tmp_def m_def num_text_def magnitude_word [symmetric] unat_eq_zero)
  have d: "digit_text type base precision num = replicate (nat (precision - int (length tmp))) CHR ''0'' @ rev tmp"
    by (simp add: digit_text_def t [symmetric])
  define p where "p = (if int (length tmp) > precision then int (length tmp) else precision)"
  have 1: "(if SIGN type then (if sint num < 0 then (''-'', - num, width - 1) else if PLUS type then (''+'', num, width - 1)
        else if SPACE type then ('' '', num, width - 1) else ([], num, width)) else ([], num, width)) =
      (sign_text type num, m, width - int (length (sign_text type num)))"
    by (simp add: sign_text_def m_def)
  have 2: "(if SPECIAL type then (if base = 16 then x - 2 else if base = 8 then x - 1 else x) else x) = x - int (length (radix_text type base))" for x
    by (simp add: radix_text_def)
  have 3: "(if SPECIAL type then (if base = 8 then ''0'' else if base = 16 then [CHR ''0'', number_digits (LARGE type) ! 33] else []) else []) =
      radix_text type base"
    by (simp add: radix_text_def number_digits_def)
  have l: "width - int (length (sign_text type num)) - int (length (radix_text type base)) - p =
      width - int (length (sign_text type num @ radix_text type base) + length (digit_text type base precision num))"
    by (simp add: d p_def)
  have z: "fst (pad_loop CHR ''0'' (p - int (length tmp))) @ rev tmp = digit_text type base precision num"
    by (auto simp: d p_def pad_loop_def)
  have b: "(base < 2 \<or> 36 < base) = False" using assms by auto
  show ?thesis
    unfolding number_def Let_def 1 2 3 split tmp_def [symmetric] p_def [symmetric] l b if_False
    by (cases "LEFT type"; cases "ZEROPAD type") (simp_all add: pad_loop_def layout_def flip: z)
qed

text \<open>C30: For every base from 2 to 36, number, width, precision and flags, \<^verbatim>\<open>number\<close> gives the text of that
  layout: sign and radix prefix, the digits of the magnitude filled with zeros to the precision, and the
  padding of the flags; the least number, whose negation overflows, included.\<close>

theorem number_layout:
  assumes "2 \<le> base" and "base \<le> 36"
  shows "number num base width precision type =
    Some (layout type width (sign_text type num @ radix_text type base) (digit_text type base precision num))"
  by (rule number_text [OF assms])

theorem number_layout_witness:
  "number (-26) 10 8 4 (no_flags\<lparr>SIGN := True\<rparr>) = Some ''   -0026'' \<and> number 26 16 6 (-1) (no_flags\<lparr>ZEROPAD := True, SPECIAL := True\<rparr>) = Some ''0x001a''"
proof -
  let ?s = "no_flags\<lparr>SIGN := True\<rparr>" and ?x = "no_flags\<lparr>ZEROPAD := True, SPECIAL := True\<rparr>"
  have "layout ?s 8 (sign_text ?s (-26) @ radix_text ?s 10) (digit_text ?s 10 4 (-26)) = ''   -0026''"
    "layout ?x 6 (sign_text ?x 26 @ radix_text ?x 16) (digit_text ?x 16 (-1) 26) = ''0x001a''" by code_simp+
  then show ?thesis using number_layout [of 10 "-26" 8 4 ?s] number_layout [of 16 26 6 "-1" ?x] by simp
qed

subsection \<open>Printing and reading\<close>

lemma valid_digit_char: "valid_digit base c \<Longrightarrow> \<not> isspace c \<and> c \<noteq> CHR ''-'' \<and> c \<noteq> CHR ''+''"
  by (auto simp: valid_digit_def digit_value_def isdigit_def isalpha_def isupper_def islower_def isspace_def split: if_splits)

lemma strtol_sign_digits: "list_all (valid_digit base) t \<Longrightarrow> strtol_sign t = (False, t)"
  using valid_digit_char by (cases t) (auto simp: strtol_sign_def)

lemma strtol_sign_minus: "strtol_sign (CHR ''-'' # t) = (True, t)"
  by (simp add: strtol_sign_def isspace_def)

lemma num_text_ne: "num_text large base n \<noteq> []" if "2 \<le> base"
  using that by (simp add: num_text_def tmp_loop.simps)

lemma takeWhile_num_text: "2 \<le> base \<Longrightarrow> base \<le> 36 \<Longrightarrow> takeWhile (valid_digit (int base)) (num_text large base n) = num_text large base n"
  using num_text_value(2) by (simp add: takeWhile_eq_all_conv list_all_iff)

lemma strtol_base_hex: "list_all (valid_digit 16) t \<Longrightarrow> strtol_base 16 t = (16, t)"
proof -
  assume t: "list_all (valid_digit 16) t"
  have "\<not> valid_digit 16 (CHR ''x'')" "\<not> valid_digit 16 (CHR ''X'')" 
    by (simp_all add: valid_digit_def digit_value_def isdigit_def isalpha_def isupper_def islower_def)
  moreover have "2 \<le> length t \<Longrightarrow> valid_digit 16 (t ! 1)" using t by (simp add: list_all_length)
  ultimately have "2 \<le> length t \<Longrightarrow> t ! 1 \<noteq> CHR ''x'' \<and> t ! 1 \<noteq> CHR ''X''" by metis
  then show ?thesis by (auto simp: strtol_base_def)
qed

lemmas sprintf_simps = sprintf_def vsprintf_def conversion_def parse_width_def parse_precision_def parse_qualifier_def
  convert_def print_int_def int_arg_def isdigit_def

lemma layout_plain: "layout type (-1) p d = p @ d"
  by (simp add: layout_def)

lemma digit_text_plain: "digit_text type base (-1) num = num_text (LARGE type) (nat base) (magnitude type num)"
  by (simp add: digit_text_def)

lemma sprintf_int:
  "sprintf ''%d'' [Arg_num x] = (let t = (if sint x < 0 then ''-'' else []) @ fmt_u (nat \<bar>sint x\<bar>) in Some (t, int (length t), []))"
  "sprintf ''%u'' [Arg_num x] = (let t = fmt_u (unat x) in Some (t, int (length t), []))"
  "sprintf ''%x'' [Arg_num x] = (let t = num_text False 16 (unat x) in Some (t, int (length t), []))"
  "sprintf ''%#x'' [Arg_num x] = (let t = ''0x'' @ num_text False 16 (unat x) in Some (t, int (length t), []))"
  by (simp_all add: sprintf_simps number_text layout_plain digit_text_plain radix_text_def sign_text_def magnitude_def
      no_flags_def num_text_fmt Let_def)

lemma ucast_byte: "unat (ucast (b :: u8) :: u32) = unat b" "(ucast (ucast (ucast (b :: u8) :: u32) :: u16) :: u32) = ucast b"
  by (transfer, simp add: take_bit_take_bit)+

text \<open>The texts of addresses that the settings export and the change list print.\<close>

lemma sprintf_ip:
  "sprintf ''%u.%u.%u.%u'' [Arg_num (ucast (a ! 0)), Arg_num (ucast (a ! 1)), Arg_num (ucast (a ! 2)), Arg_num (ucast (a ! 3))] =
    Some (fmt_ip a, int (length (fmt_ip a)), [])"
  by (simp add: sprintf_simps number_text layout_plain digit_text_plain radix_text_def sign_text_def magnitude_def
      no_flags_def num_text_fmt fmt_ip_def ucast_byte)

lemma sprintf_bytes:
  "sprintf ''%d.'' [Arg_num (ucast b)] = map_option (\<lambda>t. (t, int (length t), [])) (dotted_byte b)"
  "sprintf ''%02hX:'' [Arg_num (ucast b)] = map_option (\<lambda>t. (t, int (length t), [])) (mac_byte b)"
  by (simp_all add: sprintf_simps number_text dotted_byte_def mac_byte_def no_flags_def ucast_byte)

text \<open>C31: What \<^verbatim>\<open>%d\<close>, \<^verbatim>\<open>%u\<close> and \<^verbatim>\<open>%x\<close> print, \<^verbatim>\<open>strtol\<close> and \<^verbatim>\<open>strtoul\<close> read back in that base, and what \<^verbatim>\<open>%#x\<close>
  prints in base 0, for every 32-bit number.\<close>

theorem printf_scan_roundtrip:
  "\<exists>d u h p n\<^sub>1 n\<^sub>2 n\<^sub>3 n\<^sub>4. sprintf ''%d'' [Arg_num x] = Some (d, n\<^sub>1, []) \<and> fst (strtol d 10) = sint x \<and>
    sprintf ''%u'' [Arg_num x] = Some (u, n\<^sub>2, []) \<and> fst (strtoul u 10) = x \<and>
    sprintf ''%x'' [Arg_num x] = Some (h, n\<^sub>3, []) \<and> fst (strtoul h 16) = x \<and>
    sprintf ''%#x'' [Arg_num x] = Some (p, n\<^sub>4, []) \<and> fst (strtoul p 0) = x"
proof -
  note dec = num_text_value [of 10 False, unfolded num_text_fmt, simplified] and hex = num_text_value [of 16 False, simplified]
  have u: "unat x < 4294967296" using unsigned_less [of x, where 'a = nat] by simp
  have t10: "takeWhile (valid_digit 10) (fmt_u n) = fmt_u n" for n
    using dec(2) by (simp add: takeWhile_eq_all_conv list_all_iff)
  have t16: "takeWhile (valid_digit 16) (num_text False 16 n) = num_text False 16 n" for n
    using hex(2) by (simp add: takeWhile_eq_all_conv list_all_iff)
  have p10: "strtol_parts (fmt_u n) 10 = (False, 10, fmt_u n)" for n
    using strtol_sign_digits [of 10 "fmt_u n"] dec(2) by (simp add: strtol_parts_def strtol_base_def)
  have pn: "strtol_parts (CHR ''-'' # fmt_u n) 10 = (True, 10, fmt_u n)" for n
    by (simp add: strtol_parts_def strtol_sign_minus strtol_base_def)
  have p16: "strtol_parts (num_text False 16 n) 16 = (False, 16, num_text False 16 n)" for n
    using strtol_sign_digits [of 16 "num_text False 16 n"] strtol_base_hex [of "num_text False 16 n"] hex(2) by (simp add: strtol_parts_def)
  have p0: "strtol_parts (''0x'' @ num_text False 16 n) 0 = (False, 16, num_text False 16 n)" for n
    by (simp add: strtol_parts_def strtol_sign_def strtol_base_def isspace_def)
  have "fst (strtol (fmt_u (nat (sint x))) 10) = sint x" if "\<not> sint x < 0"
    using strtol_clamped [OF _ p10] that sint_lt [of x] unfolding t10 by (simp add: dec)
  moreover have "fst (strtol (CHR ''-'' # fmt_u (nat (- sint x))) 10) = sint x" if "sint x < 0"
    using strtol_clamped [OF _ pn] that sint_ge [of x] unfolding t10 by (simp add: dec)
  moreover have "fst (strtoul (fmt_u (unat x)) 10) = x"
    using strtoul_clamped [OF _ p10] u unfolding t10 by (simp add: dec)
  moreover have "fst (strtoul (num_text False 16 (unat x)) 16) = x"
    using strtoul_clamped [OF _ p16] u unfolding t16 by (simp add: hex)
  moreover have "fst (strtoul (''0x'' @ num_text False 16 (unat x)) 0) = x"
    using strtoul_clamped [OF _ p0] u unfolding t16 by (simp add: hex)
  ultimately show ?thesis unfolding sprintf_int Let_def by auto
qed

end
