(* ===== verification/CallbackTimer.thy ===== *)
theory CallbackTimer
  imports TimeManagement "HOL-Library.Monad_Syntax"
begin

text \<open>
  Callback timers, \<^verbatim>\<open>src/lib/cromwell/CallbackTimer.c\<close>.

  The instances are a linked list in memory: a store from addresses to instances and the address of the
  first one.  Releasing an instance takes it out of the store, and following an address that is not in it
  is \<^verbatim>\<open>None\<close>, as is a loop that does not end.  A handler changes the rest of the machine, of type \<^verbatim>\<open>'w\<close>;
  \<^verbatim>\<open>run\<close> says how, and \<^verbatim>\<open>getMS\<close> reads the clock.  Handlers do not call this module.

  The second half relates the store to the list of timers it represents.
\<close>

subsection \<open>The module\<close>

record 'h timer =
  timer_id :: u32
  lastExec_ms :: u32
  interval_ms :: u16
  singleRun :: u8
  markForDeletion :: u8
  timer_handler :: 'h

record 'h TimerInstance_t = "'h timer" +
  nextTimer :: "nat option"

record 'h timers =
  instances :: "nat \<Rightarrow> 'h TimerInstance_t option"
  firstInstance :: "nat option"
  initDone :: u8

definition callbackTimer_init :: "'h timers \<Rightarrow> 'h timers" where
  "callbackTimer_init st = st\<lparr>firstInstance := None, initDone := 1\<rparr>"

partial_function (option) stop_loop :: "u32 \<Rightarrow> 'h timers \<Rightarrow> nat option \<Rightarrow> nat option \<Rightarrow> 'h timers option" where
  "stop_loop key st previousTimer targetTimer =
    (case targetTimer of
       None \<Rightarrow> Some st
     | Some a \<Rightarrow>
         if initDone st = 0 then Some st
         else do {
           t \<leftarrow> instances st a;
           if timer_id t = key
           then (if firstInstance st = Some a
                 then Some (st\<lparr>firstInstance := nextTimer t, instances := (instances st)(a := None)\<rparr>)
                 else do {
                   p \<leftarrow> previousTimer;
                   prev \<leftarrow> instances st p;
                   Some (st\<lparr>instances := ((instances st)(p \<mapsto> prev\<lparr>nextTimer := nextTimer t\<rparr>))(a := None)\<rparr>)
                 })
           else stop_loop key st (Some a) (nextTimer t)
         })"

definition stopCallbackTimer :: "u32 \<Rightarrow> 'h timers \<Rightarrow> 'h timers option" where
  "stopCallbackTimer key st = stop_loop key st (firstInstance st) (firstInstance st)"

partial_function (option) last_timer :: "'h timers \<Rightarrow> nat \<Rightarrow> (nat \<times> 'h TimerInstance_t) option" where
  "last_timer st a = do {
     t \<leftarrow> instances st a;
     case nextTimer t of None \<Rightarrow> Some (a, t) | Some b \<Rightarrow> last_timer st b
   }"

text \<open>\<^verbatim>\<open>newTimer\<close> is what \<^verbatim>\<open>calloc\<close> returns.\<close>

definition newCallbackTimer ::
  "nat option \<Rightarrow> u32 \<Rightarrow> 'h \<Rightarrow> int \<Rightarrow> u8 \<Rightarrow> 'h timers \<Rightarrow> (int \<times> 'h timers) option" where
  "newCallbackTimer newTimer now handler interval singleUseTimer st =
    (if initDone st = 0 then Some (-1, st)
     else case newTimer of
       None \<Rightarrow> Some (-1, st)
     | Some new \<Rightarrow>
         let instance_of = (\<lambda>timerId. \<lparr>timer_id = timerId, lastExec_ms = now, interval_ms = word_of_int interval,
               singleRun = (if singleUseTimer \<noteq> 0 then 1 else 0), markForDeletion = 0, timer_handler = handler,
               nextTimer = None\<rparr>)
         in case firstInstance st of
              None \<Rightarrow> Some (0, st\<lparr>firstInstance := Some new, instances := (instances st)(new \<mapsto> instance_of 0)\<rparr>)
            | Some a \<Rightarrow> do {
                (l, t) \<leftarrow> last_timer st a;
                Some (0, st\<lparr>instances := (instances st)(l \<mapsto> t\<lparr>nextTimer := Some new\<rparr>, new \<mapsto> instance_of (timer_id t + 1))\<rparr>)
              })"

partial_function (option) execute_loop ::
  "('h \<Rightarrow> 'w \<Rightarrow> 'w) \<Rightarrow> ('w \<Rightarrow> u32) \<Rightarrow> 'h timers \<Rightarrow> 'w \<Rightarrow> nat option \<Rightarrow> ('h timers \<times> 'w) option" where
  "execute_loop run getMS st w currentTimer =
    (case currentTimer of
       None \<Rightarrow> Some (st, w)
     | Some a \<Rightarrow>
         if initDone st = 0 then Some (st, w)
         else do {
           t \<leftarrow> instances st a;
           if ucast (interval_ms t) \<le> getElapsedTimeSince (getMS w) (lastExec_ms t)
           then (let w' = run (timer_handler t) w;
                     t' = t\<lparr>lastExec_ms := getMS w', markForDeletion := (if singleRun t \<noteq> 0 then 1 else markForDeletion t)\<rparr>
                 in execute_loop run getMS (st\<lparr>instances := (instances st)(a \<mapsto> t')\<rparr>) w' (nextTimer t))
           else execute_loop run getMS st w (nextTimer t)
         })"

partial_function (option) delete_loop :: "'h timers \<Rightarrow> nat option \<Rightarrow> nat option \<Rightarrow> 'h timers option" where
  "delete_loop st previousTimer currentTimer =
    (case currentTimer of
       None \<Rightarrow> Some st
     | Some a \<Rightarrow> do {
         t \<leftarrow> instances st a;
         if markForDeletion t \<noteq> 0
         then do { st' \<leftarrow> stopCallbackTimer (timer_id t) st; delete_loop st' previousTimer previousTimer }
         else delete_loop st currentTimer (nextTimer t)
       })"

definition callbackTimer_execute :: "('h \<Rightarrow> 'w \<Rightarrow> 'w) \<Rightarrow> ('w \<Rightarrow> u32) \<Rightarrow> 'h timers \<Rightarrow> 'w \<Rightarrow> ('h timers \<times> 'w) option" where
  "callbackTimer_execute run getMS st w = do {
     (st', w') \<leftarrow> execute_loop run getMS st w (firstInstance st);
     st'' \<leftarrow> delete_loop st' (firstInstance st) (firstInstance st');
     Some (st'', w')
   }"

subsection \<open>The timers in memory\<close>

text \<open>A segment of the list: the addresses from \<^verbatim>\<open>p\<close> up to \<^verbatim>\<open>q\<close>.\<close>

fun seg :: "(nat \<Rightarrow> 'h TimerInstance_t option) \<Rightarrow> nat option \<Rightarrow> nat list \<Rightarrow> nat option \<Rightarrow> bool" where
  "seg h p [] q \<longleftrightarrow> p = q"
| "seg h p (a # as) q \<longleftrightarrow> p = Some a \<and> (case h a of None \<Rightarrow> False | Some t \<Rightarrow> seg h (nextTimer t) as q)"

definition timers_at :: "'h timers \<Rightarrow> nat list \<Rightarrow> bool" where
  "timers_at st as \<longleftrightarrow> seg (instances st) (firstInstance st) as None \<and> distinct as \<and> dom (instances st) = set as \<and> initDone st \<noteq> 0"

definition timer_at :: "'h timers \<Rightarrow> nat \<Rightarrow> 'h timer" where
  "timer_at st a = timer.truncate (the (instances st a))"

definition view :: "'h timers \<Rightarrow> nat list \<Rightarrow> 'h timer list" where
  "view st as = map (timer_at st) as"

lemma view_simps [simp]:
  "view st [] = []" "view st (a # as) = timer_at st a # view st as" "view st (as @ bs) = view st as @ view st bs"
  by (simp_all add: view_def)

lemma seg_Cons: "seg h p (a # as) q \<longleftrightarrow> p = Some a \<and> (\<exists>t. h a = Some t \<and> seg h (nextTimer t) as q)"
  by (auto split: option.splits)

declare seg.simps(2) [simp del]

declare seg_Cons [simp]

lemma seg_append: "seg h p (xs @ ys) r \<longleftrightarrow> (\<exists>q. seg h p xs q \<and> seg h q ys r)"
  by (induction xs arbitrary: p) auto

lemma seg_frame: "(\<And>a. a \<in> set xs \<Longrightarrow> h a = h' a) \<Longrightarrow> seg h p xs q \<longleftrightarrow> seg h' p xs q"
  by (induction xs arbitrary: p) auto

lemma seg_dom: "seg h p xs q \<Longrightarrow> set xs \<subseteq> dom h"
  by (induction xs arbitrary: p) auto

text \<open>Redirecting the last address of a segment.\<close>

lemma seg_redirect:
  assumes "seg h p (xs @ [a]) q" "a \<notin> set xs" "h a = Some t"
  shows "seg (h(a \<mapsto> t\<lparr>nextTimer := r\<rparr>)) p (xs @ [a]) r"
proof -
  have f: "h b = (h(a \<mapsto> t\<lparr>nextTimer := r\<rparr>)) b" if "b \<in> set xs" for b using assms(2) that by auto
  have "seg h p xs (Some a)" using assms by (auto simp: seg_append)
  then have "seg (h(a \<mapsto> t\<lparr>nextTimer := r\<rparr>)) p xs (Some a)" by (subst (asm) seg_frame [where h' = "h(a \<mapsto> t\<lparr>nextTimer := r\<rparr>)"]) (use f in auto)
  then show ?thesis using assms(3) by (auto simp: seg_append)
qed

lemma timer_at_eq: "instances st a = instances st' a \<Longrightarrow> timer_at st a = timer_at st' a"
  by (simp add: timer_at_def)

lemma timers_at_nth:
  assumes "timers_at st (xs @ a # ys)"
  obtains t where "instances st a = Some t" "seg (instances st) (firstInstance st) xs (Some a)"
    "seg (instances st) (nextTimer t) ys None" "timer_at st a = timer.truncate t"
  using assms by (auto simp: timers_at_def timer_at_def seg_append)

subsection \<open>Adding a timer\<close>

lemma last_timer_seg:
  "seg (instances st) (Some a) (xs @ [l]) None \<Longrightarrow> last_timer st a = Some (l, the (instances st l))"
proof (induction xs arbitrary: a)
  case Nil
  then obtain t where "a = l" "instances st l = Some t" "nextTimer t = None" by auto
  then show ?case by (subst last_timer.simps) simp
next
  case (Cons x xs)
  obtain t where t: "instances st a = Some t" "x = a" "seg (instances st) (nextTimer t) (xs @ [l]) None"
    using Cons.prems by fastforce
  obtain b where b: "nextTimer t = Some b" using t(3) by (cases xs) auto
  have "last_timer st b = Some (l, the (instances st l))" using Cons.IH t(3) b by simp
  then show ?case using t(1) b by (subst last_timer.simps) simp
qed

definition next_timer_id :: "'h timer list \<Rightarrow> u32" where
  "next_timer_id ts = (if ts = [] then 0 else timer_id (last ts) + 1)"

definition fresh_timer :: "u32 \<Rightarrow> u32 \<Rightarrow> 'h \<Rightarrow> int \<Rightarrow> u8 \<Rightarrow> 'h timer" where
  "fresh_timer n now handler interval single =
    \<lparr>timer_id = n, lastExec_ms = now, interval_ms = word_of_int interval, singleRun = (if single \<noteq> 0 then 1 else 0),
     markForDeletion = 0, timer_handler = handler\<rparr>"

lemma newCallbackTimer_view:
  assumes st: "timers_at st as" and new: "instances st new = None"
  shows "\<exists>st'. newCallbackTimer (Some new) now handler interval single st = Some (0, st') \<and> timers_at st' (as @ [new]) \<and>
    view st' (as @ [new]) = view st as @ [fresh_timer (next_timer_id (view st as)) now handler interval single]"
proof (cases as rule: rev_cases)
  case Nil
  then show ?thesis using st
    by (auto simp: newCallbackTimer_def timers_at_def view_def timer_at_def timer.truncate_def fresh_timer_def next_timer_id_def)
next
  case (snoc xs l)
  let ?i = "\<lambda>t. \<lparr>timer_id = timer_id t + 1, lastExec_ms = now, interval_ms = word_of_int interval,
      singleRun = (if single \<noteq> 0 then 1 else 0), markForDeletion = 0, timer_handler = handler, nextTimer = None\<rparr>"
  have s: "seg (instances st) (firstInstance st) (xs @ [l]) None" using st snoc by (simp add: timers_at_def)
  obtain t where t: "instances st l = Some t" using s by (auto simp: seg_append)
  obtain a where a: "firstInstance st = Some a" using s by (cases xs) auto
  let ?st' = "st\<lparr>instances := (instances st)(l \<mapsto> t\<lparr>nextTimer := Some new\<rparr>, new \<mapsto> ?i t)\<rparr>"
  have n: "new \<notin> set as" using st new by (auto simp: timers_at_def)
  have "newCallbackTimer (Some new) now handler interval single st = Some (0, ?st')"
    using st last_timer_seg [of st a xs l] s a t by (simp add: newCallbackTimer_def timers_at_def)
  moreover have "timers_at ?st' (as @ [new])"
  proof -
    have "seg ((instances st)(l \<mapsto> t\<lparr>nextTimer := Some new\<rparr>)) (Some a) (xs @ [l]) (Some new)"
      using seg_redirect [of "instances st" "Some a" xs l None t] s t a st snoc by (auto simp: timers_at_def)
    then have "seg (instances ?st') (Some a) as (Some new)"
      using n snoc by (subst seg_frame [where h' = "(instances st)(l \<mapsto> t\<lparr>nextTimer := Some new\<rparr>)"]) auto
    then show ?thesis using st n a snoc by (auto simp: timers_at_def seg_append)
  qed
  moreover have "view ?st' (as @ [new]) = view st as @ [fresh_timer (next_timer_id (view st as)) now handler interval single]"
    using n snoc t st
    by (auto simp: view_def timer_at_def timer.truncate_def fresh_timer_def next_timer_id_def timers_at_def)
  ultimately show ?thesis by blast
qed

subsection \<open>Stopping a timer\<close>

text \<open>The state without the instance at \<^verbatim>\<open>a\<close>, behind those at \<^verbatim>\<open>xs\<close>.\<close>

definition unlinked :: "'h timers \<Rightarrow> nat list \<Rightarrow> nat \<Rightarrow> 'h timers" where
  "unlinked st xs a =
    (let t = the (instances st a) in
     if xs = [] then st\<lparr>firstInstance := nextTimer t, instances := (instances st)(a := None)\<rparr>
     else st\<lparr>instances := ((instances st)(last xs \<mapsto> (the (instances st (last xs)))\<lparr>nextTimer := nextTimer t\<rparr>))(a := None)\<rparr>)"

lemma stop_loop_found:
  assumes "timers_at st (us @ vs @ a # ys)" "\<And>b. b \<in> set vs \<Longrightarrow> timer_id (timer_at st b) \<noteq> key" "timer_id (timer_at st a) = key"
    and "seg (instances st) target (vs @ a # ys) None" "us \<noteq> [] \<Longrightarrow> previous = Some (last us)"
  shows "stop_loop key st previous target = Some (unlinked st (us @ vs) a)"
  using assms
proof (induction vs arbitrary: us previous target)
  case Nil
  obtain t where t: "instances st a = Some t" "target = Some a" using Nil.prems(4) by auto
  have i: "initDone st \<noteq> 0" using Nil.prems(1) by (simp add: timers_at_def)
  have k: "timer_id t = key" using Nil.prems(3) t by (simp add: timer_at_def timer.truncate_def)
  show ?case
  proof (cases us rule: rev_cases)
    case Nil
    then have "firstInstance st = Some a" using Nil.prems(1) by (simp add: timers_at_def)
    then show ?thesis using t k i Nil by (subst stop_loop.simps) (simp add: unlinked_def)
  next
    case (snoc us' p)
    then have "firstInstance st \<noteq> Some a" using Nil.prems(1) by (cases us') (auto simp: timers_at_def)
    moreover obtain tp where "instances st p = Some tp" using Nil.prems(1) snoc by (auto simp: timers_at_def seg_append)
    ultimately show ?thesis using t k i Nil.prems(5) snoc by (subst stop_loop.simps) (simp add: unlinked_def)
  qed
next
  case (Cons v vs)
  obtain t where t: "instances st v = Some t" "target = Some v" "seg (instances st) (nextTimer t) (vs @ a # ys) None"
    using Cons.prems(4) by auto
  have i: "initDone st \<noteq> 0" using Cons.prems(1) by (simp add: timers_at_def)
  have k: "timer_id t \<noteq> key" using Cons.prems(2) [of v] t by (simp add: timer_at_def timer.truncate_def)
  have "stop_loop key st (Some v) (nextTimer t) = Some (unlinked st ((us @ [v]) @ vs) a)"
    using Cons.prems t(3) by (intro Cons.IH) simp_all
  then show ?case using t k i by (subst stop_loop.simps) simp
qed

lemma stop_loop_missing:
  assumes "seg (instances st) target as None" "\<And>b. b \<in> set as \<Longrightarrow> timer_id (timer_at st b) \<noteq> key"
  shows "stop_loop key st previous target = Some st"
  using assms
proof (induction as arbitrary: previous target)
  case Nil
  then show ?case by (subst stop_loop.simps) simp
next
  case (Cons a as)
  obtain t where t: "instances st a = Some t" "target = Some a" "seg (instances st) (nextTimer t) as None"
    using Cons.prems(1) by auto
  have k: "timer_id t \<noteq> key" using Cons.prems(2) [of a] t by (simp add: timer_at_def timer.truncate_def)
  have "stop_loop key st (Some a) (nextTimer t) = Some st" using Cons.prems t(3) by (intro Cons.IH) simp_all
  then show ?case using t k by (subst stop_loop.simps) simp
qed

lemma unlinked_data:
  assumes "timers_at st (xs @ a # ys)" "b \<in> set (xs @ ys)"
  shows "timer_at (unlinked st xs a) b = timer_at st b"
proof -
  have "b \<noteq> a" "xs \<noteq> [] \<Longrightarrow> last xs \<noteq> a" using assms by (auto simp: timers_at_def)
  then show ?thesis by (auto simp: unlinked_def timer_at_def timer.truncate_def Let_def)
qed

lemma unlinked_list:
  assumes st: "timers_at st (xs @ a # ys)"
  shows "timers_at (unlinked st xs a) (xs @ ys)"
proof -
  obtain t where t: "instances st a = Some t" "seg (instances st) (firstInstance st) xs (Some a)" "seg (instances st) (nextTimer t) ys None"
    using st by (rule timers_at_nth)
  have d: "distinct (xs @ a # ys)" "dom (instances st) = insert a (set xs \<union> set ys)" "initDone st \<noteq> 0"
    using st by (auto simp: timers_at_def)
  show ?thesis
  proof (cases xs rule: rev_cases)
    case Nil
    have "seg ((instances st)(a := None)) (nextTimer t) ys None"
      using t(3) d by (subst seg_frame [where h' = "instances st"]) auto
    then show ?thesis using Nil d t(1) by (auto simp: timers_at_def unlinked_def)
  next
    case (snoc us p)
    obtain tp where p: "instances st p = Some tp" using t(2) snoc by (auto simp: seg_append)
    let ?h = "(instances st)(p \<mapsto> tp\<lparr>nextTimer := nextTimer t\<rparr>)"
    have "seg ?h (firstInstance st) xs (nextTimer t)"
      using seg_redirect [of "instances st" "firstInstance st" us p "Some a" tp] t(2) snoc d p by auto
    then have "seg (?h(a := None)) (firstInstance st) xs (nextTimer t)"
      using d by (subst seg_frame [where h' = ?h]) auto
    moreover have "seg (?h(a := None)) (nextTimer t) ys None"
      using t(3) d snoc by (subst seg_frame [where h' = "instances st"]) auto
    ultimately show ?thesis using snoc d t(1) p by (auto simp: timers_at_def unlinked_def seg_append)
  qed
qed

fun remove_timer :: "u32 \<Rightarrow> 'h timer list \<Rightarrow> 'h timer list" where
  "remove_timer key [] = []"
| "remove_timer key (t # ts) = (if timer_id t = key then ts else t # remove_timer key ts)"

lemma remove_timer_append:
  "(\<And>t. t \<in> set xs \<Longrightarrow> timer_id t \<noteq> key) \<Longrightarrow> remove_timer key (xs @ ys) = xs @ remove_timer key ys"
  by (induction xs) auto

lemma stopCallbackTimer_view:
  assumes st: "timers_at st as"
  shows "\<exists>st' as'. stopCallbackTimer key st = Some st' \<and> timers_at st' as' \<and> view st' as' = remove_timer key (view st as)"
proof (cases "\<exists>a \<in> set as. timer_id (timer_at st a) = key")
  case True
  then obtain xs a ys where as: "as = xs @ a # ys" "timer_id (timer_at st a) = key" "\<And>b. b \<in> set xs \<Longrightarrow> timer_id (timer_at st b) \<noteq> key"
    using split_list_first_prop [of as "\<lambda>a. timer_id (timer_at st a) = key"] by auto
  have s: "timers_at st (xs @ a # ys)" using st as(1) by simp
  have "stopCallbackTimer key st = Some (unlinked st xs a)"
    unfolding stopCallbackTimer_def using s as by (intro stop_loop_found [of st "[]" xs, simplified]) (auto simp: timers_at_def)
  moreover have "view (unlinked st xs a) (xs @ ys) = view st (xs @ ys)"
    unfolding view_def using unlinked_data [OF s] by (intro map_cong) auto
  moreover have "remove_timer key (view st as) = view st (xs @ ys)"
    using as by (subst as(1)) (auto simp: view_def intro!: trans [OF remove_timer_append])
  ultimately show ?thesis using unlinked_list [OF s] by metis
next
  case False
  have "stopCallbackTimer key st = Some st"
    unfolding stopCallbackTimer_def using st False by (intro stop_loop_missing [of st _ as]) (auto simp: timers_at_def)
  moreover have "remove_timer key (view st as) = view st as"
    using remove_timer_append [of "view st as" key "[]"] False by (auto simp: view_def)
  ultimately show ?thesis using st by metis
qed

subsection \<open>Running the timers\<close>

text \<open>The timers and the machine after every timer that is due has run, in their order.\<close>

fun run_timers :: "('h \<Rightarrow> 'w \<Rightarrow> 'w) \<Rightarrow> ('w \<Rightarrow> u32) \<Rightarrow> 'h timer list \<Rightarrow> 'w \<Rightarrow> 'h timer list \<times> 'w" where
  "run_timers run getMS [] w = ([], w)"
| "run_timers run getMS (t # ts) w =
    (if ucast (interval_ms t) \<le> getElapsedTimeSince (getMS w) (lastExec_ms t)
     then (let w' = run (timer_handler t) w;
               (ts', w'') = run_timers run getMS ts w'
           in (t\<lparr>lastExec_ms := getMS w', markForDeletion := (if singleRun t \<noteq> 0 then 1 else markForDeletion t)\<rparr> # ts', w''))
     else (let (ts', w') = run_timers run getMS ts w in (t # ts', w')))"

lemma timers_at_update:
  assumes "timers_at st as" "a \<in> set as" "instances st a = Some t" "nextTimer t' = nextTimer t"
  shows "timers_at (st\<lparr>instances := (instances st)(a \<mapsto> t')\<rparr>) as"
proof -
  have "seg h p as q \<Longrightarrow> h a = Some t \<Longrightarrow> seg (h(a \<mapsto> t')) p as q" for h p q
    using assms(4) by (induction as arbitrary: p) fastforce+
  then show ?thesis using assms by (auto simp: timers_at_def)
qed

lemma execute_loop_view:
  assumes "timers_at st (us @ vs)" "seg (instances st) target vs None"
  shows "\<exists>st'. execute_loop run getMS st w target = Some (st', snd (run_timers run getMS (view st vs) w)) \<and>
    timers_at st' (us @ vs) \<and> view st' (us @ vs) = view st us @ fst (run_timers run getMS (view st vs) w)"
  using assms
proof (induction vs arbitrary: us target st w)
  case Nil
  then show ?case by (subst execute_loop.simps) (simp add: view_def)
next
  case (Cons a vs)
  obtain t where t: "instances st a = Some t" "target = Some a" "seg (instances st) (nextTimer t) vs None"
    using Cons.prems(2) by auto
  have i: "initDone st \<noteq> 0" and d: "distinct (us @ a # vs)" using Cons.prems(1) by (simp_all add: timers_at_def)
  have v: "timer_at st a = timer.truncate t" using t(1) by (simp add: timer_at_def)
  show ?case
  proof (cases "ucast (interval_ms t) \<le> getElapsedTimeSince (getMS w) (lastExec_ms t)")
    case False
    obtain st' where "execute_loop run getMS st w (nextTimer t) = Some (st', snd (run_timers run getMS (view st vs) w))"
      "timers_at st' ((us @ [a]) @ vs)" "view st' ((us @ [a]) @ vs) = view st (us @ [a]) @ fst (run_timers run getMS (view st vs) w)"
      using Cons.IH [of st "us @ [a]" "nextTimer t" w] Cons.prems(1) t(3) by auto
    then show ?thesis using t i False v
      by (subst execute_loop.simps) (auto simp: view_def timer.truncate_def case_prod_beta Let_def)
  next
    case True
    define w' t' where "w' = run (timer_handler t) w"
      and "t' = t\<lparr>lastExec_ms := getMS w', markForDeletion := (if singleRun t \<noteq> 0 then 1 else markForDeletion t)\<rparr>"
    define st1 where "st1 = st\<lparr>instances := (instances st)(a \<mapsto> t')\<rparr>"
    have 1: "timers_at st1 ((us @ [a]) @ vs)"
      unfolding st1_def using Cons.prems(1) t(1) by (intro timers_at_update) (auto simp: t'_def)
    have "seg (instances st1) (nextTimer t) vs None"
      using t(3) d by (subst seg_frame [where h' = "instances st"]) (auto simp: st1_def)
    then obtain st' where r: "execute_loop run getMS st1 w' (nextTimer t) = Some (st', snd (run_timers run getMS (view st1 vs) w'))"
      "timers_at st' ((us @ [a]) @ vs)" "view st' ((us @ [a]) @ vs) = view st1 (us @ [a]) @ fst (run_timers run getMS (view st1 vs) w')"
      using Cons.IH [OF 1] by blast
    have s: "view st1 vs = view st vs" "view st1 us = view st us"
      using d by (auto simp: view_def st1_def timer_at_def)
    have "execute_loop run getMS st w target = execute_loop run getMS st1 w' (nextTimer t)"
      using t i True by (subst execute_loop.simps) (simp add: w'_def t'_def st1_def Let_def)
    moreover have "run_timers run getMS (view st (a # vs)) w =
        (timer_at st1 a # fst (run_timers run getMS (view st vs) w'), snd (run_timers run getMS (view st vs) w'))"
      using True v by (simp add: view_def timer_at_def st1_def timer.truncate_def t'_def w'_def case_prod_beta Let_def)
    ultimately show ?thesis using r s by simp
  qed
qed

subsection \<open>Deleting\<close>

text \<open>Behind a timer that stays, every marked timer is deleted.\<close>

lemma delete_loop_view:
  assumes "timers_at st (us @ vs)" "us \<noteq> []" "seg (instances st) target vs None"
    and "markForDeletion (timer_at st (last us)) = 0" "distinct (map timer_id (view st (us @ vs)))"
  shows "\<exists>st' vs'. delete_loop st (Some (last us)) target = Some st' \<and> timers_at st' (us @ vs') \<and>
    view st' us = view st us \<and> view st' vs' = filter (\<lambda>t. markForDeletion t = 0) (view st vs)"
  using assms
proof (induction vs arbitrary: us target st)
  case Nil
  then show ?case by (subst delete_loop.simps) (auto simp: view_def intro!: exI [of _ "[]"])
next
  case (Cons a vs)
  obtain t where t: "instances st a = Some t" "target = Some a" "seg (instances st) (nextTimer t) vs None"
    using Cons.prems(3) by auto
  have v: "timer_at st a = timer.truncate t" using t(1) by (simp add: timer_at_def)
  show ?case
  proof (cases "markForDeletion t = 0")
    case True
    have "\<exists>st' vs'. delete_loop st (Some (last (us @ [a]))) (nextTimer t) = Some st' \<and> timers_at st' ((us @ [a]) @ vs') \<and>
        view st' (us @ [a]) = view st (us @ [a]) \<and> view st' vs' = filter (\<lambda>t. markForDeletion t = 0) (view st vs)"
      using Cons.prems t(3) True v by (intro Cons.IH) (auto simp: timer.truncate_def)
    then obtain st' vs' where r: "delete_loop st (Some a) (nextTimer t) = Some st'" "timers_at st' (us @ a # vs')"
      "view st' (us @ [a]) = view st (us @ [a])" "view st' vs' = filter (\<lambda>t. markForDeletion t = 0) (view st vs)" by auto
    have "delete_loop st (Some (last us)) target = Some st'" using r(1) t True by (subst delete_loop.simps) simp
    then show ?thesis using r True v by (intro exI [of _ st'] exI [of _ "a # vs'"]) (auto simp: view_def timer.truncate_def)
  next
    case False
    let ?st = "unlinked st us a"
    have "timer_id (timer_at st b) \<noteq> timer_id t" if "b \<in> set us" for b
      using Cons.prems(5) v that by (force simp: view_def timer.truncate_def)
    then have stop: "stopCallbackTimer (timer_id t) st = Some ?st"
      unfolding stopCallbackTimer_def using Cons.prems(1) v
      by (intro stop_loop_found [of st "[]" us, simplified]) (auto simp: timers_at_def timer.truncate_def)
    have u: "timers_at ?st (us @ vs)" by (rule unlinked_list [OF Cons.prems(1)])
    obtain us' l where us: "us = us' @ [l]" using Cons.prems(2) by (cases us rule: rev_cases) auto
    obtain tl where l: "instances ?st l = Some tl" "seg (instances ?st) (nextTimer tl) vs None"
      using u us by (auto simp: timers_at_def seg_append)
    have e: "view ?st us = view st us" "view ?st vs = view st vs"
      unfolding view_def using unlinked_data [OF Cons.prems(1)] by (auto intro!: map_cong)
    have m: "markForDeletion (timer_at ?st (last us)) = 0"
      using unlinked_data [OF Cons.prems(1), of "last us"] Cons.prems(2,4) by simp
    have "distinct (map timer_id (view ?st (us @ vs)))" using Cons.prems(5) e by simp
    then obtain st' vs' where r: "delete_loop ?st (Some (last us)) (nextTimer tl) = Some st'" "timers_at st' (us @ vs')"
      "view st' us = view st us" "view st' vs' = filter (\<lambda>t. markForDeletion t = 0) (view st vs)"
      using Cons.IH [OF u Cons.prems(2) l(2) m] unfolding e by blast
    have "delete_loop ?st (Some (last us)) (Some (last us)) = Some st'"
      using r(1) l(1) us m by (subst delete_loop.simps) (simp add: timer_at_def timer.truncate_def)
    then have "delete_loop st (Some (last us)) target = Some st'"
      using stop t False by (subst delete_loop.simps) simp
    then show ?thesis using r False v by (intro exI [of _ st'] exI [of _ vs']) (auto simp: timer.truncate_def)
  qed
qed

text \<open>The head of the list is where the deletion starts, and where it reads a released instance.\<close>

lemma delete_loop_head:
  assumes st: "timers_at st (a # vs)" and "markForDeletion (timer_at st a) \<noteq> 0"
  shows "delete_loop st (Some a) (Some a) = None"
proof -
  obtain t where t: "instances st a = Some t" "firstInstance st = Some a" using st by (auto simp: timers_at_def)
  have "stopCallbackTimer (timer_id t) st = Some (unlinked st [] a)"
    unfolding stopCallbackTimer_def using st t
    by (intro stop_loop_found [of st "[]" "[]", simplified]) (auto simp: timers_at_def timer_at_def timer.truncate_def)
  moreover have "delete_loop (unlinked st [] a) (Some a) (Some a) = None"
    using t by (subst delete_loop.simps) (simp add: unlinked_def)
  ultimately show ?thesis using t assms(2) by (subst delete_loop.simps) (simp add: timer_at_def timer.truncate_def)
qed

lemma run_timers_same:
  "map timer_id (fst (run_timers run getMS ts w)) = map timer_id ts" "length (fst (run_timers run getMS ts w)) = length ts"
  by (induction ts arbitrary: w) (auto simp: Let_def case_prod_beta)

lemma callbackTimer_execute_view:
  assumes st: "timers_at st as" and d: "distinct (map timer_id (view st as))"
    and rt: "run_timers run getMS (view st as) w = (ts, w')"
  shows "if ts \<noteq> [] \<and> markForDeletion (hd ts) \<noteq> 0 then callbackTimer_execute run getMS st w = None
    else \<exists>st' as'. callbackTimer_execute run getMS st w = Some (st', w') \<and> timers_at st' as' \<and>
      view st' as' = filter (\<lambda>t. markForDeletion t = 0) ts"
proof -
  obtain st1 where 1: "execute_loop run getMS st w (firstInstance st) = Some (st1, w')" "timers_at st1 as" "view st1 as = ts"
    using execute_loop_view [of st "[]" as "firstInstance st" run getMS w] st rt by (auto simp: timers_at_def)
  show ?thesis
  proof (cases as)
    case Nil
    then have "firstInstance st = None" "firstInstance st1 = None" "ts = []" using st 1 by (auto simp: timers_at_def)
    then show ?thesis using 1 Nil by (auto simp: callbackTimer_execute_def delete_loop.simps intro!: exI [of _ "[]"])
  next
    case (Cons a vs)
    have f: "firstInstance st = Some a" "firstInstance st1 = Some a" using st 1(2) Cons by (simp_all add: timers_at_def)
    have h: "ts = timer_at st1 a # view st1 vs" using 1(3) Cons by simp
    show ?thesis
    proof (cases "markForDeletion (timer_at st1 a) = 0")
      case False
      then show ?thesis using delete_loop_head [of st1 a vs] 1(1,2) Cons f h by (simp add: callbackTimer_execute_def)
    next
      case True
      obtain t where t: "instances st1 a = Some t" "seg (instances st1) (nextTimer t) vs None"
        using 1(2) Cons by (auto simp: timers_at_def)
      have "distinct (map timer_id (view st1 ([a] @ vs)))" using d 1(3) Cons run_timers_same(1) [of run getMS "view st as" w] rt by simp
      then obtain st' vs' where r: "delete_loop st1 (Some a) (nextTimer t) = Some st'" "timers_at st' ([a] @ vs')"
        "view st' [a] = view st1 [a]" "view st' vs' = filter (\<lambda>t. markForDeletion t = 0) (view st1 vs)"
        using delete_loop_view [of st1 "[a]" vs "nextTimer t"] 1(2) Cons t True by auto
      have "delete_loop st1 (Some a) (Some a) = Some st'"
        using r(1) t(1) True by (subst delete_loop.simps) (simp add: timer_at_def timer.truncate_def)
      then show ?thesis using 1(1) r f h True by (auto simp: callbackTimer_execute_def intro!: exI [of _ "a # vs'"])
    qed
  qed
qed

text \<open>C29: Where the memory holds a list of timers with distinct numbers, a new timer is put at its end, stopping
  a number takes the first timer with it out, and one round runs every timer that is due, in order, notes
  the time and deletes the single-use timers that ran; only when the first timer of the list is one of
  those does the round follow a released instance.\<close>

theorem timers_refine_list:
  assumes "timers_at st as" and "distinct (map timer_id (view st as))" and "instances st new = None"
    and "run_timers run getMS (view st as) w = (ts, w')"
  shows "(\<exists>st'. newCallbackTimer (Some new) now handler interval single st = Some (0, st') \<and> timers_at st' (as @ [new]) \<and>
      view st' (as @ [new]) = view st as @ [fresh_timer (next_timer_id (view st as)) now handler interval single]) \<and>
    (\<exists>st' as'. stopCallbackTimer key st = Some st' \<and> timers_at st' as' \<and> view st' as' = remove_timer key (view st as)) \<and>
    (if ts \<noteq> [] \<and> markForDeletion (hd ts) \<noteq> 0 then callbackTimer_execute run getMS st w = None
     else \<exists>st' as'. callbackTimer_execute run getMS st w = Some (st', w') \<and> timers_at st' as' \<and>
       view st' as' = filter (\<lambda>t. markForDeletion t = 0) ts)"
  using newCallbackTimer_view [OF assms(1,3)] stopCallbackTimer_view [OF assms(1)]
    callbackTimer_execute_view [OF assms(1,2,4)] by blast

text \<open>Two timers, the second of them for one run.\<close>

definition sample_timers :: "nat timers" where
  "sample_timers =
    \<lparr>instances = [1 \<mapsto> \<lparr>timer_id = 0, lastExec_ms = 0, interval_ms = 500, singleRun = 0, markForDeletion = 0, timer_handler = 7, nextTimer = Some 2\<rparr>,
       2 \<mapsto> \<lparr>timer_id = 1, lastExec_ms = 100, interval_ms = 100, singleRun = 1, markForDeletion = 0, timer_handler = 8, nextTimer = None\<rparr>],
     firstInstance = Some 1, initDone = 1\<rparr>"

theorem timers_refine_list_witness:
  "\<exists>st' as'. callbackTimer_execute (\<lambda>h w. (h # fst w, snd w)) snd sample_timers ([], 200) = Some (st', ([8], 200)) \<and>
    timers_at st' as' \<and> map timer_id (view st' as') = [0]"
proof -
  have s: "timers_at sample_timers [1, 2]" "instances sample_timers 3 = None" by (auto simp: sample_timers_def timers_at_def)
  have v: "view sample_timers [1, 2] = [\<lparr>timer_id = 0, lastExec_ms = 0, interval_ms = 500, singleRun = 0, markForDeletion = 0, timer_handler = 7\<rparr>,
      \<lparr>timer_id = 1, lastExec_ms = 100, interval_ms = 100, singleRun = 1, markForDeletion = 0, timer_handler = 8\<rparr>]"
    by (simp add: sample_timers_def timer_at_def timer.truncate_def)
  have d: "distinct (map timer_id (view sample_timers [1, 2]))" unfolding v by simp
  have r: "run_timers (\<lambda>h w. (h # fst w, snd w)) snd (view sample_timers [1, 2]) ([], 200) =
    ([\<lparr>timer_id = 0, lastExec_ms = 0, interval_ms = 500, singleRun = 0, markForDeletion = 0, timer_handler = 7\<rparr>,
      \<lparr>timer_id = 1, lastExec_ms = 200, interval_ms = 100, singleRun = 1, markForDeletion = 1, timer_handler = 8\<rparr>], ([8], 200))"
    unfolding v by (simp add: getElapsedTimeSince_def)
  show ?thesis using conjunct2 [OF conjunct2 [OF timers_refine_list [OF s(1) d s(2) r]]] by fastforce
qed

end
