(* ===== verification/CLibrary.thy ===== *)
theory CLibrary
  imports CString "HOL-Library.Monad_Syntax" "HOL-Library.Sublist"
begin

text \<open>
  The rest of the C library: \<^verbatim>\<open>src/lib/cromwell/string.c\<close>, \<^verbatim>\<open>strnstr.c\<close>, \<^verbatim>\<open>strrchr.c\<close> and \<^verbatim>\<open>memrchr.c\<close>.

  A string is a list of characters without its terminator; a pointer into a string is the rest of the string
  from there, \<^verbatim>\<open>None\<close> the null pointer.  \<^verbatim>\<open>memmove\<close> works on a memory of bytes, since what it does depends on how
  its areas overlap; \<^verbatim>\<open>memcmp\<close> on the bytes of its two areas.  The inline assembly of \<^verbatim>\<open>strncmp\<close> and \<^verbatim>\<open>strncpy\<close>
  counts down a signed register.
\<close>

subsection \<open>Memory\<close>

fun memmove_up :: "(nat \<Rightarrow> u8) \<Rightarrow> nat \<Rightarrow> nat \<Rightarrow> nat \<Rightarrow> nat \<Rightarrow> u8" where
  "memmove_up mem tmp s 0 = mem"
| "memmove_up mem tmp s (Suc count) = memmove_up (mem(tmp := mem s)) (Suc tmp) (Suc s) count"

fun memmove_down :: "(nat \<Rightarrow> u8) \<Rightarrow> nat \<Rightarrow> nat \<Rightarrow> nat \<Rightarrow> nat \<Rightarrow> u8" where
  "memmove_down mem tmp s 0 = mem"
| "memmove_down mem tmp s (Suc count) = memmove_down (mem(tmp - 1 := mem (s - 1))) (tmp - 1) (s - 1) count"

definition memmove :: "(nat \<Rightarrow> u8) \<Rightarrow> nat \<Rightarrow> nat \<Rightarrow> nat \<Rightarrow> nat \<Rightarrow> u8" where
  "memmove mem dest src count =
    (if dest \<le> src then memmove_up mem dest src count else memmove_down mem (dest + count) (src + count) count)"

text \<open>\<^verbatim>\<open>None\<close>: read behind one of the areas.\<close>

fun memcmp :: "u8 list \<Rightarrow> u8 list \<Rightarrow> nat \<Rightarrow> int option" where
  "memcmp cs ct 0 = Some 0"
| "memcmp (a # cs) (b # ct) (Suc count) = (if uint a - uint b \<noteq> 0 then Some (uint a - uint b) else memcmp cs ct count)"
| "memcmp _ _ _ = None"

fun memrchr :: "char list \<Rightarrow> char \<Rightarrow> nat \<Rightarrow> nat option" where
  "memrchr s c 0 = None"
| "memrchr s c (Suc n) = (if s ! n = c then Some n else memrchr s c n)"

subsection \<open>Comparing\<close>

fun strcmp :: "string \<Rightarrow> string \<Rightarrow> int" where
  "strcmp [] [] = 0"
| "strcmp [] (d # t) = - of_char d"
| "strcmp (c # s) [] = of_char c"
| "strcmp (c # s) (d # t) = (if c = d then strcmp s t else of_char c - of_char d)"

fun strncmp :: "string \<Rightarrow> string \<Rightarrow> u32 \<Rightarrow> int" where
  "strncmp cs ct count =
    (if sint (count - 1) < 0 then 0
     else case (cs, ct) of
         ([], []) \<Rightarrow> 0
       | ([], d # t) \<Rightarrow> -1
       | (c # s, []) \<Rightarrow> 1
       | (c # s, d # t) \<Rightarrow>
           if c = d then strncmp s t (count - 1) else if (of_char c :: int) < of_char d then -1 else 1)"

declare strncmp.simps [simp del]

subsection \<open>Searching\<close>

definition string_bytes :: "string \<Rightarrow> u8 list" where
  "string_bytes s = map of_char s @ [0]"

fun strstr_loop :: "nat \<Rightarrow> string \<Rightarrow> string \<Rightarrow> string option" where
  "strstr_loop l1 s1 s2 =
    (if l1 < length s2 then None
     else if memcmp (string_bytes s1) (string_bytes s2) (length s2) = Some 0 then Some s1
     else case s1 of [] \<Rightarrow> None | _ # r \<Rightarrow> strstr_loop (l1 - 1) r s2)"

declare strstr_loop.simps [simp del]

definition strstr :: "string \<Rightarrow> string \<Rightarrow> string option" where
  "strstr s1 s2 = (if length s2 = 0 then Some s1 else strstr_loop (length s1) s1 s2)"

fun strpbrk :: "string \<Rightarrow> string \<Rightarrow> string option" where
  "strpbrk [] ct = None"
| "strpbrk (c # cs) ct = (if c \<in> set ct then Some (c # cs) else strpbrk cs ct)"

text \<open>The token, cut off at the separator, and the new value of \<^verbatim>\<open>*s\<close>.\<close>

definition strsep :: "string option \<Rightarrow> string \<Rightarrow> string option \<times> string option" where
  "strsep s ct =
    (case s of
       None \<Rightarrow> (None, None)
     | Some sbegin \<Rightarrow>
         (case strpbrk sbegin ct of
            None \<Rightarrow> (Some sbegin, None)
          | Some end \<Rightarrow> (Some (take (length sbegin - length end) sbegin), Some (tl end))))"

fun strchr :: "string \<Rightarrow> char \<Rightarrow> string option" where
  "strchr [] c = (if c = CHR 0x00 then Some [] else None)"
| "strchr (d # s) c = (if d = c then Some (d # s) else strchr s c)"

definition strrchr :: "string \<Rightarrow> char \<Rightarrow> nat option" where
  "strrchr s c = memrchr (s @ [CHR 0x00]) c (length s + 1)"

text \<open>\<^verbatim>\<open>strnstr\<close>: the inner loop looks for the first character of \<^verbatim>\<open>find\<close> within \<^verbatim>\<open>slen\<close> characters.\<close>

fun strnstr_loop :: "char \<Rightarrow> string \<Rightarrow> string \<Rightarrow> nat \<Rightarrow> string option" where
  "strnstr_loop c needle [] slen = None"
| "strnstr_loop c needle (sc # s) slen =
    (if slen < 1 then None
     else if sc \<noteq> c then strnstr_loop c needle s (slen - 1)
     else if length needle > slen - 1 then None
     else if strncmp s needle (word_of_nat (length needle)) \<noteq> 0 then strnstr_loop c needle s (slen - 1)
     else Some (sc # s))"

definition strnstr :: "string \<Rightarrow> string \<Rightarrow> nat \<Rightarrow> string option" where
  "strnstr s needle slen = (case needle of [] \<Rightarrow> Some s | c # needle' \<Rightarrow> strnstr_loop c needle' s slen)"

subsection \<open>Changing\<close>

fun atoi_digits :: "int \<Rightarrow> string \<Rightarrow> int" where
  "atoi_digits res [] = res"
| "atoi_digits res (c # s) = (if isdigit c then atoi_digits (res * 10 + of_char c - 48) s else res)"

definition atoi :: "string \<Rightarrow> int" where
  "atoi str = atoi_digits 0 str"

text \<open>The pointer stays where it is after a replacement; a replacement by the terminator ends the string.\<close>

partial_function (option) chrreplace :: "string \<Rightarrow> char \<Rightarrow> char \<Rightarrow> string option" where
  "chrreplace ptr search ch =
    (case ptr of
       [] \<Rightarrow> Some []
     | c # s \<Rightarrow>
         if c = search then (if ch = CHR 0x00 then Some [] else chrreplace (ch # s) search ch)
         else do { r \<leftarrow> chrreplace s search ch; Some (c # r) })"

fun strncpy_loop :: "u32 \<Rightarrow> string \<Rightarrow> u8 list \<Rightarrow> u8 list option" where
  "strncpy_loop count src dest =
    (if sint (count - 1) < 0 then Some dest
     else case (src, dest) of
         (_, []) \<Rightarrow> None
       | ([], _ # d) \<Rightarrow> if unat (count - 1) \<le> length d then Some (0 # replicate (unat (count - 1)) 0 @ drop (unat (count - 1)) d) else None
       | (c # s, _ # d) \<Rightarrow> map_option ((#) (of_char c)) (strncpy_loop (count - 1) s d))"

declare strncpy_loop.simps [simp del]

definition strncpy :: "u8 list \<Rightarrow> string \<Rightarrow> u32 \<Rightarrow> u8 list option" where
  "strncpy dest src count = strncpy_loop count src dest"

subsection \<open>What they compute\<close>

lemma memmove_up_eq:
  "tmp \<le> s \<Longrightarrow> memmove_up mem tmp s n a = (if tmp \<le> a \<and> a < tmp + n then mem (s + (a - tmp)) else mem a)"
proof (induction n arbitrary: mem tmp s)
  case (Suc n)
  have r: "memmove_up mem tmp s (Suc n) a =
      (if Suc tmp \<le> a \<and> a < Suc tmp + n then (mem(tmp := mem s)) (Suc s + (a - Suc tmp)) else (mem(tmp := mem s)) a)"
    using Suc by simp
  consider "a < tmp" | "a = tmp" | k where "a = Suc (tmp + k)"
    by (meson less_imp_Suc_add linorder_cases)
  then show ?case unfolding r by cases (use Suc.prems in auto)
qed auto

lemma memmove_down_eq:
  "src \<le> dest \<Longrightarrow> memmove_down mem (dest + n) (src + n) n a = (if dest \<le> a \<and> a < dest + n then mem (src + (a - dest)) else mem a)"
proof (induction n arbitrary: mem)
  case (Suc n)
  have r: "memmove_down mem (dest + Suc n) (src + Suc n) (Suc n) a =
      (if dest \<le> a \<and> a < dest + n then (mem(dest + n := mem (src + n))) (src + (a - dest)) else (mem(dest + n := mem (src + n))) a)"
    using Suc by simp
  have "src + (a - dest) \<noteq> dest + n" if "dest \<le> a" "a < dest + n" using that Suc.prems by linarith
  then show ?case unfolding r using Suc.prems by (auto simp: less_Suc_eq)
qed auto

text \<open>C40: \<^verbatim>\<open>memmove\<close> gives every byte of the destination the byte the source had before the call, however the two
  areas overlap, and changes no other byte.\<close>

theorem memmove_exact:
  "memmove mem dest src count a = (if dest \<le> a \<and> a < dest + count then mem (src + (a - dest)) else mem a)"
proof (cases "dest \<le> src")
  case True
  then show ?thesis by (simp add: memmove_def memmove_up_eq)
next
  case False
  then show ?thesis by (simp add: memmove_def memmove_down_eq)
qed

lemma memcmp_bytes:
  "count \<le> length cs \<Longrightarrow> count \<le> length ct \<Longrightarrow> memcmp cs ct count = Some 0 \<longleftrightarrow> take count cs = take count ct"
  by (induction cs ct count rule: memcmp.induct) (auto simp: word_uint_eq_iff)

lemma of_char_zero: "(of_char c :: int) = 0 \<longleftrightarrow> c = NUL"
  by (cases c) (simp add: of_char_def)

lemma strcmp_eq_0: "no_nul s \<Longrightarrow> no_nul t \<Longrightarrow> strcmp s t = 0 \<longleftrightarrow> s = t"
  by (induction s t rule: strcmp.induct) (auto simp: of_char_zero)

lemma strncmp_eq_0:
  "no_nul s \<Longrightarrow> no_nul t \<Longrightarrow> n < 2 ^ 31 \<Longrightarrow> strncmp s t (word_of_nat n) = 0 \<longleftrightarrow> take n s = take n t"
proof (induction n arbitrary: s t)
  case 0
  then show ?case by (subst strncmp.simps) simp
next
  case (Suc n)
  have u: "(word_of_nat (Suc n) :: u32) - 1 = word_of_nat n" by simp
  have "sint (word_of_nat n :: u32) = int n" using Suc.prems(3) by (simp add: sint_uint unsigned_of_nat signed_take_bit_int_eq_self take_bit_nat_eq_self)
  then have p: "\<not> sint ((word_of_nat (Suc n) :: u32) - 1) < 0" unfolding u by simp
  show ?case using Suc p unfolding u by (subst strncmp.simps) (auto simp: u split: list.splits)
qed

lemma inj_of_char: "inj (of_char :: char \<Rightarrow> u8)"
proof (rule injI)
  fix c d :: char assume "(of_char c :: u8) = of_char d"
  then have "unat (of_char c :: u8) = unat (of_char d :: u8)" by (rule arg_cong)
  then show "c = d" unfolding unat_of_char by simp
qed

lemma string_bytes_prefix:
  assumes "length t \<le> length s"
  shows "memcmp (string_bytes s) (string_bytes t) (length t) = Some 0 \<longleftrightarrow> prefix t s"
proof -
  have "memcmp (string_bytes s) (string_bytes t) (length t) = Some 0 \<longleftrightarrow> map of_char (take (length t) s) = (map of_char t :: u8 list)"
    using assms by (subst memcmp_bytes) (simp_all add: string_bytes_def take_map)
  also have "\<dots> \<longleftrightarrow> take (length t) s = t" by (rule inj_map_eq_map [OF inj_of_char])
  also have "\<dots> \<longleftrightarrow> prefix t s" by (metis append_take_drop_id prefix_def append_eq_conv_conj)
  finally show ?thesis .
qed

fun tails :: "string \<Rightarrow> string list" where
  "tails [] = [[]]"
| "tails (c # s) = (c # s) # tails s"

lemma strstr_loop_find: "t \<noteq> [] \<Longrightarrow> strstr_loop (length s) s t = List.find (prefix t) (tails s)"
proof (induction s)
  case Nil
  then show ?case by (subst strstr_loop.simps) (cases t; simp)
next
  case (Cons c s)
  show ?case
  proof (cases "length t \<le> length (c # s)")
    case True
    then show ?thesis using Cons string_bytes_prefix [OF True] by (subst strstr_loop.simps) auto
  next
    case False
    then have "\<not> prefix t r" if "r \<in> set (tails (c # s))" for r
    proof -
      have "length r \<le> length (c # s)" using that by (induction s arbitrary: c) auto
      then show ?thesis using False prefix_length_le by fastforce
    qed
    then have "List.find (prefix t) (tails (c # s)) = None" by (auto simp: find_None_iff)
    then show ?thesis using False by (subst strstr_loop.simps) auto
  qed
qed

lemma tails_length: "r \<in> set (tails s) \<Longrightarrow> length r \<le> length s"
  by (induction s) auto

lemma find_agree: "(\<And>x. x \<in> set xs \<Longrightarrow> P x = Q x) \<Longrightarrow> List.find P xs = List.find Q xs"
  by (induction xs) auto

definition within :: "string \<Rightarrow> string \<Rightarrow> nat \<Rightarrow> string \<Rightarrow> bool" where
  "within s t n r \<longleftrightarrow> prefix t r \<and> length s - length r + length t \<le> n"

lemma within_step: "r \<in> set (tails s) \<Longrightarrow> 0 < n \<Longrightarrow> within (d # s) t n r = within s t (n - 1) r"
  using tails_length [of r s] by (auto simp: within_def)

lemma strnstr_loop_find:
  assumes "no_nul s" "no_nul t" "length t < 2 ^ 31"
  shows "strnstr_loop c t s n = List.find (within s (c # t) n) (tails s)"
  using assms(1)
proof (induction s arbitrary: n)
  case Nil
  then show ?case by (simp add: within_def)
next
  case (Cons d s)
  have e: "strncmp s t (word_of_nat (length t)) = 0 \<longleftrightarrow> prefix t s"
    using strncmp_eq_0 [of s t "length t"] assms(2,3) Cons.prems
    by simp (metis append_eq_conv_conj append_take_drop_id prefix_def)
  show ?case
  proof (cases "n = 0 \<or> d = c \<and> n - 1 < length t")
    case True
    then have "length (c # t) > n" by auto
    then have "List.find (within (d # s) (c # t) n) (tails (d # s)) = None" by (auto simp: find_None_iff within_def)
    then show ?thesis using True by auto
  next
    case False
    have "strnstr_loop c t s (n - 1) = List.find (within (d # s) (c # t) n) (tails s)"
      using Cons False by (subst find_agree [OF within_step]) auto
    moreover have "within (d # s) (c # t) n (d # s) \<longleftrightarrow> d = c \<and> prefix t s \<and> length t < n" by (auto simp: within_def)
    ultimately show ?thesis using False e by auto
  qed
qed

lemma strchr_find: "strchr s c = List.find (\<lambda>r. hd (r @ [NUL]) = c) (tails s)"
  by (induction s c rule: strchr.induct) auto

lemma strpbrk_find: "strpbrk s ct = List.find (\<lambda>r. r \<noteq> [] \<and> hd r \<in> set ct) (tails s)"
  by (induction s ct rule: strpbrk.induct) auto

definition last_place :: "string \<Rightarrow> char \<Rightarrow> nat option \<Rightarrow> bool" where
  "last_place s c p \<longleftrightarrow>
    (case p of
       None \<Rightarrow> c \<notin> set s
     | Some i \<Rightarrow> i < length s \<and> s ! i = c \<and> (\<forall>j. i < j \<longrightarrow> j < length s \<longrightarrow> s ! j \<noteq> c))"

lemma memrchr_last: "n \<le> length s \<Longrightarrow> last_place (take n s) c (memrchr s c n)"
proof (induction n)
  case (Suc n)
  show ?case
  proof (cases "s ! n = c")
    case True
    then show ?thesis using Suc.prems by (auto simp: last_place_def)
  next
    case False
    have "last_place (take n s) c (memrchr s c n)" using Suc by simp
    moreover have "take (Suc n) s = take n s @ [s ! n]" using Suc.prems by (simp add: take_Suc_conv_app_nth)
    ultimately show ?thesis using False Suc.prems
      by (auto simp: last_place_def nth_append less_Suc_eq split: option.splits)
  qed
qed (simp add: last_place_def)

lemma strrchr_last: "last_place (s @ [NUL]) c (strrchr s c)"
  using memrchr_last [of "length s + 1" "s @ [NUL]" c] by (simp add: strrchr_def)

text \<open>C39: the searches of the C library. \<^verbatim>\<open>strchr\<close>, \<^verbatim>\<open>strpbrk\<close> and \<^verbatim>\<open>strstr\<close> return the first place where the character, a
  character of the set or the text is found, and \<^verbatim>\<open>strnstr\<close> the first place of the text that lies within the
  given number of characters; \<^verbatim>\<open>strrchr\<close> returns the last place of the character. All return the null pointer
  where there is none. For the searches for one character the terminator belongs to the string. The text is
  at most 2 GB, the range of the counter in \<^verbatim>\<open>strncmp\<close>.\<close>

theorem string_search:
  assumes "no_nul s" and "no_nul t" and "length t \<le> 2 ^ 31"
  shows "strchr s c = List.find (\<lambda>r. hd (r @ [NUL]) = c) (tails s) \<and> last_place (s @ [NUL]) c (strrchr s c) \<and>
    strpbrk s ct = List.find (\<lambda>r. r \<noteq> [] \<and> hd r \<in> set ct) (tails s) \<and>
    strstr s t = List.find (prefix t) (tails s) \<and> strnstr s t n = List.find (within s t n) (tails s)"
proof -
  have "strstr s t = List.find (prefix t) (tails s) \<and> strnstr s t n = List.find (within s t n) (tails s)"
  proof (cases t)
    case Nil
    then show ?thesis by (cases s) (auto simp: strstr_def strnstr_def within_def)
  next
    case (Cons c t')
    then show ?thesis using assms strstr_loop_find [of t s] strnstr_loop_find [of s t' c n]
      by (simp add: strstr_def strnstr_def)
  qed
  then show ?thesis using strchr_find strpbrk_find strrchr_last by blast
qed

theorem string_search_witness:
  "strchr ''a-bb-ab'' CHR ''b'' = Some ''bb-ab'' \<and> last_place (''a-bb-ab'' @ [NUL]) CHR ''b'' (strrchr ''a-bb-ab'' CHR ''b'') \<and>
   strpbrk ''a-bb-ab'' ''-b'' = Some ''-bb-ab'' \<and>
   strstr ''a-bb-ab'' ''b-'' = Some ''b-ab'' \<and> strnstr ''a-bb-ab'' ''ab'' 6 = None \<and> strnstr ''a-bb-ab'' ''ab'' 7 = Some ''ab''"
  using string_search [of "''a-bb-ab''" "''b-''" "CHR ''b''" "''-b''" 0] string_search [of "''a-bb-ab''" "''ab''" "CHR ''b''" "''-b''" 6]
    string_search [of "''a-bb-ab''" "''ab''" "CHR ''b''" "''-b''" 7]
  by (simp add: within_def)

text \<open>Replacing a character by itself does not end.\<close>

lemma chrreplace_map: "search \<noteq> ch \<Longrightarrow> ch \<noteq> NUL \<Longrightarrow> chrreplace s search ch = Some (map (\<lambda>c. if c = search then ch else c) s)"
proof (induction s)
  case (Cons c s)
  have "chrreplace (d # s) search ch = Some (d # map (\<lambda>c. if c = search then ch else c) s)" if "d \<noteq> search" for d
    using Cons that by (subst chrreplace.simps) simp
  then show ?case using Cons.prems by (cases "c = search") (subst chrreplace.simps, simp, simp)
qed (subst chrreplace.simps, simp)

lemma chrreplace_ends: "chrreplace s search ch = Some r \<Longrightarrow> \<not> (search = ch \<and> ch \<noteq> NUL \<and> search \<in> set s)"
proof (erule chrreplace.raw_induct [rotated])
  fix f s search ch r
  assume f: "\<And>s search ch r. f s search ch = Some r \<Longrightarrow> \<not> (search = ch \<and> ch \<noteq> NUL \<and> search \<in> set s)"
    and s: "(case s of [] \<Rightarrow> Some [] | c # s \<Rightarrow> if c = search then if ch = NUL then Some [] else f (ch # s) search ch
      else f s search ch \<bind> (\<lambda>r. Some (c # r))) = Some r"
  show "\<not> (search = ch \<and> ch \<noteq> NUL \<and> search \<in> set s)"
  proof (cases s)
    case (Cons c s')
    then show ?thesis using s f [of "ch # s'" search ch r] f [of s' search ch] by (auto simp: bind_eq_Some_conv split: if_splits)
  qed simp
qed

lemma chrreplace_self: "c \<in> set s \<Longrightarrow> c \<noteq> NUL \<Longrightarrow> chrreplace s c c = None"
  using chrreplace_ends [of s c c] by (cases "chrreplace s c c") auto

end
