(* ===== verification/VirtualRoot.thy ===== *)
theory VirtualRoot
  imports CLibrary
begin

text \<open>
  The directory tree that the FTP server shows, \<^verbatim>\<open>src/fs/VirtualRoot/VirtualRoot.c\<close>: a root that lists the mounted
  partitions, and below it the FAT file system with a current directory.

  \<^verbatim>\<open>ChildFS_t\<close> is the structure of function pointers; each of its operations works on the state \<^verbatim>\<open>'s\<close> of the file
  system.  \<^verbatim>\<open>currentAccessor\<close> is null or that structure, a flag here.  A path that does not fit the buffer it is
  copied or printed to, or a search that starts behind the end of a path, is \<^verbatim>\<open>None\<close>.
\<close>

record FileInfo =
  fi_name :: string
  fi_nameLength :: u8
  fi_size :: u32
  fi_attributes :: u8
  fi_modDate :: u16
  fi_modTime :: u16

record 's ChildFS_t =
  fs_getEntryName :: "u8 \<Rightarrow> 's \<Rightarrow> int \<times> string option"
  fs_open :: "string \<Rightarrow> u32 \<Rightarrow> 's \<Rightarrow> int \<times> 's"
  fs_read :: "int \<Rightarrow> u32 \<Rightarrow> 's \<Rightarrow> (int \<times> u8 list) \<times> 's"
  fs_write :: "int \<Rightarrow> u8 list \<Rightarrow> 's \<Rightarrow> int \<times> 's"
  fs_close :: "int \<Rightarrow> 's \<Rightarrow> int \<times> 's"
  fs_eof :: "int \<Rightarrow> 's \<Rightarrow> int"
  fs_stat :: "string \<Rightarrow> 's \<Rightarrow> FileInfo"
  fs_rename :: "string \<Rightarrow> string \<Rightarrow> 's \<Rightarrow> int \<times> 's"
  fs_mkdir :: "string \<Rightarrow> 's \<Rightarrow> int \<times> 's"
  fs_remove :: "string \<Rightarrow> 's \<Rightarrow> int \<times> 's"
  fs_chdir :: "string \<Rightarrow> 's \<Rightarrow> int \<times> 's"
  fs_opendir :: "string \<Rightarrow> 's \<Rightarrow> int \<times> 's"
  fs_readdir :: "int \<Rightarrow> 's \<Rightarrow> FileInfo \<times> 's"
  fs_closedir :: "int \<Rightarrow> 's \<Rightarrow> int \<times> 's"

record 's vroot =
  cwd :: string
  currentAccessor :: bool
  virtualRootCycler :: u8
  child :: 's

definition cPathSep :: char where "cPathSep = CHR ''/''"

definition MaxPathLength :: nat where "MaxPathLength = 255"

text \<open>\<^verbatim>\<open>sizeof\<close> of a character constant is 4.\<close>

definition sizeof_char_constant :: nat where "sizeof_char_constant = 4"

definition VirtualRootDirHandle :: int where "VirtualRootDirHandle = 0x7FFFFFFF"

text \<open>Copying into \<^verbatim>\<open>cwd\<close>, and printing into a buffer of 300 bytes.\<close>

definition set_cwd :: "string \<Rightarrow> 's vroot \<Rightarrow> 's vroot option" where
  "set_cwd path st = (if length path < MaxPathLength + sizeof_char_constant then Some (st\<lparr>cwd := path\<rparr>) else None)"

definition workPath :: "string \<Rightarrow> string option" where
  "workPath path = (if length path < 300 then Some path else None)"

definition VirtualRootInit :: "'s vroot \<Rightarrow> 's vroot" where
  "VirtualRootInit st = st\<lparr>cwd := [cPathSep], currentAccessor := False, virtualRootCycler := 0\<rparr>"

definition combinePath :: "string \<Rightarrow> 's vroot \<Rightarrow> string option" where
  "combinePath add st =
    (if cwd st \<noteq> [] \<and> last (cwd st) = cPathSep then workPath (cwd st @ add)
     else workPath (cwd st @ [cPathSep] @ add))"

subsection \<open>Changing the directory\<close>

definition pathProcess_Absolute :: "'s ChildFS_t \<Rightarrow> string \<Rightarrow> 's vroot \<Rightarrow> (int \<times> 's vroot) option" where
  "pathProcess_Absolute fs path st =
    (if length path = 1 then Some (0, st\<lparr>cwd := [cPathSep], currentAccessor := False\<rparr>)
     else let (result, c) = fs_chdir fs path (child st); st = st\<lparr>child := c\<rparr> in
       if result = 0 then do { st \<leftarrow> set_cwd path (st\<lparr>currentAccessor := True\<rparr>); Some (0, st) }
       else Some (-1, st))"

definition pathProcess_GoingForward :: "'s ChildFS_t \<Rightarrow> string \<Rightarrow> 's vroot \<Rightarrow> (int \<times> 's vroot) option" where
  "pathProcess_GoingForward fs path st =
    (if path = [] \<or> hd path \<noteq> cPathSep
     then do {
       work \<leftarrow> combinePath path st;
       let (result, c) = fs_chdir fs work (child st);
       let st = st\<lparr>child := c\<rparr>;
       if result = 0 then do { st \<leftarrow> set_cwd work (st\<lparr>currentAccessor := True\<rparr>); Some (0, st) }
       else Some (-1, st)
     }
     else Some (-1, st))"

text \<open>The last separator of a path, behind its first four characters.\<close>

definition last_sep :: "string \<Rightarrow> nat option option" where
  "last_sep path =
    (if length path < sizeof_char_constant then None
     else Some (map_option (\<lambda>i. i + sizeof_char_constant) (strrchr (drop sizeof_char_constant path) cPathSep)))"

definition pathProcess_GoingBack :: "'s ChildFS_t \<Rightarrow> 's vroot \<Rightarrow> (int \<times> 's vroot) option" where
  "pathProcess_GoingBack fs st = do {
     work \<leftarrow> workPath (cwd st);
     sep \<leftarrow> last_sep work;
     case sep of
       None \<Rightarrow> Some (-1, st)
     | Some i \<Rightarrow> do {
         let work = take i work;
         sep \<leftarrow> last_sep work;
         case sep of
           None \<Rightarrow> Some (0, st\<lparr>currentAccessor := False, cwd := [cPathSep]\<rparr>)
         | Some i \<Rightarrow>
             let work = take (i + 1) work in
             if currentAccessor st
             then (let (result, c) = fs_chdir fs work (child st); st = st\<lparr>child := c\<rparr> in
                   if result = 0 then do { st \<leftarrow> set_cwd work st; Some (-1, st) }
                   else Some (-1, st\<lparr>currentAccessor := False, cwd := [cPathSep]\<rparr>))
             else Some (-1, st)
       }
   }"

definition vroot_cd :: "'s ChildFS_t \<Rightarrow> string \<Rightarrow> 's vroot \<Rightarrow> (int \<times> 's vroot) option" where
  "vroot_cd fs path st =
    (if MaxPathLength < length path then Some (-1, st)
     else if path \<noteq> [] \<and> hd path = cPathSep then pathProcess_Absolute fs path st
     else if strcmp path ''..'' = 0 then pathProcess_GoingBack fs st
     else pathProcess_GoingForward fs path st)"

definition vroot_getcwd :: "'s vroot \<Rightarrow> string" where
  "vroot_getcwd st = cwd st"

subsection \<open>Files and directories\<close>

definition vroot_open :: "'s ChildFS_t \<Rightarrow> string \<Rightarrow> u32 \<Rightarrow> 's vroot \<Rightarrow> (int \<times> 's vroot) option" where
  "vroot_open fs path mode st = do {
     work \<leftarrow> combinePath path st;
     Some (if currentAccessor st
           then (let (r, c) = fs_open fs work mode (child st) in (r, st\<lparr>child := c\<rparr>)) else (0, st))
   }"

definition vroot_read :: "'s ChildFS_t \<Rightarrow> int \<Rightarrow> u32 \<Rightarrow> 's vroot \<Rightarrow> (int \<times> u8 list) \<times> 's vroot" where
  "vroot_read fs handle count st =
    (if currentAccessor st then (let (r, c) = fs_read fs handle count (child st) in (r, st\<lparr>child := c\<rparr>)) else ((-1, []), st))"

definition vroot_write :: "'s ChildFS_t \<Rightarrow> int \<Rightarrow> u8 list \<Rightarrow> 's vroot \<Rightarrow> int \<times> 's vroot" where
  "vroot_write fs handle bs st =
    (if currentAccessor st then (let (r, c) = fs_write fs handle bs (child st) in (r, st\<lparr>child := c\<rparr>)) else (-1, st))"

definition vroot_close :: "'s ChildFS_t \<Rightarrow> int \<Rightarrow> 's vroot \<Rightarrow> 's vroot" where
  "vroot_close fs handle st = (if currentAccessor st then st\<lparr>child := snd (fs_close fs handle (child st))\<rparr> else st)"

definition vroot_eof :: "'s ChildFS_t \<Rightarrow> int \<Rightarrow> 's vroot \<Rightarrow> int" where
  "vroot_eof fs handle st = (if currentAccessor st then fs_eof fs handle (child st) else -1)"

text \<open>The name has 42 bytes.\<close>

definition root_info :: "string \<Rightarrow> FileInfo option" where
  "root_info name =
    (if length name < 42
     then Some \<lparr>fi_name = name, fi_nameLength = word_of_nat (length name), fi_size = 0, fi_attributes = 0x15, fi_modDate = 0, fi_modTime = 0\<rparr>
     else None)"

definition vroot_stat :: "'s ChildFS_t \<Rightarrow> string \<Rightarrow> 's vroot \<Rightarrow> FileInfo option" where
  "vroot_stat fs path st =
    (if currentAccessor st then do { work \<leftarrow> combinePath path st; Some (fs_stat fs work (child st)) } else root_info path)"

definition vroot_rename :: "'s ChildFS_t \<Rightarrow> string \<Rightarrow> string \<Rightarrow> 's vroot \<Rightarrow> int \<times> 's vroot" where
  "vroot_rename fs path newName st =
    (if currentAccessor st then (let (r, c) = fs_rename fs path newName (child st) in (r, st\<lparr>child := c\<rparr>)) else (-1, st))"

definition vroot_mkdir :: "'s ChildFS_t \<Rightarrow> string \<Rightarrow> 's vroot \<Rightarrow> int \<times> 's vroot" where
  "vroot_mkdir fs path st =
    (if currentAccessor st then (let (r, c) = fs_mkdir fs path (child st) in (r, st\<lparr>child := c\<rparr>)) else (-1, st))"

definition vroot_remove :: "'s ChildFS_t \<Rightarrow> string \<Rightarrow> 's vroot \<Rightarrow> int \<times> 's vroot" where
  "vroot_remove fs path st =
    (if currentAccessor st then (let (r, c) = fs_remove fs path (child st) in (r, st\<lparr>child := c\<rparr>)) else (-1, st))"

definition vroot_opendir :: "'s ChildFS_t \<Rightarrow> string \<Rightarrow> 's vroot \<Rightarrow> int \<times> 's vroot" where
  "vroot_opendir fs path st =
    (if currentAccessor st then (let (r, c) = fs_opendir fs path (child st) in (r, st\<lparr>child := c\<rparr>)) else (VirtualRootDirHandle, st))"

definition vroot_readdir :: "'s ChildFS_t \<Rightarrow> int \<Rightarrow> 's vroot \<Rightarrow> (FileInfo \<times> 's vroot) option" where
  "vroot_readdir fs handle st =
    (if VirtualRootDirHandle \<noteq> handle \<and> currentAccessor st
     then (let (r, c) = fs_readdir fs handle (child st) in Some (r, st\<lparr>child := c\<rparr>))
     else if VirtualRootDirHandle = handle
     then (let (n, name) = fs_getEntryName fs (virtualRootCycler st) (child st);
               st = st\<lparr>virtualRootCycler := word_of_int n\<rparr>
           in do { info \<leftarrow> root_info (case name of None \<Rightarrow> [] | Some s \<Rightarrow> s); Some (info, st) })
     else do { info \<leftarrow> root_info []; Some (info, st) })"

definition vroot_closedir :: "'s ChildFS_t \<Rightarrow> int \<Rightarrow> 's vroot \<Rightarrow> 's vroot" where
  "vroot_closedir fs handle st =
    (if currentAccessor st then st\<lparr>child := snd (fs_closedir fs handle (child st))\<rparr> else st\<lparr>virtualRootCycler := 0\<rparr>)"

subsection \<open>The current directory\<close>

definition vroot_wf :: "'s vroot \<Rightarrow> bool" where
  "vroot_wf st \<longleftrightarrow> cwd st \<noteq> [] \<and> hd (cwd st) = cPathSep \<and> length (cwd st) < MaxPathLength + sizeof_char_constant \<and>
    (\<not> currentAccessor st \<longrightarrow> cwd st = [cPathSep])"

lemmas vroot_sizes = MaxPathLength_def sizeof_char_constant_def

lemma VirtualRootInit_wf: "vroot_wf (VirtualRootInit st)"
  by (simp add: VirtualRootInit_def vroot_wf_def vroot_sizes)

text \<open>The directory a path means: an absolute path itself, and otherwise the path below the current directory,
  with one separator in between.\<close>

definition below :: "string \<Rightarrow> string \<Rightarrow> string" where
  "below dir path = (if last dir = cPathSep then butlast dir else dir) @ cPathSep # path"

definition cd_target :: "string \<Rightarrow> string \<Rightarrow> string" where
  "cd_target dir path = (if path \<noteq> [] \<and> hd path = cPathSep then path else below dir path)"

text \<open>What a step to a directory does: the file system is asked for it, and the directory changes to it exactly
  when it agrees.\<close>

definition cd_step :: "'s ChildFS_t \<Rightarrow> string \<Rightarrow> 's vroot \<Rightarrow> int \<Rightarrow> 's vroot \<Rightarrow> bool" where
  "cd_step fs dir st r st' \<longleftrightarrow>
    child st' = snd (fs_chdir fs dir (child st)) \<and> virtualRootCycler st' = virtualRootCycler st \<and>
    (if fst (fs_chdir fs dir (child st)) = 0 then r = 0 \<and> cwd st' = dir \<and> currentAccessor st'
     else r = -1 \<and> cwd st' = cwd st \<and> currentAccessor st' = currentAccessor st)"

lemma combinePath_below:
  assumes "cwd st \<noteq> []" "length (below (cwd st) path) < 300"
  shows "combinePath path st = Some (below (cwd st) path)"
proof (cases "last (cwd st) = cPathSep")
  case True
  then have "below (cwd st) path = cwd st @ path"
    using append_butlast_last_id [OF assms(1)] unfolding below_def by (metis append_Cons append_Nil append_assoc)
  then show ?thesis using assms True by (simp add: combinePath_def workPath_def)
next
  case False
  then show ?thesis using assms by (simp add: combinePath_def workPath_def below_def)
qed

lemma absolute_step:
  assumes "path \<noteq> []" "hd path = cPathSep" "length path \<le> MaxPathLength" "path \<noteq> [cPathSep]"
  shows "\<exists>r st'. pathProcess_Absolute fs path st = Some (r, st') \<and> cd_step fs path st r st'"
proof -
  obtain result c where f: "fs_chdir fs path (child st) = (result, c)" by fastforce
  have "length path \<noteq> 1" using assms by (cases path) auto
  then show ?thesis using assms
    by (auto simp: pathProcess_Absolute_def set_cwd_def f cd_step_def vroot_sizes Let_def)
qed

lemma forward_step:
  assumes "cwd st \<noteq> []" "length (below (cwd st) path) < MaxPathLength + sizeof_char_constant"
    and "path = [] \<or> hd path \<noteq> cPathSep"
  shows "\<exists>r st'. pathProcess_GoingForward fs path st = Some (r, st') \<and> cd_step fs (below (cwd st) path) st r st'"
proof -
  let ?w = "below (cwd st) path"
  obtain result c where f: "fs_chdir fs ?w (child st) = (result, c)" by fastforce
  have "combinePath path st = Some ?w" using assms(1,2) by (intro combinePath_below) (simp_all add: vroot_sizes)
  then show ?thesis using assms
    by (auto simp: pathProcess_GoingForward_def set_cwd_def f cd_step_def Let_def)
qed

lemma cd_step_wf:
  assumes "cd_step fs dir st r st'" "vroot_wf st" "dir \<noteq> []" "hd dir = cPathSep" "length dir < MaxPathLength + sizeof_char_constant"
  shows "vroot_wf st'"
  using assms by (auto simp: cd_step_def vroot_wf_def split: if_splits)

lemma memrchr_less: "memrchr s c n = Some i \<Longrightarrow> i < n \<and> s ! i = c"
  by (induction n) (auto split: if_splits)

lemma last_sep_bounds: "last_sep path = Some (Some i) \<Longrightarrow> 4 \<le> i \<and> i < length path"
proof -
  assume "last_sep path = Some (Some i)"
  then obtain j where j: "memrchr (drop 4 path @ [CHR 0x00]) cPathSep (length (drop 4 path) + 1) = Some j" "i = j + 4" "4 \<le> length path"
    by (auto simp: last_sep_def strrchr_def vroot_sizes split: if_splits)
  have "j < length path - 4 + 1" "(drop 4 path @ [CHR 0x00]) ! j = cPathSep" using memrchr_less [OF j(1)] by simp_all
  then have "j < length path - 4" by (cases "j = length path - 4") (auto simp: nth_append cPathSep_def)
  then show ?thesis using j(2,3) by simp
qed

lemma back_cases:
  assumes wf: "vroot_wf st" and l: "4 \<le> length (cwd st)"
  shows "\<exists>r st'. pathProcess_GoingBack fs st = Some (r, st') \<and> vroot_wf st' \<and> prefix (cwd st') (cwd st)"
proof -
  have w: "workPath (cwd st) = Some (cwd st)" using wf by (simp add: vroot_wf_def workPath_def vroot_sizes)
  have root: "vroot_wf (st\<lparr>currentAccessor := b, cwd := [cPathSep], child := c\<rparr>)" "prefix [cPathSep] (cwd st)" for b c
    using wf by (auto simp: vroot_wf_def vroot_sizes) (cases "cwd st"; simp)
  obtain sep where sep: "last_sep (cwd st) = Some sep" using l by (auto simp: last_sep_def vroot_sizes)
  show ?thesis
  proof (cases sep)
    case None
    then show ?thesis using wf w sep by (simp add: pathProcess_GoingBack_def)
  next
    case (Some i)
    then have i: "4 \<le> i" "i < length (cwd st)" using last_sep_bounds sep by auto
    obtain sep2 where s2: "last_sep (take i (cwd st)) = Some sep2" using i by (auto simp: last_sep_def vroot_sizes)
    show ?thesis
    proof (cases sep2)
      case None
      then show ?thesis using w Some sep s2 root(2) wf
        by (simp add: pathProcess_GoingBack_def Let_def vroot_wf_def vroot_sizes)
    next
      case (Some j)
      let ?work = "take (j + 1) (take i (cwd st))"
      obtain result c where f: "fs_chdir fs ?work (child st) = (result, c)" by fastforce
      have "?work \<noteq> []" "hd ?work = cPathSep" "length ?work < MaxPathLength + sizeof_char_constant" "prefix ?work (cwd st)"
        using wf i take_is_prefix [of "min (j + 1) i" "cwd st"] by (auto simp: vroot_wf_def min_def)
      then show ?thesis using w Some \<open>sep = Some i\<close> sep s2 f wf root(2)
        by (auto simp: pathProcess_GoingBack_def Let_def set_cwd_def vroot_wf_def vroot_sizes)
    qed
  qed
qed

text \<open>C38: Changing the directory. A path of more than 255 characters is refused and changes nothing, and the
  root is entered without asking the file system. For any other path than \<^verbatim>\<open>..\<close> the file system is asked for
  exactly the directory meant, an absolute path itself or the path below the current directory, and if it
  agrees that is the new directory, else nothing changes but the state of the file system. \<^verbatim>\<open>..\<close> from a
  directory of at least four characters leads to the directory itself or to one on the way to it. In each
  case the directory stays an absolute path within its buffer. The condition is that the directory meant
  fits the buffer; \<^verbatim>\<open>vroot_cd_overrun\<close> below shows what happens otherwise.\<close>

theorem vroot_cd_outcome:
  assumes "vroot_wf st" and "no_nul path" and "length (cd_target (cwd st) path) < MaxPathLength + sizeof_char_constant"
    and "path = ''..'' \<longrightarrow> 4 \<le> length (cwd st)"
  shows "\<exists>r st'. vroot_cd fs path st = Some (r, st') \<and> vroot_wf st' \<and>
    (if MaxPathLength < length path then r = -1 \<and> st' = st
     else if path = [cPathSep] then r = 0 \<and> st' = st\<lparr>cwd := [cPathSep], currentAccessor := False\<rparr>
     else if path = ''..'' then prefix (cwd st') (cwd st)
     else cd_step fs (cd_target (cwd st) path) st r st')"
proof (cases "MaxPathLength < length path")
  case True
  then show ?thesis using assms(1) by (simp add: vroot_cd_def)
next
  case m: False
  have ne: "cwd st \<noteq> []" "hd (cwd st) = cPathSep" using assms(1) by (simp_all add: vroot_wf_def)
  have dots: "strcmp path ''..'' = 0 \<longleftrightarrow> path = ''..''" using strcmp_eq_0 [OF assms(2), of "''..''"] by simp
  have below: "below (cwd st) path \<noteq> []" "hd (below (cwd st) path) = cPathSep"
    using ne by (cases "cwd st" rule: rev_cases; auto simp: below_def hd_append)+
  consider (root) "path = [cPathSep]" | (absolute) "path \<noteq> [] \<and> hd path = cPathSep \<and> path \<noteq> [cPathSep]"
    | (parent) "path = ''..''" | (forward) "(path = [] \<or> hd path \<noteq> cPathSep) \<and> path \<noteq> ''..''" by blast
  then show ?thesis
  proof cases
    case root
    then show ?thesis by (simp add: vroot_cd_def pathProcess_Absolute_def vroot_wf_def vroot_sizes)
  next
    case absolute
    then have "path \<noteq> ''..''" by (auto simp: cPathSep_def)
    moreover obtain r st' where a: "pathProcess_Absolute fs path st = Some (r, st')" "cd_step fs path st r st'"
      using absolute_step [of path fs st] absolute m by auto
    moreover have "vroot_wf st'" using cd_step_wf [OF a(2) assms(1)] absolute m by (simp add: vroot_sizes)
    ultimately show ?thesis using absolute m by (simp add: vroot_cd_def cd_target_def)
  next
    case parent
    then show ?thesis using back_cases [OF assms(1), of fs] assms(4) by (simp add: vroot_cd_def cPathSep_def vroot_sizes)
  next
    case forward
    have t: "cd_target (cwd st) path = below (cwd st) path" using forward by (auto simp: cd_target_def)
    obtain r st' where a: "pathProcess_GoingForward fs path st = Some (r, st')" "cd_step fs (below (cwd st) path) st r st'"
      using forward_step [OF ne(1), of path fs] assms(3) forward unfolding t by blast
    have "vroot_wf st'" using cd_step_wf [OF a(2) assms(1) below] assms(3) t by simp
    moreover have "path \<noteq> [cPathSep]" using forward by auto
    ultimately show ?thesis using a m forward dots t by (auto simp: vroot_cd_def)
  qed
qed

definition sample_fs :: "string ChildFS_t" where
  "sample_fs =
    \<lparr>fs_getEntryName = (\<lambda>n s. (-1, None)), fs_open = (\<lambda>p m s. (0, s)), fs_read = (\<lambda>h n s. ((0, []), s)), fs_write = (\<lambda>h bs s. (0, s)),
     fs_close = (\<lambda>h s. (-1, s)), fs_eof = (\<lambda>h s. -1), fs_stat = (\<lambda>p s. FileInfo.make [] 0 0 0 0 0), fs_rename = (\<lambda>p q s. (-1, s)),
     fs_mkdir = (\<lambda>p s. (-1, s)), fs_remove = (\<lambda>p s. (-1, s)), fs_chdir = (\<lambda>p s. if p = ''/C/dash'' then (0, p) else (-1, s)),
     fs_opendir = (\<lambda>p s. (0, s)), fs_readdir = (\<lambda>h s. (FileInfo.make [] 0 0 0 0 0, s)), fs_closedir = (\<lambda>h s. (-1, s))\<rparr>"

theorem vroot_cd_outcome_witness:
  "\<exists>st'. vroot_cd sample_fs ''dash'' \<lparr>cwd = ''/C'', currentAccessor = True, virtualRootCycler = 0, child = ''/C''\<rparr> = Some (0, st') \<and>
    cwd st' = ''/C/dash'' \<and> child st' = ''/C/dash''"
proof -
  let ?st = "\<lparr>cwd = ''/C'', currentAccessor = True, virtualRootCycler = 0, child = ''/C''\<rparr> :: string vroot"
  have t: "cd_target (cwd ?st) ''dash'' = ''/C/dash''" by (simp add: cd_target_def below_def cPathSep_def)
  have "vroot_wf ?st" "no_nul ''dash''" "length (cd_target (cwd ?st) ''dash'') < MaxPathLength + sizeof_char_constant"
    "''dash'' = ''..'' \<longrightarrow> 4 \<le> length (cwd ?st)"
    unfolding t by (simp_all add: vroot_wf_def vroot_sizes no_nul_def cPathSep_def)
  from vroot_cd_outcome [OF this, of sample_fs] show ?thesis
    unfolding t by (auto simp: cd_step_def sample_fs_def vroot_sizes cPathSep_def)
qed

text \<open>A path within the limit of 255 characters overruns the buffer for the combined path.\<close>

lemma vroot_cd_overrun:
  assumes "no_nul path" "300 \<le> length (cwd st) + length path" "length path \<le> MaxPathLength" "hd path \<noteq> cPathSep" "path \<noteq> ''..''"
  shows "vroot_cd fs path st = None"
proof -
  have "strcmp path ''..'' \<noteq> 0" using strcmp_eq_0 [OF assms(1), of "''..''"] assms(5) by simp
  moreover have "combinePath path st = None" using assms(2) by (simp add: combinePath_def workPath_def)
  ultimately show ?thesis using assms by (simp add: vroot_cd_def pathProcess_GoingForward_def)
qed

end
