(* ===== verification/Fdisk.thy ===== *)
theory Fdisk
  imports XblastSettings "HOL-Library.Monad_Syntax"
begin

unbundle bit_operations_syntax

type_synonym u64 = "64 word"

text \<open>
  Partitioning a hard disk: \<^verbatim>\<open>fdisk\<close> of \<^verbatim>\<open>src/fs/ff13b/source/FatFSAccessor.c\<close> and the functions for the partition
  table, \<^verbatim>\<open>fatx_getmbr\<close>, \<^verbatim>\<open>fatx_getbrfr\<close> and \<^verbatim>\<open>fatx_fdisk\<close> of \<^verbatim>\<open>src/fs/ff13b/source/ff.c\<close>.

  A drive is the device behind \<^verbatim>\<open>disk_read\<close>, \<^verbatim>\<open>disk_write\<close> and \<^verbatim>\<open>disk_ioctl\<close> of \<^verbatim>\<open>diskio.c\<close>, which are called here
  for one sector at a time: its sectors of 512 bytes, some of which may be bad, its size, and whether flushing
  its cache fails.  With it goes the copy of its partition table that \<^verbatim>\<open>ff.c\<close> keeps in a static variable.

  Sizes keep the width they have in the source: the count of sectors is 32 bits, which \<^verbatim>\<open>fdisk\<close> computes with in 64
  bits, and the entries of the table are 32 bits.  Results are the codes of \<^verbatim>\<open>FRESULT\<close>, or -1.
\<close>

subsection \<open>The partition table\<close>

record XboxPartitionTableEntry =
  pe_Name :: "u8 list"
  pe_Flags :: u32
  LBAStart :: u32
  LBASize :: u32
  pe_Reserved :: u32

record XboxPartitionTable =
  pt_Magic :: "u8 list"
  pt_Res0 :: "u8 list"
  TableEntries :: "XboxPartitionTableEntry list"

abbreviation XBOX_EXTEND_STARTLBA :: "'a :: len word" where "XBOX_EXTEND_STARTLBA \<equiv> 0x00EE8AB0"
abbreviation XBOX_STORE_STARTLBA :: "'a :: len word" where "XBOX_STORE_STARTLBA \<equiv> 0x0055F400"
abbreviation XBOX_SYSTEM_STARTLBA :: "'a :: len word" where "XBOX_SYSTEM_STARTLBA \<equiv> 0x00465400"
abbreviation XBOX_CACHE1_STARTLBA :: "'a :: len word" where "XBOX_CACHE1_STARTLBA \<equiv> 0x00000400"
abbreviation XBOX_CACHE2_STARTLBA :: "'a :: len word" where "XBOX_CACHE2_STARTLBA \<equiv> 0x00177400"
abbreviation XBOX_CACHE3_STARTLBA :: "'a :: len word" where "XBOX_CACHE3_STARTLBA \<equiv> 0x002EE400"
abbreviation LBA28_BOUNDARY :: "'a :: len word" where "LBA28_BOUNDARY \<equiv> 0x0FFFFFFF"
abbreviation LBASIZE_256GB :: "'a :: len word" where "LBASIZE_256GB \<equiv> 536870912"
abbreviation LBASIZE_512GB :: "'a :: len word" where "LBASIZE_512GB \<equiv> 1073741824"
abbreviation LBASIZE_1024GB :: "'a :: len word" where "LBASIZE_1024GB \<equiv> 2147483645"

definition table_entry :: "string \<Rightarrow> u32 \<Rightarrow> u32 \<Rightarrow> u32 \<Rightarrow> XboxPartitionTableEntry" where
  "table_entry name flags start n =
    \<lparr>pe_Name = ascii (name @ replicate (16 - length name) CHR '' ''), pe_Flags = flags, LBAStart = start, LBASize = n, pe_Reserved = 0\<rparr>"

definition BackupPartTable :: XboxPartitionTable where
  "BackupPartTable =
    \<lparr>pt_Magic = ascii ''****PARTINFO****'', pt_Res0 = replicate 32 0,
     TableEntries =
       [table_entry ''XBOX SHELL'' 0x80000000 XBOX_STORE_STARTLBA (XBOX_EXTEND_STARTLBA - XBOX_STORE_STARTLBA),
        table_entry ''XBOX DATA'' 0x80000000 XBOX_SYSTEM_STARTLBA (XBOX_STORE_STARTLBA - XBOX_SYSTEM_STARTLBA),
        table_entry ''XBOX GAME SWAP 1'' 0x80000000 XBOX_CACHE1_STARTLBA (XBOX_CACHE2_STARTLBA - XBOX_CACHE1_STARTLBA),
        table_entry ''XBOX GAME SWAP 2'' 0x80000000 XBOX_CACHE1_STARTLBA (XBOX_CACHE3_STARTLBA - XBOX_CACHE2_STARTLBA),
        table_entry ''XBOX GAME SWAP 3'' 0x80000000 XBOX_CACHE1_STARTLBA (XBOX_SYSTEM_STARTLBA - XBOX_CACHE3_STARTLBA),
        table_entry ''XBOX F'' 0 0 0, table_entry ''XBOX G'' 0 0 0] @ replicate 7 (table_entry [] 0 0 0)\<rparr>"

definition entry_bytes :: "XboxPartitionTableEntry \<Rightarrow> u8 list" where
  "entry_bytes e = pe_Name e @ u32_bytes (pe_Flags e) @ u32_bytes (LBAStart e) @ u32_bytes (LBASize e) @ u32_bytes (pe_Reserved e)"

definition table_bytes :: "XboxPartitionTable \<Rightarrow> u8 list" where
  "table_bytes t = pt_Magic t @ pt_Res0 t @ concat (map entry_bytes (TableEntries t))"

definition bytes_entry :: "u8 list \<Rightarrow> XboxPartitionTableEntry" where
  "bytes_entry bs =
    \<lparr>pe_Name = take 16 bs, pe_Flags = bytes_u32 (chunk 16 4 bs), LBAStart = bytes_u32 (chunk 20 4 bs),
     LBASize = bytes_u32 (chunk 24 4 bs), pe_Reserved = bytes_u32 (chunk 28 4 bs)\<rparr>"

definition bytes_table :: "u8 list \<Rightarrow> XboxPartitionTable" where
  "bytes_table bs =
    \<lparr>pt_Magic = take 16 bs, pt_Res0 = chunk 16 32 bs, TableEntries = map (\<lambda>i. bytes_entry (chunk (48 + 32 * i) 32 bs)) [0..<14]\<rparr>"

subsection \<open>The drive\<close>

record drive =
  sector :: "nat \<Rightarrow> u8 list"
  bad_sector :: "nat \<Rightarrow> bool"
  m_dwCountSectorsTotal :: u32
  m_fDriveExists :: bool
  m_fAtapi :: bool
  flush_fails :: bool
  FatxPartTable :: XboxPartitionTable
  FatxPartTableRead :: bool

definition BootIdeGetSectorCount :: "drive \<Rightarrow> u64" where
  "BootIdeGetSectorCount d = ucast (m_dwCountSectorsTotal d)"

definition disk_read :: "nat \<Rightarrow> drive \<Rightarrow> u8 list option" where
  "disk_read n d = (if bad_sector d n then None else Some (sector d n))"

definition disk_write :: "u8 list \<Rightarrow> nat \<Rightarrow> drive \<Rightarrow> drive option" where
  "disk_write buf n d = (if bad_sector d n then None else Some (d\<lparr>sector := (sector d)(n := buf)\<rparr>))"

abbreviation STA_NOINIT :: u8 where "STA_NOINIT \<equiv> 0x01"
abbreviation STA_PROTECT :: u8 where "STA_PROTECT \<equiv> 0x04"

definition disk_status :: "drive \<Rightarrow> u8" where
  "disk_status d = (if m_fDriveExists d then 0 else STA_NOINIT) OR (if m_fAtapi d then STA_PROTECT else 0)"

text \<open>The status is computed and dropped.\<close>

definition disk_initialize :: "drive \<Rightarrow> u8" where
  "disk_initialize d = (let _ = disk_status d in 0)"

datatype FRESULT = FR_OK | FR_DISK_ERR | FR_NOT_READY | FR_NO_FILE | FR_WRITE_PROTECTED | FR_NO_FILESYSTEM

definition fatx_getbrfr :: "drive \<Rightarrow> FRESULT" where
  "fatx_getbrfr d =
    (case disk_read 3 d of
       None \<Rightarrow> FR_DISK_ERR
     | Some buf \<Rightarrow> if take 4 buf \<noteq> ascii ''BRFR'' then FR_NO_FILESYSTEM else FR_OK)"

definition fatx_getmbr :: "drive \<Rightarrow> FRESULT \<times> XboxPartitionTable option \<times> drive" where
  "fatx_getmbr d =
    (case disk_read 0 d of
       None \<Rightarrow> (FR_DISK_ERR, None, d)
     | Some buf \<Rightarrow>
         let (result, mbr) = (if pt_Magic BackupPartTable \<noteq> take 16 buf then (FR_NO_FILE, BackupPartTable) else (FR_OK, bytes_table buf))
         in (result, Some mbr, d\<lparr>FatxPartTable := mbr, FatxPartTableRead := True\<rparr>))"

text \<open>A table padded to a sector, written to sector 0, and the cache of the drive flushed.\<close>

definition write_table :: "XboxPartitionTable \<Rightarrow> drive \<Rightarrow> FRESULT \<times> drive" where
  "write_table t d =
    (case disk_write (table_bytes t @ replicate 16 0) 0 d of
       None \<Rightarrow> (FR_DISK_ERR, d)
     | Some d' \<Rightarrow> (if flush_fails d' then FR_DISK_ERR else FR_OK, d'))"

definition fatx_setmbr :: "XboxPartitionTable \<Rightarrow> drive \<Rightarrow> FRESULT \<times> drive" where
  "fatx_setmbr t d =
    (let (result, d') = write_table t d
     in if result \<noteq> FR_OK then (FR_DISK_ERR, d')
        else (FR_OK, d'\<lparr>FatxPartTable := t, FatxPartTableRead := (pt_Magic BackupPartTable = pt_Magic t)\<rparr>))"

fun wipe_loop :: "nat list \<Rightarrow> drive \<Rightarrow> bool \<times> drive" where
  "wipe_loop [] d = (True, d)"
| "wipe_loop (i # js) d = (case disk_write (replicate 512 0) i d of None \<Rightarrow> (False, d) | Some d' \<Rightarrow> wipe_loop js d')"

definition write_brfr :: "drive \<Rightarrow> FRESULT \<times> drive" where
  "write_brfr d =
    (if fatx_getbrfr d = FR_OK then (FR_OK, d)
     else let (ok, d') = wipe_loop [1..<0x400] d
       in if \<not> ok then (FR_DISK_ERR, d')
          else case disk_write (ascii ''BRFR'' @ replicate 508 0) 3 d' of None \<Rightarrow> (FR_DISK_ERR, d') | Some d'' \<Rightarrow> (FR_OK, d''))"

definition fatx_fdisk :: "XboxPartitionTable \<Rightarrow> drive \<Rightarrow> FRESULT \<times> drive" where
  "fatx_fdisk szt d =
    (let stat = disk_initialize d
     in if stat AND STA_NOINIT \<noteq> 0 then (FR_NOT_READY, d)
        else if stat AND STA_PROTECT \<noteq> 0 then (FR_WRITE_PROTECTED, d)
        else let (result, d') = write_brfr d
          in if result \<noteq> FR_OK then (result, d') else write_table szt d')"

subsection \<open>The layouts\<close>

datatype XboxDiskLayout =
  XboxDiskLayout_Base | XboxDiskLayout_FOnly | XboxDiskLayout_F120GRest | XboxDiskLayout_FGSplit | XboxDiskLayout_FMaxGRest

definition set_part :: "nat \<Rightarrow> u32 \<Rightarrow> u32 \<Rightarrow> XboxPartitionTable \<Rightarrow> XboxPartitionTable" where
  "set_part i start n t =
    t\<lparr>TableEntries := (TableEntries t)[i := (TableEntries t ! i)\<lparr>LBAStart := start, LBASize := n, pe_Flags := 0\<rparr>]\<rparr>"

definition split_size :: "u64 \<Rightarrow> u32" where
  "split_size diskSizeLba =
    (let f = ucast (diskSizeLba div 2) :: u32
     in if LBASIZE_1024GB \<le> f then LBASIZE_1024GB
        else
          let f = (if f \<le> LBASIZE_1024GB then f AND NOT 127 else f);
              f = (if f \<le> LBASIZE_512GB then f AND NOT 63 else f)
          in if f \<le> LBASIZE_256GB then f AND NOT 31 else f)"

fun layout_parts :: "XboxDiskLayout \<Rightarrow> u64 \<Rightarrow> XboxPartitionTable \<Rightarrow> XboxPartitionTable option" where
  "layout_parts XboxDiskLayout_Base diskSizeLba t = Some BackupPartTable"
| "layout_parts XboxDiskLayout_FOnly diskSizeLba t =
    (if diskSizeLba - XBOX_EXTEND_STARTLBA < 1024000 then None
     else Some (set_part 6 0 0 (set_part 5 XBOX_EXTEND_STARTLBA (ucast (diskSizeLba - XBOX_EXTEND_STARTLBA)) t)))"
| "layout_parts XboxDiskLayout_F120GRest diskSizeLba t =
    (let t = set_part 5 XBOX_EXTEND_STARTLBA (LBA28_BOUNDARY - XBOX_EXTEND_STARTLBA) t
     in Some (if LBA28_BOUNDARY + (XBOX_STORE_STARTLBA - XBOX_SYSTEM_STARTLBA) \<le> diskSizeLba
              then set_part 6 LBA28_BOUNDARY (ucast (diskSizeLba - LBA28_BOUNDARY)) t
              else set_part 6 0 0 t))"
| "layout_parts XboxDiskLayout_FGSplit diskSizeLba t =
    (let diskSizeLba = (diskSizeLba - XBOX_EXTEND_STARTLBA) AND NOT 511;
         f = split_size diskSizeLba
     in Some (set_part 6 (XBOX_EXTEND_STARTLBA + f) (ucast (diskSizeLba - ucast (XBOX_EXTEND_STARTLBA + f)))
               (set_part 5 XBOX_EXTEND_STARTLBA f t)))"
| "layout_parts XboxDiskLayout_FMaxGRest diskSizeLba t =
    (let t = set_part 5 XBOX_EXTEND_STARTLBA LBASIZE_1024GB t
     in Some (if XBOX_EXTEND_STARTLBA + LBASIZE_1024GB + (XBOX_STORE_STARTLBA - XBOX_SYSTEM_STARTLBA) \<le> diskSizeLba
              then set_part 6 (XBOX_EXTEND_STARTLBA + LBASIZE_1024GB) (ucast (diskSizeLba - (XBOX_EXTEND_STARTLBA + LBASIZE_1024GB))) t
              else set_part 6 0 0 t))"

text \<open>\<^const>\<open>None\<close> stands for the result -1.\<close>

definition fdisk_drive :: "XboxDiskLayout \<Rightarrow> drive \<Rightarrow> FRESULT option \<times> drive" where
  "fdisk_drive layout d =
    (let diskSizeLba = BootIdeGetSectorCount d
     in if diskSizeLba < XBOX_EXTEND_STARTLBA - 1 \<or> diskSizeLba \<le> XBOX_EXTEND_STARTLBA \<and> layout \<noteq> XboxDiskLayout_Base then (None, d)
        else case fatx_getmbr d of
            (FR_OK, Some mbr, d') \<Rightarrow>
              (case layout_parts layout diskSizeLba mbr of
                 None \<Rightarrow> (None, d')
               | Some mbr' \<Rightarrow> let (r, d'') = fatx_fdisk mbr' d' in (Some r, d''))
          | (_, _, d') \<Rightarrow> (None, d'))"

definition fdisk :: "nat \<Rightarrow> XboxDiskLayout \<Rightarrow> drive list \<Rightarrow> FRESULT option \<times> drive list" where
  "fdisk driveNumber layout ds =
    (if 2 \<le> driveNumber then (None, ds)
     else let (r, d) = fdisk_drive layout (ds ! driveNumber) in (r, ds[driveNumber := d]))"

subsection \<open>The table as bytes\<close>

definition table_wf :: "XboxPartitionTable \<Rightarrow> bool" where
  "table_wf t \<longleftrightarrow> length (pt_Magic t) = 16 \<and> length (pt_Res0 t) = 32 \<and> length (TableEntries t) = 14 \<and>
     (\<forall>e \<in> set (TableEntries t). length (pe_Name e) = 16)"

definition drive_wf :: "drive \<Rightarrow> bool" where
  "drive_wf d \<longleftrightarrow> (\<forall>n. length (sector d n) = 512)"

lemma length_entry_bytes [simp]: "length (pe_Name e) = 16 \<Longrightarrow> length (entry_bytes e) = 32"
  by (simp add: entry_bytes_def)

lemma bytes_entry_of_bytes: "length (pe_Name e) = 16 \<Longrightarrow> bytes_entry (entry_bytes e) = e"
  by (cases e) (simp add: bytes_entry_def entry_bytes_def chunk_def)

lemma length_concat_entries: "\<forall>e \<in> set es. length (pe_Name e) = 16 \<Longrightarrow> length (concat (map entry_bytes es)) = 32 * length es"
  by (induction es) auto

lemma chunk_concat_entries:
  "\<forall>e \<in> set es. length (pe_Name e) = 16 \<Longrightarrow> i < length es \<Longrightarrow> chunk (32 * i) 32 (concat (map entry_bytes es) @ r) = entry_bytes (es ! i)"
proof (induction es arbitrary: i)
  case (Cons e es)
  then show ?case
    by (cases i) (simp_all add: chunk_def)
qed simp

lemma length_table_bytes: "table_wf t \<Longrightarrow> length (table_bytes t) = 496"
  by (simp add: table_wf_def table_bytes_def length_concat_entries)

lemma bytes_table_of_bytes:
  assumes "table_wf t"
  shows "bytes_table (table_bytes t @ r) = t"
proof -
  have *: "chunk (48 + 32 * i) 32 (table_bytes t @ r) = entry_bytes (TableEntries t ! i)" if "i < 14" for i
    using assms that chunk_concat_entries [of "TableEntries t" i r] by (simp add: table_wf_def table_bytes_def chunk_def)
  have "map (\<lambda>i. bytes_entry (chunk (48 + 32 * i) 32 (table_bytes t @ r))) [0..<14] = map (\<lambda>i. TableEntries t ! i) [0..<14]"
    using assms by (intro map_cong refl) (simp add: * bytes_entry_of_bytes table_wf_def)
  also have "\<dots> = TableEntries t"
    using assms map_nth [of "TableEntries t"] by (simp add: table_wf_def)
  finally show ?thesis
    using assms by (cases t) (simp add: bytes_table_def table_wf_def table_bytes_def chunk_def)
qed

lemma BackupPartTable_wf: "table_wf BackupPartTable"
  by (simp add: table_wf_def BackupPartTable_def table_entry_def ascii_def)

lemma bytes_table_wf: "length bs = 512 \<Longrightarrow> table_wf (bytes_table bs)"
  by (auto simp: table_wf_def bytes_table_def bytes_entry_def chunk_def)

lemma set_part_wf: "table_wf t \<Longrightarrow> i < 14 \<Longrightarrow> table_wf (set_part i start n t)"
  by (auto simp: table_wf_def set_part_def dest!: set_update_subset_insert [THEN subsetD])

lemma set_part_Magic [simp]: "pt_Magic (set_part i start n t) = pt_Magic t"
  by (simp add: set_part_def)

lemma layout_parts_wf: "layout_parts l n t = Some t' \<Longrightarrow> table_wf t \<Longrightarrow> table_wf t'"
  by (cases l) (auto simp: Let_def BackupPartTable_wf set_part_wf split: if_splits)

lemma layout_parts_Magic:
  "layout_parts l n t = Some t' \<Longrightarrow> pt_Magic t = pt_Magic BackupPartTable \<Longrightarrow> pt_Magic t' = pt_Magic BackupPartTable"
  by (cases l) (auto simp: Let_def split: if_splits)

subsection \<open>The layouts fit the disk\<close>

abbreviation part :: "nat \<Rightarrow> XboxPartitionTable \<Rightarrow> XboxPartitionTableEntry" where
  "part i t \<equiv> TableEntries t ! i"

definition part_end :: "XboxPartitionTableEntry \<Rightarrow> nat" where
  "part_end e = unat (LBAStart e) + unat (LBASize e)"

text \<open>F ends on the disk, and G is empty or lies between the end of F and the end of the disk.\<close>

definition FG_fit :: "u64 \<Rightarrow> XboxPartitionTable \<Rightarrow> bool" where
  "FG_fit diskSizeLba t \<longleftrightarrow>
    part_end (part 5 t) \<le> unat diskSizeLba \<and>
    (LBASize (part 6 t) = 0 \<or> part_end (part 5 t) \<le> unat (LBAStart (part 6 t)) \<and> part_end (part 6 t) \<le> unat diskSizeLba)"

definition split_room :: "u64 \<Rightarrow> u64" where
  "split_room diskSizeLba = (diskSizeLba - XBOX_EXTEND_STARTLBA) AND NOT 511"

fun fit_condition :: "XboxDiskLayout \<Rightarrow> u64 \<Rightarrow> bool" where
  "fit_condition XboxDiskLayout_Base n \<longleftrightarrow> True"
| "fit_condition XboxDiskLayout_FOnly n \<longleftrightarrow> True"
| "fit_condition XboxDiskLayout_F120GRest n \<longleftrightarrow> 0x0FFFFFFF \<le> unat n"
| "fit_condition XboxDiskLayout_FGSplit n \<longleftrightarrow> 0x00EE8AB0 + unat (split_size (split_room n)) \<le> unat (split_room n)"
| "fit_condition XboxDiskLayout_FMaxGRest n \<longleftrightarrow> 0x00EE8AB0 + 2147483645 \<le> unat n"

lemma part_set_part [simp]:
  "length (TableEntries t) = 14 \<Longrightarrow> i < 14 \<Longrightarrow>
   part j (set_part i a n t) = (if j = i then (part i t)\<lparr>LBAStart := a, LBASize := n, pe_Flags := 0\<rparr> else part j t)"
  by (simp add: set_part_def)

lemma length_set_part [simp]: "length (TableEntries (set_part i a n t)) = length (TableEntries t)"
  by (simp add: set_part_def)

lemma unat_and_le: "unat (a AND b) \<le> unat (a :: 'a :: len word)"
  by (metis word_and_le2 word_le_nat_alt)

lemma unat_trunc: "unat (w :: u64) < 2 ^ 32 \<Longrightarrow> unat (ucast w :: u32) = unat w"
  by (simp add: unsigned_ucast_eq take_bit_nat_eq_self)

lemma unat_split_size: "unat (split_size n) \<le> unat (ucast (n div 2) :: u32) \<and> unat (split_size n) \<le> 2147483645"
proof -
  have a: "unat (a AND b) \<le> k" if "unat a \<le> k" for a b :: u32 and k
    using unat_and_le [of a b] that by linarith
  show ?thesis
    by (auto simp: split_size_def Let_def word_le_nat_alt intro!: a)
qed

lemma split_room_le: "0x00EE8AB0 \<le> unat n \<Longrightarrow> unat (split_room n) \<le> unat n - 0x00EE8AB0"
  using unat_and_le [of "n - 0x00EE8AB0" "NOT 511"] by (simp add: split_room_def unat_sub word_le_nat_alt)

lemma wrap_mod: "0 < k \<Longrightarrow> k < 2 ^ 32 \<Longrightarrow> (2 ^ 64 - k) mod 2 ^ 32 = (2 ^ 32 - k :: nat)"
proof -
  assume k: "0 < k" "k < 2 ^ 32"
  then have "(2 ^ 64 - k :: nat) = (2 ^ 32 - k) + 2 ^ 32 * (2 ^ 32 - 1)" by simp
  then show ?thesis
    using k by (simp only: mod_mult_self2) simp
qed

lemma unat_trunc_diff:
  assumes "unat (m :: u64) < 2 ^ 32" "unat (s :: u64) < 2 ^ 32"
  shows "unat (ucast (m - s) :: u32) = (if unat s \<le> unat m then unat m - unat s else 2 ^ 32 + unat m - unat s)"
proof (cases "unat s \<le> unat m")
  case True
  then have "unat (m - s) = unat m - unat s"
    by (simp add: unat_sub word_le_nat_alt)
  then show ?thesis
    using assms True by (simp add: unat_trunc)
next
  case False
  then have "unat (m - s) = 2 ^ 64 - (unat s - unat m)"
    by (simp add: unat_sub_if')
  then show ?thesis
    using wrap_mod [of "unat s - unat m"] assms False by (simp add: unsigned_ucast_eq take_bit_eq_mod)
qed

lemma FG_fit_FGSplit:
  assumes "0x00EE8AB0 < unat n" "unat n < 2 ^ 32" "table_wf t" "layout_parts XboxDiskLayout_FGSplit n t = Some t'"
  shows "FG_fit n t' \<longleftrightarrow> fit_condition XboxDiskLayout_FGSplit n"
proof -
  define m f where "m = split_room n" and "f = split_size m"
  have m: "unat m \<le> unat n - 0x00EE8AB0"
    using split_room_le [of n] assms(1) by (simp add: m_def)
  have "unat (m div 2) = unat m div 2"
    by (simp add: unat_div)
  then have f: "unat f \<le> unat m div 2" "unat f \<le> 2147483645"
    using unat_split_size [of m] m assms(2) by (auto simp: f_def unat_trunc)
  define s where "s = (XBOX_EXTEND_STARTLBA :: u32) + f"
  have s: "unat s = 0x00EE8AB0 + unat f" "unat (ucast s :: u64) = 0x00EE8AB0 + unat f"
    using f(2) by (simp_all add: s_def unat_word_ariths unsigned_ucast_eq take_bit_nat_eq_self)
  define g where "g = (ucast (m - ucast s) :: u32)"
  have g: "unat g = (if unat s \<le> unat m then unat m - unat s else 2 ^ 32 + unat m - unat s)"
    using unat_trunc_diff [of m "ucast s"] m assms(2) s f(2) by (simp add: g_def)
  have t': "part 5 t' = (part 5 t)\<lparr>LBAStart := XBOX_EXTEND_STARTLBA, LBASize := f, pe_Flags := 0\<rparr>"
    "part 6 t' = (part 6 t)\<lparr>LBAStart := s, LBASize := g, pe_Flags := 0\<rparr>"
    using assms(3,4) by (auto simp: Let_def table_wf_def m_def f_def g_def s_def split_room_def)
  have z: "g = 0 \<longleftrightarrow> unat g = 0"
    by (simp add: unat_eq_0)
  show ?thesis
    using m f s g assms(1,2) unfolding FG_fit_def part_end_def t' z
    by (auto simp: m_def [symmetric] f_def [symmetric])
qed

text \<open>C37: When \<^verbatim>\<open>fdisk\<close> places F and G on a drive that has room beyond the stock partitions, F ends on the disk and G is
  empty or lies between the end of F and the end of the disk, exactly on the drives that \<^const>\<open>fit_condition\<close> names.
  Giving everything to F always fits.  The layouts that give F a fixed size fit when the drive has that
  much: on a smaller one F runs past its end, since only the start of G depends on the size of the drive.
  Splitting evenly fits only when the half that F takes and the stock partitions together are no more than
  the room, from which the stock partitions were already taken: otherwise the size of G wraps around.
\<close>

theorem fdisk_layout_fits:
  fixes n :: u32
  assumes "l \<noteq> XboxDiskLayout_Base" "0x00EE8AB0 < unat n" "table_wf t" "layout_parts l (ucast n) t = Some t'"
  shows "FG_fit (ucast n) t' \<longleftrightarrow> fit_condition l (ucast n)"
proof -
  define m :: u64 where "m = ucast n"
  have n: "unat n < 2 ^ LENGTH(32)"
    by (rule unsigned_less)
  then have m: "unat m = unat n" "unat m < 2 ^ 32"
    by (simp_all add: m_def unsigned_ucast_eq take_bit_nat_eq_self)
  have sub: "unat (ucast (m - k) :: u32) = unat m - unat k" if "unat k \<le> unat m" for k
    using unat_trunc_diff [of m k] m(2) that by simp
  note simps = table_wf_def Let_def FG_fit_def part_end_def word_le_nat_alt
  show ?thesis
  proof (cases l)
    case XboxDiskLayout_FOnly
    then show ?thesis
      using assms m sub [of "0x00EE8AB0"] by (auto simp: simps m_def [symmetric] split: if_splits)
  next
    case XboxDiskLayout_F120GRest
    then show ?thesis
      using assms m sub [of "0x0FFFFFFF"] by (auto simp: simps m_def [symmetric] split: if_splits)
  next
    case XboxDiskLayout_FGSplit
    then show ?thesis
      using FG_fit_FGSplit [of m t t'] assms m by (simp add: m_def)
  next
    case XboxDiskLayout_FMaxGRest
    then show ?thesis
      using assms m sub [of "0x00EE8AB0 + 2147483645"] by (auto simp: simps m_def [symmetric] split: if_splits)
  qed (use assms in simp)
qed

theorem fdisk_layout_fits_witness:
  "FG_fit 78165360 (the (layout_parts XboxDiskLayout_FOnly 78165360 BackupPartTable)) \<and>
   \<not> FG_fit 78165360 (the (layout_parts XboxDiskLayout_F120GRest 78165360 BackupPartTable))"
  using fdisk_layout_fits [of XboxDiskLayout_FOnly 78165360 BackupPartTable]
    fdisk_layout_fits [of XboxDiskLayout_F120GRest 78165360 BackupPartTable]
  by (simp add: BackupPartTable_wf)

subsection \<open>What is on the disk afterwards\<close>

text \<open>The cache partitions of the built-in table all start where the first one does.\<close>

lemma backup_table_swap_overlap:
  "LBAStart (part 2 BackupPartTable) = LBAStart (part 3 BackupPartTable) \<and>
   LBAStart (part 2 BackupPartTable) = LBAStart (part 4 BackupPartTable) \<and>
   LBASize (part 2 BackupPartTable) \<noteq> 0 \<and> LBASize (part 3 BackupPartTable) \<noteq> 0 \<and> LBASize (part 4 BackupPartTable) \<noteq> 0"
  by (simp add: BackupPartTable_def table_entry_def)

lemma disk_initialize_0 [simp]: "disk_initialize d = 0"
  by (simp add: disk_initialize_def)

definition same_disk :: "drive \<Rightarrow> drive \<Rightarrow> bool" where
  "same_disk d d' \<longleftrightarrow> bad_sector d' = bad_sector d \<and> flush_fails d' = flush_fails d \<and> m_dwCountSectorsTotal d' = m_dwCountSectorsTotal d"

lemma same_disk_refl [simp]: "same_disk d d"
  by (simp add: same_disk_def)

lemma wipe_loop_result:
  "wipe_loop js d = (ok, d') \<Longrightarrow>
   same_disk d d' \<and> (\<forall>i. i \<notin> set js \<longrightarrow> sector d' i = sector d i) \<and> (ok \<longleftrightarrow> (\<forall>i \<in> set js. \<not> bad_sector d i))"
proof (induction js arbitrary: d)
  case (Cons j js)
  show ?case
  proof (cases "bad_sector d j")
    case False
    let ?d = "d\<lparr>sector := (sector d)(j := replicate 512 0)\<rparr>"
    have "wipe_loop js ?d = (ok, d')"
      using Cons.prems False by (simp add: disk_write_def)
    from Cons.IH [OF this] False show ?thesis
      by (auto simp: same_disk_def)
  qed (use Cons.prems in \<open>auto simp: disk_write_def\<close>)
qed simp

lemma write_brfr_result:
  assumes "write_brfr d = (r, d')"
  shows "same_disk d d'" "sector d' 0 = sector d 0" "\<And>i. 0x400 \<le> i \<Longrightarrow> sector d' i = sector d i"
    "(\<And>i. \<not> bad_sector d i) \<Longrightarrow> r = FR_OK"
proof -
  obtain ok d1 where w: "wipe_loop [1..<0x400] d = (ok, d1)" by fastforce
  note w' = wipe_loop_result [OF w]
  show "same_disk d d'" "sector d' 0 = sector d 0" "\<And>i. 0x400 \<le> i \<Longrightarrow> sector d' i = sector d i"
    "(\<And>i. \<not> bad_sector d i) \<Longrightarrow> r = FR_OK"
    using assms w' by (auto simp: write_brfr_def w [simplified] disk_write_def same_disk_def split: if_splits)
qed

lemma fatx_fdisk_result:
  assumes "fatx_fdisk t d = (r, d')"
  shows "\<And>i. 0x400 \<le> i \<Longrightarrow> sector d' i = sector d i"
    "(\<And>i. \<not> bad_sector d i) \<Longrightarrow> \<not> flush_fails d \<Longrightarrow> r = FR_OK"
    "r = FR_OK \<Longrightarrow> sector d' 0 = table_bytes t @ replicate 16 0 \<and> \<not> bad_sector d' 0"
proof -
  obtain r1 d1 where w: "write_brfr d = (r1, d1)" by fastforce
  note w' = write_brfr_result [OF w]
  show "\<And>i. 0x400 \<le> i \<Longrightarrow> sector d' i = sector d i"
    using assms w'(3) by (auto simp: fatx_fdisk_def w write_table_def disk_write_def split: if_splits)
  show "(\<And>i. \<not> bad_sector d i) \<Longrightarrow> \<not> flush_fails d \<Longrightarrow> r = FR_OK"
    using assms w'(1,4) by (auto simp: fatx_fdisk_def w write_table_def disk_write_def same_disk_def split: if_splits)
  show "r = FR_OK \<Longrightarrow> sector d' 0 = table_bytes t @ replicate 16 0 \<and> \<not> bad_sector d' 0"
    using assms by (auto simp: fatx_fdisk_def w write_table_def disk_write_def split: if_splits)
qed

lemma fatx_getmbr_backup: "fst (fatx_getmbr d) = FR_OK \<longleftrightarrow> \<not> bad_sector d 0 \<and> take 16 (sector d 0) = pt_Magic BackupPartTable"
  by (auto simp: fatx_getmbr_def disk_read_def)

lemma fatx_getmbr_written:
  assumes "\<not> bad_sector d 0" "sector d 0 = table_bytes t @ r" "table_wf t" "pt_Magic t = pt_Magic BackupPartTable"
  shows "fatx_getmbr d = (FR_OK, Some t, d\<lparr>FatxPartTable := t, FatxPartTableRead := True\<rparr>)"
proof -
  have "take 16 (sector d 0) = pt_Magic t"
    using assms(2,3) by (simp add: table_bytes_def table_wf_def)
  then show ?thesis
    using assms by (simp add: fatx_getmbr_def disk_read_def bytes_table_of_bytes)
qed

definition layout_allowed :: "XboxDiskLayout \<Rightarrow> drive \<Rightarrow> bool" where
  "layout_allowed l d \<longleftrightarrow> \<not> (BootIdeGetSectorCount d < XBOX_EXTEND_STARTLBA - 1 \<or>
     BootIdeGetSectorCount d \<le> XBOX_EXTEND_STARTLBA \<and> l \<noteq> XboxDiskLayout_Base)"

definition has_table :: "drive \<Rightarrow> bool" where
  "has_table d \<longleftrightarrow> \<not> bad_sector d 0 \<and> take 16 (sector d 0) = pt_Magic BackupPartTable"

lemma fdisk_drive_eq:
  "fdisk_drive l d =
    (if \<not> layout_allowed l d then (None, d)
     else if \<not> has_table d then (None, snd (snd (fatx_getmbr d)))
     else case layout_parts l (BootIdeGetSectorCount d) (bytes_table (sector d 0)) of
         None \<Rightarrow> (None, snd (snd (fatx_getmbr d)))
       | Some t \<Rightarrow> map_prod Some (\<lambda>x. x) (fatx_fdisk t (snd (snd (fatx_getmbr d)))))"
  by (auto simp: fdisk_drive_def layout_allowed_def has_table_def fatx_getmbr_def disk_read_def Let_def map_prod_def split_beta
      split: option.splits)

lemma fatx_getmbr_keeps [simp]:
  "sector (snd (snd (fatx_getmbr d))) = sector d" "bad_sector (snd (snd (fatx_getmbr d))) = bad_sector d"
  "flush_fails (snd (snd (fatx_getmbr d))) = flush_fails d"
  by (simp_all add: fatx_getmbr_def Let_def split_beta split: option.splits)

lemma fatx_setmbr_getmbr:
  assumes "fatx_setmbr t d = (FR_OK, d')" "table_wf t" "pt_Magic t = pt_Magic BackupPartTable"
  shows "fatx_getmbr d' = (FR_OK, Some t, d')"
proof -
  from assms have "\<not> bad_sector d' 0" "sector d' 0 = table_bytes t @ replicate 16 0" "FatxPartTable d' = t" "FatxPartTableRead d'"
    by (auto simp: fatx_setmbr_def write_table_def disk_write_def split: if_splits)
  with fatx_getmbr_written [OF this(1,2) assms(2,3)] show ?thesis
    by simp
qed

text \<open>A drive without a partition table is never given one, although the comment in front of the call
  says that the backup table is generated for it: \<^verbatim>\<open>fatx_getmbr\<close> returns \<^verbatim>\<open>FR_NO_FILE\<close> together with that table.\<close>

lemma fdisk_without_table:
  assumes "length ds = 2" "k < 2" "fdisk k l ds = (r, ds')" "\<not> has_table (ds ! k)"
  shows "r = None \<and> sector (ds' ! k) = sector (ds ! k) \<and> ds' ! (1 - k) = ds ! (1 - k)"
proof -
  have "fst (fdisk_drive l (ds ! k)) = None" "sector (snd (fdisk_drive l (ds ! k))) = sector (ds ! k)"
    using assms(4) by (simp_all add: fdisk_drive_eq)
  moreover have "1 - k \<noteq> k" by presburger
  ultimately show ?thesis using assms(1-3) by (auto simp: fdisk_def split_beta)
qed

text \<open>C36: \<^verbatim>\<open>fdisk\<close> on one of the two drives never touches the other one, nor a sector beyond the configuration area of
  its own.  When it returns -1 every sector is as it was.  On a drive that has a partition table it
  returns -1 exactly when the drive is too small for the layout or the layout refuses the size; otherwise,
  when every sector is good and the flush succeeds, it returns 0.  Whenever it returns 0, reading the
  table back gives exactly the table the layout computes from the old one.
\<close>

theorem fdisk_effect:
  assumes "length ds = 2" "k < 2" "drive_wf (ds ! k)" "fdisk k l ds = (r, ds')"
  defines "d \<equiv> ds ! k" and "d' \<equiv> ds' ! k"
  defines "new \<equiv> layout_parts l (BootIdeGetSectorCount d) (bytes_table (sector d 0))"
  shows "ds' ! (1 - k) = ds ! (1 - k) \<and> (\<forall>i \<ge> 0x400. sector d' i = sector d i) \<and>
    (r = None \<longrightarrow> sector d' = sector d) \<and>
    (has_table d \<longrightarrow> (r = None \<longleftrightarrow> \<not> layout_allowed l d \<or> new = None)) \<and>
    (r \<noteq> None \<and> (\<forall>i. \<not> bad_sector d i) \<and> \<not> flush_fails d \<longrightarrow> r = Some FR_OK) \<and>
    (r = Some FR_OK \<longrightarrow> fst (fatx_getmbr d') = FR_OK \<and> fst (snd (fatx_getmbr d')) = new)"
proof -
  obtain r1 d1 where fd: "fdisk_drive l d = (r1, d1)" by fastforce
  have r: "r = r1" and ds': "ds' = ds[k := d1]" and d': "d' = d1"
    using assms(1,2,4) fd by (auto simp: fdisk_def d_def d'_def)
  have other: "ds' ! (1 - k) = ds ! (1 - k)"
    using assms(2) by (cases "k = 0") (auto simp: ds' nth_list_update)
  show ?thesis
  proof (cases "layout_allowed l d \<and> has_table d \<and> new \<noteq> None")
    case False
    then have "r = None \<and> sector d' = sector d"
      using fd by (auto simp: fdisk_drive_eq r d' new_def split: if_splits option.splits)
    then show ?thesis
      using False other by auto
  next
    case True
    then obtain t where t: "new = Some t" by auto
    define d0 where "d0 = snd (snd (fatx_getmbr d))"
    have f: "\<exists>r0. r = Some r0 \<and> fatx_fdisk t d0 = (r0, d')"
      using fd True t by (auto simp: fdisk_drive_eq r d' new_def d0_def map_prod_def split_beta split: if_splits)
    then obtain r0 where r0: "r = Some r0" "fatx_fdisk t d0 = (r0, d')" by blast
    note res = fatx_fdisk_result [OF r0(2)]
    have wf: "table_wf (bytes_table (sector d 0))"
      using assms(3) by (simp add: bytes_table_wf drive_wf_def d_def)
    have mg: "pt_Magic (bytes_table (sector d 0)) = pt_Magic BackupPartTable"
      using True by (simp add: has_table_def bytes_table_def)
    have "fst (fatx_getmbr d') = FR_OK \<and> fst (snd (fatx_getmbr d')) = new" if "r0 = FR_OK"
      using fatx_getmbr_written [of d' t] res(3) that t layout_parts_wf [OF _ wf] layout_parts_Magic [OF _ mg]
      by (simp add: new_def)
    then show ?thesis
      using True other res(1,2) r0(1) by (auto simp: d0_def)
  qed
qed

definition sample_drive :: drive where
  "sample_drive =
    \<lparr>sector = (\<lambda>n. if n = 0 then table_bytes BackupPartTable @ replicate 16 0 else replicate 512 0), bad_sector = (\<lambda>n. False),
     m_dwCountSectorsTotal = 78165360, m_fDriveExists = True, m_fAtapi = False, flush_fails = False,
     FatxPartTable = BackupPartTable, FatxPartTableRead = False\<rparr>"

lemma sample_drive_facts:
  "drive_wf sample_drive" "has_table sample_drive" "layout_allowed XboxDiskLayout_FOnly sample_drive"
  "BootIdeGetSectorCount sample_drive = 78165360" "bytes_table (sector sample_drive 0) = BackupPartTable"
  "bad_sector sample_drive i = False" "flush_fails sample_drive = False"
proof -
  show "has_table sample_drive"
    using BackupPartTable_wf by (simp add: has_table_def sample_drive_def table_bytes_def table_wf_def)
qed (simp_all add: sample_drive_def drive_wf_def length_table_bytes BackupPartTable_wf bytes_table_of_bytes layout_allowed_def
      BootIdeGetSectorCount_def)

theorem fdisk_effect_witness:
  "\<exists>ds'. fdisk 0 XboxDiskLayout_FOnly [sample_drive, sample_drive] = (Some FR_OK, ds') \<and> ds' ! 1 = sample_drive \<and>
     sector (ds' ! 0) 0x400 = sector sample_drive 0x400 \<and>
     fst (snd (fatx_getmbr (ds' ! 0))) = layout_parts XboxDiskLayout_FOnly 78165360 BackupPartTable"
proof -
  obtain r ds' where f: "fdisk 0 XboxDiskLayout_FOnly [sample_drive, sample_drive] = (r, ds')" by fastforce
  have n: "layout_parts XboxDiskLayout_FOnly 78165360 BackupPartTable \<noteq> None"
    by simp
  show ?thesis
    using fdisk_effect [OF _ _ _ f] f n by (simp add: sample_drive_facts)
qed

end
