(* ===== verification/Rand.thy ===== *)
theory Rand
  imports Xblast_Prelude
begin

unbundle bit_operations_syntax

text \<open>
  The random numbers of \<^verbatim>\<open>src/lib/misc/rand.c\<close>: the KISS generator with its four static variables, which every call
  reseeds twice from the timer (\<^verbatim>\<open>getRandSeed\<close>, here the two arguments of \<^verbatim>\<open>rand\<close>).  All arithmetic is on 32-bit
  words; \<^const>\<open>None\<close> is a division by zero.
\<close>

record kiss =
  kz :: u32
  kw :: u32
  jsr :: u32
  jcong :: u32

definition kiss_init :: kiss where
  "kiss_init = \<lparr>kz = 362436069, kw = 521288629, jsr = 123456789, jcong = 380116160\<rparr>"

definition udiv_rest :: "u32 \<Rightarrow> u32 \<Rightarrow> u32 option" where
  "udiv_rest a b = (if b = 0 then None else Some (a mod b))"

definition seed_z :: "u32 \<Rightarrow> kiss \<Rightarrow> kiss option" where
  "seed_z x st = map_option (\<lambda>r. st\<lparr>kw := r, kz := x\<rparr>) (udiv_rest (jsr st + kz st) (kw st))"

definition seed_jsr :: "u32 \<Rightarrow> kiss \<Rightarrow> kiss option" where
  "seed_jsr x st = map_option (\<lambda>r. st\<lparr>jcong := r, jsr := x\<rparr>) (udiv_rest (kz st * (jsr st - kw st)) (kw st))"

definition wnew :: "u32 \<Rightarrow> u32" where
  "wnew w = 18000 * (w AND 65535) + drop_bit 16 w"

definition KISS :: "kiss \<Rightarrow> u32 \<times> kiss" where
  "KISS st =
    (let z = 36969 * (kz st AND 65535) + drop_bit 16 (kz st);
         w = wnew (kw st);
         c = 69069 * jcong st + 1234567;
         j = jsr st XOR push_bit 17 (jsr st);
         j = j XOR drop_bit 13 j;
         j = j XOR push_bit 5 j
     in (((push_bit 16 z + w) XOR c) + j, \<lparr>kz = z, kw = w, jsr = j, jcong = c\<rparr>))"

definition RAND_MAX :: u32 where "RAND_MAX = 0x7FFFFFFF"

definition rand :: "u32 \<Rightarrow> u32 \<Rightarrow> kiss \<Rightarrow> (u32 \<times> kiss) option" where
  "rand seed1 seed2 st =
    (case seed_jsr seed1 st of
       None \<Rightarrow> None
     | Some st1 \<Rightarrow>
         let (k, st2) = KISS st1; rnd = k mod RAND_MAX
         in case udiv_rest rnd seed2 of
              None \<Rightarrow> None
            | Some x \<Rightarrow> map_option (\<lambda>st3. (rnd, st3)) (seed_z x st2))"

text \<open>The multiply-with-carry step cannot overflow, so it reaches zero only from zero.\<close>

lemma unat_wnew: "unat (wnew w) = 18000 * (unat w mod 65536) + unat w div 65536"
proof -
  have w: "unat w < 2 ^ LENGTH(32)"
    by (rule unsigned_less)
  have "w AND 65535 = take_bit 16 w"
    by (simp add: take_bit_eq_mask mask_numeral)
  then have a: "unat (w AND 65535) = unat w mod 65536"
    by (simp add: take_bit_eq_mod unat_mod)
  have b: "unat (drop_bit 16 w) = unat w div 65536"
    by (simp add: drop_bit_eq_div unat_div)
  have "18000 * (unat w mod 65536) + unat w div 65536 < 2 ^ 32"
  proof -
    have "unat w mod 65536 \<le> 65535" "unat w div 65536 \<le> 65535"
      using w by auto
    then show ?thesis by simp
  qed
  then show ?thesis
    by (simp add: wnew_def unat_word_ariths a b)
qed

lemma wnew_eq_0 [simp]: "wnew w = 0 \<longleftrightarrow> w = 0"
proof -
  have "wnew w = 0 \<longleftrightarrow> unat (wnew w) = 0" "w = 0 \<longleftrightarrow> unat w = 0"
    by (simp_all add: unat_eq_zero)
  then show ?thesis
    unfolding unat_wnew by auto
qed

lemma kw_KISS: "kw (snd (KISS st)) = wnew (kw st)"
  by (simp add: KISS_def Let_def)

lemma rand_None_iff: "rand seed1 seed2 st = None \<longleftrightarrow> kw st = 0 \<or> seed2 = 0"
proof (cases "kw st = 0")
  case False
  then obtain st1 where s: "seed_jsr seed1 st = Some st1" "kw st1 = kw st"
    by (simp add: seed_jsr_def udiv_rest_def)
  obtain k st2 where k: "KISS st1 = (k, st2)" by fastforce
  have "kw st2 \<noteq> 0"
    using kw_KISS [of st1] k s(2) False by simp
  then show ?thesis
    using False s by (simp add: rand_def k seed_z_def udiv_rest_def Let_def)
qed (simp add: rand_def seed_jsr_def udiv_rest_def)

lemma rand_less: "rand seed1 seed2 st = Some (r, st') \<Longrightarrow> r < RAND_MAX"
  by (auto simp: rand_def RAND_MAX_def split_beta Let_def word_less_nat_alt unat_mod split: option.splits)

text \<open>Once the remainder that reseeds \<^const>\<open>kw\<close> is zero, every further call divides by zero.\<close>

lemma rand_stuck: "kw st = 0 \<Longrightarrow> rand seed1 seed2 st = None"
  by (simp add: rand_None_iff)

lemma rand_can_stick: "\<exists>r st'. rand 0 1 \<lparr>kz = 0, kw = 1, jsr = 0, jcong = 0\<rparr> = Some (r, st') \<and> kw st' = 0"
  by (simp add: rand_def seed_jsr_def seed_z_def udiv_rest_def KISS_def wnew_def Let_def)

end
