(* ===== verification/Spec2Isabelle.thy ===== *)
theory Spec2Isabelle
  imports LCDRingBuffer Flash_Read Flash_Image BootEEPROM Script_Ends BootHeap ChangeTracker Printf CallbackTimer VirtualRoot Fdisk Rand
begin

text \<open>
  XBlast OS is the firmware of the XBlast modchip for the Xbox: it starts the console, keeps its settings in
  the flash chip it runs from, programs BIOS images into that chip, repairs the console's EEPROM, runs
  scripts, drives a text display and serves the hard disk by FTP.  Paths below are relative to
  \<^verbatim>\<open>src/\<close>.  The code is 32-bit C; theory \<^verbatim>\<open>Xblast_Prelude\<close> fixes how its data is represented.

  \<^bold>\<open>Conventions.\<close>  A C structure is a record, an enumeration a datatype or a named constant, an unsigned integer a
  word of its width.  The static variables of a file are one record, passed through its functions.  \<^verbatim>\<open>None\<close> as the
  result of an operation is something C gives no meaning to (an access outside an array, a division by
  zero) or a loop that does not end, so that a theorem with \<^verbatim>\<open>Some\<close> says that the operation is safe and
  returns.  Hardware is a parameter: bus and port accesses, clocks, buttons, sectors.

  \<^bold>\<open>Flash.\<close>  \<^verbatim>\<open>FlashTypes\<close> is the table of known chips (\<^verbatim>\<open>include/flashtypes.h\<close>), \<^verbatim>\<open>FlashLowLevel\<close> the command sequences of
  \<^verbatim>\<open>drivers/flash/FlashLowLevel.c\<close> over an abstract bus, \<^verbatim>\<open>FlashDriver\<close> the state machine and the requests of
  \<^verbatim>\<open>drivers/flash/FlashDriver.c\<close>, and \<^verbatim>\<open>FlashSpoof\<close> the simulator of \<^verbatim>\<open>pc_tools/FlashSimulator\<close>.  The driver calls the low
  level through the contracts \<^verbatim>\<open>flash_reader\<close> (\<^verbatim>\<open>Flash_Contract\<close>) and \<^verbatim>\<open>flash_device\<close> (\<^verbatim>\<open>Flash_Progress\<close>).  Under the first, a
  write reported complete has put the image into the chip; under the second it does complete.  The
  simulator meets the contract, and \<^verbatim>\<open>Flash_Jedec\<close> shows that the command sequences on any chip that follows the JEDEC
  data sheets meet it too.  \<^verbatim>\<open>Flash_Correct\<close> puts the write requests on top and \<^verbatim>\<open>Flash_Settings\<close> treats the settings
  sector.  \<^verbatim>\<open>Flash_Image\<close> shows that the images of the builder \<^verbatim>\<open>pc_tools/imagebld/imagebld.c\<close> pass the driver's
  validation and that a damaged one does not.  \<^verbatim>\<open>Flash_Read\<close> is the reading of the settings at boot, for the layout of
  an OS bank that the comments describe and the driver keeps to.

  \<^bold>\<open>Settings.\<close>  \<^verbatim>\<open>XblastSettings\<close> is the packed structure of \<^verbatim>\<open>xblast/settings\<close>, guarded by \<^verbatim>\<open>Crc32\<close> (\<^verbatim>\<open>lib/misc/crc32.c\<close>) in
  flash.  As a text file it goes through \<^verbatim>\<open>SettingsFile\<close> (\<^verbatim>\<open>xblastSettingsImportExport.c\<close>) and \<^verbatim>\<open>MinIni\<close> (\<^verbatim>\<open>lib/minIni\<close>).
  \<^verbatim>\<open>MinIni_Text\<close> and \<^verbatim>\<open>MinIni_Entries\<close> show that rewriting a file keeps every other line, as the contract \<^verbatim>\<open>entry_store\<close>;
  \<^verbatim>\<open>Settings_Numbers\<close>, \<^verbatim>\<open>Settings_Import\<close>, \<^verbatim>\<open>Settings_Export\<close> and \<^verbatim>\<open>Settings_Roundtrip\<close> lead to the round trip of the settings.
  \<^verbatim>\<open>ChangeTracker\<close> is the list of uncommitted changes.

  \<^bold>\<open>EEPROM and digests.\<close>  \<^verbatim>\<open>BootEEPROM\<close> (\<^verbatim>\<open>lib/eeprom/BootEEPROM.c\<close>) seals its contents with \<^verbatim>\<open>HddKey\<close>
  (\<^verbatim>\<open>drivers/ide/BootHddKey.c\<close>), \<^verbatim>\<open>Sha1\<close> and \<^verbatim>\<open>Rc4\<close>; \<^verbatim>\<open>Md5\<close> digests OS images (\<^verbatim>\<open>lib/crypt\<close>).  The digests are shown equal to
  definitions over the whole padded message, however it is cut into calls.

  \<^bold>\<open>Scripts.\<close>  \<^verbatim>\<open>ScriptText\<close>, \<^verbatim>\<open>ScriptIf\<close>, \<^verbatim>\<open>ScriptArgs\<close> and \<^verbatim>\<open>ScriptEngine\<close> are \<^verbatim>\<open>xblast/scriptEngine/xblastScriptEngine.c\<close> in the order of
  its phases, \<^verbatim>\<open>FunctionsAccessor\<close> the calls of a script to the hardware.  \<^verbatim>\<open>Script_Correct\<close> is about every
  state a run reaches, \<^verbatim>\<open>script_reaches\<close>, and \<^verbatim>\<open>Script_Ends\<close> about which runs end.

  \<^bold>\<open>Display and time.\<close>  \<^verbatim>\<open>LCDRingBuffer\<close> (\<^verbatim>\<open>lib/LPCMod/LCDRingBuffer.c\<close>) implements the bounded queue of \<^verbatim>\<open>Fifo_Spec\<close>.
  \<^verbatim>\<open>TimeManagement\<close> is the clock arithmetic, \<^verbatim>\<open>CallbackTimer\<close> the linked list of timers, related to a plain list.
  \<^verbatim>\<open>HardwareIdentifier\<close> holds the predicates on the detected hardware and the bank and port registers.

  \<^bold>\<open>Disk.\<close>  \<^verbatim>\<open>Fdisk\<close> is the partitioning of a drive (\<^verbatim>\<open>fs/ff13b/source/FatFSAccessor.c\<close> with the partition table
  functions of \<^verbatim>\<open>ff.c\<close>): what it leaves on the disk, and for which drives its layouts fit.  \<^verbatim>\<open>VirtualRoot\<close> is the
  directory tree of the FTP server with its current directory.

  \<^bold>\<open>C library.\<close>  \<^verbatim>\<open>CString\<close>, \<^verbatim>\<open>CLibrary\<close> and \<^verbatim>\<open>Strtol\<close> (\<^verbatim>\<open>lib/cromwell\<close>), \<^verbatim>\<open>Printf\<close> (\<^verbatim>\<open>lib/misc/vsprintf.c\<close>), \<^verbatim>\<open>Rand\<close>, and the memory
  manager \<^verbatim>\<open>BootLibrary\<close>, with \<^verbatim>\<open>BootHeap\<close> for sequences of its calls.

  \<^bold>\<open>Bounds.\<close>  The doubling loop of \<^verbatim>\<open>mirrorimage\<close> has fuel 33, since a 32-bit size doubles at most 32 times before it
  wraps to zero.  The loop over the block locks has fuel 0x10000, more than a 32-bit length has blocks of 64 KB.
  The loop that polls for the settings at boot and the interpreter loop take their fuel as an argument; the
  first is shown to return the same result for every fuel from some number on, the second to need no more
  than the length of the script when the script has no GOTO.  Loops that may not
  end at all are partial functions in the option monad.

  \<^bold>\<open>Not modelled.\<close>  Boot code, menus, video, IDE, PCI, USB and SMBus drivers, the display driver, the debug logger and
  power management: register accesses and screen drawing around calls into the parts above.  The
  detection of the modchip is such a sequence of probes.  The network stack, the FatFs library, the
  decompressors and the JPEG decoder are third-party; of the image builder only the header it writes is here; mounting, formatting and file access are
  calls into FatFs.  \<^verbatim>\<open>memset\<close>, \<^verbatim>\<open>memcpy\<close>, \<^verbatim>\<open>strcpy\<close> and \<^verbatim>\<open>strlen\<close> are inline assembly and stand for the list
  operations.  \<^verbatim>\<open>fs/fatx/BootFATX.c\<close> is commented out of the Makefile and \<^verbatim>\<open>lib/misc/BootParser.c\<close> is in none, and
  \<^verbatim>\<open>lib/misc/sortHelpers.c\<close> is used by the former only.
\<close>

end
